(* ===== verification/Prelude.thy ===== *)
theory Prelude
  imports Main "HOL-Library.Word" "HOL-Library.List_Lexorder" "HOL-Library.Signed_Division"
    "HOL-Library.AList" "HOL-Library.Multiset"
begin

text \<open>
  What every component shares: bytes and byte strings, the values a Go call can end with
  (a result, an error, a panic), \<open>int64\<close> arithmetic with its wrap-around, lemma
  collections, and the interface of a prefix codec (an encoder whose output a decoder
  reads back and hands on the bytes after it).
\<close>

section \<open>Lemma collections\<close>

named_theorems i64_simps \<open>arithmetic of the wrapped 64 bit integers\<close>
named_theorems ascii_simps \<open>the byte of each ASCII character the program compares with\<close>
named_theorems consumes \<open>a decoder that succeeds returns a shorter input\<close>

section \<open>Bytes and byte strings\<close>

type_synonym byte = "8 word"
type_synonym bytes = "byte list"

text \<open>A Go character or string constant: the byte, or the bytes, it stands for.\<close>

definition asc :: "char \<Rightarrow> byte" where
  "asc c = of_char c"

definition str :: "string \<Rightarrow> bytes" where
  "str s = map asc s"

lemma str_Nil [simp]: "str [] = []"
  by (simp add: str_def)

lemma str_Cons: "str (c # s) = asc c # str s"
  by (simp add: str_def)

lemma length_str [simp]: "length (str s) = length s"
  by (simp add: str_def)

lemma asc_values [ascii_simps]:
  "asc (CHR ''i'') = 105" "asc (CHR ''l'') = 108" "asc (CHR ''d'') = 100"
  "asc (CHR ''e'') = 101" "asc (CHR '':'') = 58" "asc (CHR ''-'') = 45"
  "asc (CHR ''+'') = 43" "asc (CHR ''0'') = 48" "asc (CHR ''9'') = 57"
  by (simp_all add: asc_def)

section \<open>How a Go call ends\<close>

text \<open>
  A function with an \<open>error\<close> result returns \<open>Inl (Error e)\<close> where the source returns a
  non-nil error, \<open>Inl (Panic p)\<close> where the runtime panics, and \<open>Inr x\<close> otherwise.
  Functions that cannot panic use their own error type on the left.
\<close>

datatype go_panic =
    DivideByZero
  | IndexOutOfRange
  | SliceOutOfRange
  | MakeSliceLen
  | NilDereference
  | InvalidArgument
  | CloseOfClosedChannel
  | ReflectSet

datatype 'e fault = Error 'e | Panic go_panic

type_synonym ('e, 'a) go = "'e fault + 'a"

section \<open>64 bit integers\<close>

text \<open>
  Go's \<open>int64\<close>, and \<open>int\<close> on a 64 bit machine, wrap around. A value is an \<open>int\<close> in
  range, and each addition, subtraction or multiplication that can leave the range is
  wrapped by \<open>i64\<close>. Division truncates (\<open>sdiv\<close>, \<open>smod\<close> of Signed_Division).
\<close>

definition i64 :: "int \<Rightarrow> int" where
  "i64 x = (x + 2 ^ 63) mod 2 ^ 64 - 2 ^ 63"

definition in_i64 :: "int \<Rightarrow> bool" where
  "in_i64 x \<longleftrightarrow> - (2 ^ 63) \<le> x \<and> x < 2 ^ 63"

lemma i64_id [i64_simps]: "- (2 ^ 63) \<le> x \<Longrightarrow> x < 2 ^ 63 \<Longrightarrow> i64 x = x"
  by (simp add: i64_def)

lemma i64_in [simp]: "in_i64 (i64 x)"
proof -
  have "0 \<le> (x + 2 ^ 63) mod 2 ^ 64" and "(x + 2 ^ 63) mod 2 ^ 64 < 2 ^ 64"
    by simp_all
  then show ?thesis
    by (simp add: in_i64_def i64_def)
qed

lemma in_i64_id: "in_i64 x \<Longrightarrow> i64 x = x"
  by (simp add: in_i64_def i64_id)

lemma i64_mod: "i64 x mod 2 ^ 64 = x mod 2 ^ 64"
proof -
  have "i64 x mod 2 ^ 64 = ((x + 2 ^ 63) mod 2 ^ 64 - 2 ^ 63) mod 2 ^ 64"
    by (simp only: i64_def)
  also have "\<dots> = ((x + 2 ^ 63) - 2 ^ 63) mod 2 ^ 64"
    by (rule mod_diff_left_eq)
  finally show ?thesis by simp
qed

lemma i64_cong: "x mod 2 ^ 64 = y mod 2 ^ 64 \<Longrightarrow> i64 x = i64 y"
proof -
  assume eq: "x mod 2 ^ 64 = y mod 2 ^ 64"
  have "(x + 2 ^ 63) mod 2 ^ 64 = (x mod 2 ^ 64 + 2 ^ 63) mod 2 ^ 64"
    by (simp only: mod_add_left_eq)
  also have "\<dots> = (y + 2 ^ 63) mod 2 ^ 64"
    by (simp only: eq mod_add_left_eq)
  finally show ?thesis by (simp only: i64_def)
qed

lemma i64_add_left: "i64 (i64 x + y) = i64 (x + y)"
proof (rule i64_cong)
  have "(i64 x + y) mod 2 ^ 64 = (i64 x mod 2 ^ 64 + y) mod 2 ^ 64"
    by (simp only: mod_add_left_eq)
  then show "(i64 x + y) mod 2 ^ 64 = (x + y) mod 2 ^ 64"
    by (simp only: i64_mod mod_add_left_eq)
qed

lemma i64_add_right: "i64 (x + i64 y) = i64 (x + y)"
  using i64_add_left [of y x] by (simp only: add.commute)

lemma i64_diff_left: "i64 (i64 x - y) = i64 (x - y)"
  using i64_add_left [of x "- y"] by simp

lemma i64_diff_right: "i64 (x - i64 y) = i64 (x - y)"
proof (rule i64_cong)
  have "(x - i64 y) mod 2 ^ 64 = (x - i64 y mod 2 ^ 64) mod 2 ^ 64"
    by (simp only: mod_diff_right_eq)
  then show "(x - i64 y) mod 2 ^ 64 = (x - y) mod 2 ^ 64"
    by (simp only: i64_mod mod_diff_right_eq)
qed

lemmas i64_ring = i64_add_left i64_add_right i64_diff_left i64_diff_right

section \<open>Prefix codecs\<close>

text \<open>
  The contract between a writer and a reader of the same format: on the values the format
  can carry, the reader returns the value and the bytes the writer did not write.
\<close>

fun dec_many :: "(bytes \<Rightarrow> 'e + 'a \<times> bytes) \<Rightarrow> nat \<Rightarrow> bytes \<Rightarrow> 'e + 'a list \<times> bytes" where
  "dec_many dec 0 r = Inr ([], r)"
| "dec_many dec (Suc n) r =
     (case dec r of
        Inl e \<Rightarrow> Inl e
      | Inr (x, r') \<Rightarrow>
          (case dec_many dec n r' of Inl e \<Rightarrow> Inl e | Inr (xs, r'') \<Rightarrow> Inr (x # xs, r'')))"

locale prefix_codec =
  fixes enc :: "'a \<Rightarrow> bytes"
    and dec :: "bytes \<Rightarrow> 'e + 'a \<times> bytes"
    and ok :: "'a \<Rightarrow> bool"
  assumes dec_enc: "ok x \<Longrightarrow> dec (enc x @ rest) = Inr (x, rest)"
begin

lemma dec_enc_all: "ok x \<Longrightarrow> dec (enc x) = Inr (x, [])"
  using dec_enc [of x "[]"] by simp

lemma prefix_free:
  assumes "ok x" and "ok y" and "enc x @ r = enc y @ s"
  shows "x = y \<and> r = s"
proof -
  have "dec (enc y @ s) = Inr (x, r)"
    using dec_enc [OF assms(1), of r] by (simp only: assms(3))
  then show ?thesis
    using dec_enc [OF assms(2), of s] by simp
qed

lemma enc_inj: "ok x \<Longrightarrow> ok y \<Longrightarrow> enc x = enc y \<Longrightarrow> x = y"
  using prefix_free [of x y "[]" "[]"] by simp

text \<open>Values written one after the other are read back one after the other.\<close>

lemma dec_many_enc:
  "list_all ok xs \<Longrightarrow> dec_many dec (length xs) (concat (map enc xs) @ rest) = Inr (xs, rest)"
  by (induction xs) (simp_all add: dec_enc)

lemma no_proper_prefix: "ok x \<Longrightarrow> ok y \<Longrightarrow> enc x @ r = enc y \<Longrightarrow> r = []"
  using prefix_free [of x y r "[]"] by simp

end

text \<open>
  A format none of whose values is empty can be sent as a stream: the concatenation of
  the encodings determines the sequence of the values.
\<close>

locale stream_codec = prefix_codec +
  assumes enc_nonempty: "ok x \<Longrightarrow> enc x \<noteq> []"
begin

lemma stream_inj:
  assumes "list_all ok xs" and "list_all ok ys"
    and "concat (map enc xs) = concat (map enc ys)"
  shows "xs = ys"
  using assms
proof (induction xs arbitrary: ys)
  case Nil
  then show ?case by (cases ys) (auto simp: enc_nonempty)
next
  case (Cons x xs)
  then obtain y zs where ys: "ys = y # zs"
    by (cases ys) (auto simp: enc_nonempty)
  with Cons.prems have "x = y \<and> concat (map enc xs) = concat (map enc zs)"
    by (intro prefix_free) auto
  with Cons ys show ?case by auto
qed

end

section \<open>Simulations\<close>

text \<open>
  A transition system that refines another: each of its steps is seen as a step of the other one or not
  at all. Then its runs are seen as runs, and what every step of the other one keeps, it keeps.
\<close>

locale simulation =
  fixes cstep :: "'c \<Rightarrow> 'c \<Rightarrow> bool"
    and astep :: "'a \<Rightarrow> 'a \<Rightarrow> bool"
    and view :: "'c \<Rightarrow> 'a"
  assumes step: "cstep s s' \<Longrightarrow> astep (view s) (view s') \<or> view s' = view s"
begin

lemma runs: "cstep\<^sup>*\<^sup>* s s' \<Longrightarrow> astep\<^sup>*\<^sup>* (view s) (view s')"
  by (induction rule: rtranclp_induct) (auto dest: step intro: rtranclp.rtrancl_into_rtrancl)

lemma keeps:
  assumes "cstep\<^sup>*\<^sup>* s s'" and "I (view s)" and inv: "\<And>a a'. I a \<Longrightarrow> astep a a' \<Longrightarrow> I a'"
  shows "I (view s')"
  using runs [OF assms(1)] assms(2) by (induction rule: rtranclp_induct) (auto intro: inv)

end

section \<open>Lists\<close>

lemma take_drop_append_middle:
  "length a = n \<Longrightarrow> length b = m \<Longrightarrow> take m (drop n (a @ b @ c)) = b"
  by simp

text \<open>Go's \<open>for\<close> over a slice that stops at the first element with a given outcome.\<close>

lemma list_all_nth_iff: "list_all P xs \<longleftrightarrow> (\<forall>i < length xs. P (xs ! i))"
  by (auto simp: list_all_iff all_set_conv_all_nth)

end
