(* ===== verification/GoLib.thy ===== *)
theory GoLib
  imports Prelude
begin

unbundle bit_operations_syntax

text \<open>
  The parts of Go's standard library the program computes with: decimal numbers
  (\<open>strconv.ParseInt\<close>, \<open>strconv.FormatInt\<close>, the verb \<open>%d\<close>), \<open>binary.BigEndian\<close>,
  \<open>copy\<close> into a buffer, and reading up to a delimiter from a \<open>bytes.Reader\<close>. A reader is the
  list of the bytes it has not handed out; \<open>UnreadByte\<close> after \<open>ReadByte\<close> puts the byte back.
\<close>

section \<open>Decimal numbers\<close>

datatype num_error = ErrSyntax | ErrRange

definition is_digit :: "byte \<Rightarrow> bool" where
  "is_digit c \<longleftrightarrow> 48 \<le> c \<and> c \<le> 57"

definition digit_val :: "byte \<Rightarrow> nat" where
  "digit_val c = unat c - 48"

definition digit_byte :: "nat \<Rightarrow> byte" where
  "digit_byte d = of_nat (48 + d)"

text \<open>
  The loop of \<open>strconv.ParseUint\<close> in base 10 and 64 bits: a character that is no digit
  is a syntax error at once, a value past \<open>2^64 - 1\<close> a range error at once.
\<close>

fun parse_uint_loop :: "nat \<Rightarrow> bytes \<Rightarrow> num_error + nat" where
  "parse_uint_loop n [] = Inr n"
| "parse_uint_loop n (c # cs) =
     (if \<not> is_digit c then Inl ErrSyntax
      else if n * 10 + digit_val c \<ge> 2 ^ 64 then Inl ErrRange
      else parse_uint_loop (n * 10 + digit_val c) cs)"

definition ParseUint :: "bytes \<Rightarrow> num_error + nat" where
  "ParseUint s = (if s = [] then Inl ErrSyntax else parse_uint_loop 0 s)"

definition strip_sign :: "bytes \<Rightarrow> bool \<times> bytes" where
  "strip_sign s =
     (case s of
        [] \<Rightarrow> (False, [])
      | c # cs \<Rightarrow>
          if c = asc (CHR ''-'') then (True, cs)
          else if c = asc (CHR ''+'') then (False, cs)
          else (False, c # cs))"

definition ParseInt :: "bytes \<Rightarrow> num_error + int" where
  "ParseInt s =
     (if s = [] then Inl ErrSyntax
      else
        (case strip_sign s of
           (neg, ds) \<Rightarrow>
             (case ParseUint ds of
                Inl ErrSyntax \<Rightarrow> Inl ErrSyntax
              | Inl ErrRange \<Rightarrow> Inl ErrRange
              | Inr un \<Rightarrow>
                  if \<not> neg \<and> un \<ge> 2 ^ 63 then Inl ErrRange
                  else if neg \<and> un > 2 ^ 63 then Inl ErrRange
                  else Inr (if neg then - int un else int un))))"

fun fmt_nat :: "nat \<Rightarrow> bytes" where
  "fmt_nat n =
     (if n < 10 then [digit_byte n] else fmt_nat (n div 10) @ [digit_byte (n mod 10)])"

declare fmt_nat.simps [simp del]

definition FormatInt :: "int \<Rightarrow> bytes" where
  "FormatInt n =
     (if n < 0 then asc (CHR ''-'') # fmt_nat (nat (- n)) else fmt_nat (nat n))"

lemma unat_digit_byte: "d < 10 \<Longrightarrow> unat (digit_byte d) = 48 + d"
  unfolding digit_byte_def unat_of_nat by simp

lemma is_digit_digit_byte [simp]: "d < 10 \<Longrightarrow> is_digit (digit_byte d)"
  by (simp add: is_digit_def word_le_nat_alt unat_digit_byte)

lemma digit_val_digit_byte [simp]: "d < 10 \<Longrightarrow> digit_val (digit_byte d) = d"
  by (simp add: digit_val_def unat_digit_byte)

lemma fmt_nat_nonempty [simp]: "fmt_nat n \<noteq> []"
  by (subst fmt_nat.simps) simp

lemma fmt_nat_digits: "list_all is_digit (fmt_nat n)"
proof (induction n rule: fmt_nat.induct)
  case (1 n)
  then show ?case
    by (cases "n < 10") (auto simp: fmt_nat.simps [of n])
qed

text \<open>Appending a digit to a parsed number.\<close>

lemma parse_uint_loop_append:
  "parse_uint_loop k (xs @ ys) =
     (case parse_uint_loop k xs of Inl e \<Rightarrow> Inl e | Inr m \<Rightarrow> parse_uint_loop m ys)"
  by (induction k xs rule: parse_uint_loop.induct) auto

lemma parse_uint_loop_fmt_nat: "n < 2 ^ 64 \<Longrightarrow> parse_uint_loop 0 (fmt_nat n) = Inr n"
proof (induction n rule: fmt_nat.induct)
  case (1 n)
  show ?case
  proof (cases "n < 10")
    case True
    then show ?thesis by (simp add: fmt_nat.simps [of n])
  next
    case False
    have "n div 10 < 2 ^ 64" using "1.prems" by simp
    with False "1.IH" have "parse_uint_loop 0 (fmt_nat (n div 10)) = Inr (n div 10)"
      by simp
    with False "1.prems" show ?thesis
      by (simp add: fmt_nat.simps [of n] parse_uint_loop_append)
  qed
qed

lemma ParseUint_fmt_nat: "n < 2 ^ 64 \<Longrightarrow> ParseUint (fmt_nat n) = Inr n"
  by (simp add: ParseUint_def parse_uint_loop_fmt_nat)

lemma digit_no_sign:
  "is_digit c \<Longrightarrow> c \<noteq> asc (CHR ''-'') \<and> c \<noteq> asc (CHR ''+'') \<and> c \<noteq> asc (CHR '':'') \<and>
     c \<noteq> asc (CHR ''e'') \<and> c \<noteq> asc (CHR ''i'') \<and> c \<noteq> asc (CHR ''l'') \<and> c \<noteq> asc (CHR ''d'')"
  by (auto simp: is_digit_def ascii_simps word_le_nat_alt)

lemma fmt_nat_Cons: obtains c cs where "fmt_nat n = c # cs" and "is_digit c"
proof -
  obtain c cs where "fmt_nat n = c # cs"
    by (cases "fmt_nat n") auto
  moreover from this have "is_digit c"
    using fmt_nat_digits [of n] by simp
  ultimately show thesis by (rule that)
qed

lemma strip_sign_fmt_nat: "strip_sign (fmt_nat n) = (False, fmt_nat n)"
proof -
  obtain c cs where "fmt_nat n = c # cs" and "is_digit c"
    by (rule fmt_nat_Cons)
  then show ?thesis
    using digit_no_sign [of c] by (simp add: strip_sign_def)
qed

lemma strip_sign_minus: "strip_sign (asc (CHR ''-'') # ds) = (True, ds)"
  by (simp add: strip_sign_def)

text \<open>Printing and parsing an \<open>int64\<close> are inverse.\<close>

lemma ParseInt_FormatInt: "in_i64 n \<Longrightarrow> ParseInt (FormatInt n) = Inr n"
  by (auto simp: ParseInt_def FormatInt_def strip_sign_minus strip_sign_fmt_nat in_i64_def
      ParseUint_fmt_nat)

lemma FormatInt_nonempty [simp]: "FormatInt n \<noteq> []"
  by (simp add: FormatInt_def)

lemma FormatInt_chars: "c \<in> set (FormatInt n) \<Longrightarrow> is_digit c \<or> c = asc (CHR ''-'')"
  using fmt_nat_digits [of "nat n"] fmt_nat_digits [of "nat (- n)"]
  by (auto simp: FormatInt_def list_all_iff split: if_splits)

lemma FormatInt_no_delim: "asc (CHR ''e'') \<notin> set (FormatInt n)" "asc (CHR '':'') \<notin> set (FormatInt n)"
  using FormatInt_chars [of _ n] digit_no_sign by (fastforce simp: ascii_simps)+

text \<open>What the parser accepts is in range.\<close>

lemma ParseInt_in_i64: "ParseInt s = Inr n \<Longrightarrow> in_i64 n"
  by (auto simp: ParseInt_def in_i64_def split: if_splits sum.splits num_error.splits prod.splits)

section \<open>Reading up to a delimiter\<close>

text \<open>
  The loop \<open>for { b, err := r.ReadByte(); if err ...; if b == delim { break }; buf = append(buf, b) }\<close>:
  the bytes before the delimiter and the bytes after it, \<open>None\<close> where the input ends first.
\<close>

fun read_until :: "byte \<Rightarrow> bytes \<Rightarrow> (bytes \<times> bytes) option" where
  "read_until delim [] = None"
| "read_until delim (b # r) =
     (if b = delim then Some ([], r)
      else map_option (\<lambda>(buf, rest). (b # buf, rest)) (read_until delim r))"

lemma read_until_Some_iff:
  "read_until d bs = Some (pre, rest) \<longleftrightarrow> bs = pre @ d # rest \<and> d \<notin> set pre"
proof (induction bs arbitrary: pre)
  case Nil
  then show ?case by simp
next
  case (Cons b bs)
  then show ?case by (cases pre) auto
qed

lemma read_until_append [simp]: "d \<notin> set pre \<Longrightarrow> read_until d (pre @ d # rest) = Some (pre, rest)"
  by (simp add: read_until_Some_iff)

lemma read_until_None_iff: "read_until d bs = None \<longleftrightarrow> d \<notin> set bs"
  by (induction bs) auto

lemma read_until_shorter [consumes]:
  "read_until d bs = Some (pre, rest) \<Longrightarrow> length rest < length bs"
  by (auto simp: read_until_Some_iff)

text \<open>
  \<open>io.ReadFull\<close> into a buffer of \<open>n\<close> bytes: \<open>EOF\<close> where nothing is left, \<open>ErrUnexpectedEOF\<close>
  where the input ends inside the buffer; an empty buffer is filled at once.
\<close>

datatype io_error = EOF | UnexpectedEOF

definition read_full :: "nat \<Rightarrow> bytes \<Rightarrow> io_error + bytes \<times> bytes" where
  "read_full n r =
     (if n \<le> length r then Inr (take n r, drop n r)
      else if r = [] then Inl EOF else Inl UnexpectedEOF)"

lemma read_full_append [simp]: "length a = n \<Longrightarrow> read_full n (a @ r) = Inr (a, r)"
  by (simp add: read_full_def)

lemma read_full_Inr_iff:
  "read_full n r = Inr (a, rest) \<longleftrightarrow> r = a @ rest \<and> length a = n"
  by (auto simp: read_full_def)

lemma read_full_Inl_iff: "(\<exists>e. read_full n r = Inl e) \<longleftrightarrow> length r < n"
  by (auto simp: read_full_def)

section \<open>Big-endian integers\<close>

text \<open>
  \<open>PutUint16\<close>, \<open>PutUint32\<close> and \<open>PutUint64\<close> give the bytes they store; the readers panic on a
  slice that is too short, as the bounds check \<open>_ = b[3]\<close> of the library does.
\<close>

definition put_uint16 :: "16 word \<Rightarrow> bytes" where
  "put_uint16 v = [ucast (drop_bit 8 v), ucast v]"

definition put_uint32 :: "32 word \<Rightarrow> bytes" where
  "put_uint32 v = [ucast (drop_bit 24 v), ucast (drop_bit 16 v), ucast (drop_bit 8 v), ucast v]"

definition put_uint64 :: "64 word \<Rightarrow> bytes" where
  "put_uint64 v =
     [ucast (drop_bit 56 v), ucast (drop_bit 48 v), ucast (drop_bit 40 v), ucast (drop_bit 32 v),
      ucast (drop_bit 24 v), ucast (drop_bit 16 v), ucast (drop_bit 8 v), ucast v]"

definition uint16_of :: "byte \<Rightarrow> byte \<Rightarrow> 16 word" where
  "uint16_of b0 b1 = ucast b1 OR push_bit 8 (ucast b0)"

definition uint32_of :: "byte \<Rightarrow> byte \<Rightarrow> byte \<Rightarrow> byte \<Rightarrow> 32 word" where
  "uint32_of b0 b1 b2 b3 =
     ucast b3 OR push_bit 8 (ucast b2) OR push_bit 16 (ucast b1) OR push_bit 24 (ucast b0)"

definition get_uint16 :: "bytes \<Rightarrow> ('e, 16 word) go" where
  "get_uint16 bs = (case bs of b0 # b1 # _ \<Rightarrow> Inr (uint16_of b0 b1) | _ \<Rightarrow> Inl (Panic IndexOutOfRange))"

definition get_uint32 :: "bytes \<Rightarrow> ('e, 32 word) go" where
  "get_uint32 bs =
     (case bs of b0 # b1 # b2 # b3 # _ \<Rightarrow> Inr (uint32_of b0 b1 b2 b3)
      | _ \<Rightarrow> Inl (Panic IndexOutOfRange))"

definition get_uint64 :: "bytes \<Rightarrow> ('e, 64 word) go" where
  "get_uint64 bs =
     (case bs of
        b0 # b1 # b2 # b3 # b4 # b5 # b6 # b7 # _ \<Rightarrow>
          Inr (ucast (uint32_of b4 b5 b6 b7) OR push_bit 32 (ucast (uint32_of b0 b1 b2 b3)))
      | _ \<Rightarrow> Inl (Panic IndexOutOfRange))"

lemma length_put [simp]:
  "length (put_uint16 v) = 2" "length (put_uint32 w) = 4" "length (put_uint64 x) = 8"
  by (simp_all add: put_uint16_def put_uint32_def put_uint64_def)

text \<open>The bytes of a word are eight bits each: the case split the proofs below share.\<close>

lemma byte_cases:
  fixes n :: nat
  assumes "n < 32"
  obtains "n < 8" | m where "n = 8 + m" "m < 8" | m where "n = 16 + m" "m < 8"
    | m where "n = 24 + m" "m < 8"
proof -
  have "n < 8 \<or> (\<exists>m < 8. n = 8 + m) \<or> (\<exists>m < 8. n = 16 + m) \<or> (\<exists>m < 8. n = 24 + m)"
    using assms by presburger
  then show thesis using that by blast
qed

lemma uint16_of_put: "uint16_of (ucast (drop_bit 8 v)) (ucast v) = v"
  unfolding uint16_of_def
  by (rule bit_word_eqI) (auto simp: bit_simps)

lemma uint32_of_put:
  "uint32_of (ucast (drop_bit 24 v)) (ucast (drop_bit 16 v)) (ucast (drop_bit 8 v)) (ucast v) = v"
proof (rule bit_word_eqI)
  fix n assume "n < LENGTH(32)"
  then have "n < 32" by simp
  then show "bit (uint32_of (ucast (drop_bit 24 v)) (ucast (drop_bit 16 v))
      (ucast (drop_bit 8 v)) (ucast v)) n = bit v n"
    by (rule byte_cases) (auto simp: uint32_of_def bit_simps)
qed

lemma put_uint32_of: "put_uint32 (uint32_of b0 b1 b2 b3) = [b0, b1, b2, b3]"
proof -
  have "ucast (drop_bit 24 (uint32_of b0 b1 b2 b3)) = b0"
    and "ucast (drop_bit 16 (uint32_of b0 b1 b2 b3)) = b1"
    and "ucast (drop_bit 8 (uint32_of b0 b1 b2 b3)) = b2"
    and "ucast (uint32_of b0 b1 b2 b3) = b3"
    by (rule bit_word_eqI; auto simp: uint32_of_def bit_simps dest: bit_imp_le_length)+
  then show ?thesis by (simp add: put_uint32_def)
qed

lemma put_uint64_split:
  "put_uint64 v = put_uint32 (ucast (drop_bit 32 v)) @ put_uint32 (ucast v)"
  unfolding put_uint64_def put_uint32_def
  by (simp, intro conjI; rule bit_word_eqI; auto simp: bit_simps)

lemma uint64_halves: "ucast (ucast v :: 32 word) OR push_bit 32 (ucast (ucast (drop_bit 32 v) :: 32 word)) = (v :: 64 word)"
  by (rule bit_word_eqI) (auto simp: bit_simps)

lemma get_put_uint16 [simp]: "get_uint16 (put_uint16 v @ rest) = Inr v"
  by (simp add: get_uint16_def put_uint16_def uint16_of_put)

lemma get_put_uint32 [simp]: "get_uint32 (put_uint32 v @ rest) = Inr v"
  by (simp add: get_uint32_def put_uint32_def uint32_of_put)

lemma get_put_uint64 [simp]: "get_uint64 (put_uint64 v @ rest) = Inr v"
  unfolding put_uint64_split get_uint64_def put_uint32_def
  by (simp add: uint32_of_put uint64_halves)

lemma get_put_uint_exact [simp]:
  "get_uint16 (put_uint16 v) = Inr v" "get_uint32 (put_uint32 w) = Inr w"
  "get_uint64 (put_uint64 x) = Inr x"
  using get_put_uint16 [of v "[]"] get_put_uint32 [of w "[]"] get_put_uint64 [of x "[]"]
  by simp_all

text \<open>A reader panics exactly on the slices that are too short.\<close>

lemma get_uint32_panics: "get_uint32 bs = Inl (Panic IndexOutOfRange) \<longleftrightarrow> length bs < 4"
  by (auto simp: get_uint32_def split: list.splits)

lemma get_uint32_Inr: "get_uint32 bs = Inr v \<Longrightarrow> take 4 bs = put_uint32 v \<and> 4 \<le> length bs"
  by (auto simp: get_uint32_def put_uint32_of split: list.splits)

section \<open>Buffers\<close>

text \<open>
  \<open>copy(buf[off:], data)\<close>: overwrite from the offset on, never past the end of the buffer.
\<close>

definition copy_at :: "nat \<Rightarrow> bytes \<Rightarrow> bytes \<Rightarrow> bytes" where
  "copy_at off data buf =
     take off buf @ take (length buf - off) data @ drop (off + length data) buf"

lemma length_copy_at [simp]: "off \<le> length buf \<Longrightarrow> length (copy_at off data buf) = length buf"
  by (auto simp: copy_at_def min_def)

lemma copy_at_middle:
  "length a = off \<Longrightarrow> length b = length data \<Longrightarrow> copy_at off data (a @ b @ c) = a @ data @ c"
  by (simp add: copy_at_def)

lemma nth_copy_at:
  "off \<le> length buf \<Longrightarrow> i < length buf \<Longrightarrow>
     copy_at off data buf ! i =
       (if off \<le> i \<and> i < off + length data then data ! (i - off) else buf ! i)"
  by (auto simp: copy_at_def nth_append min_def)

text \<open>\<open>copy\<close> into a fresh array of \<open>n\<close> zero bytes.\<close>

definition to_array :: "nat \<Rightarrow> bytes \<Rightarrow> bytes" where
  "to_array n data = copy_at 0 data (replicate n 0)"

lemma length_to_array [simp]: "length (to_array n data) = n"
  by (simp add: to_array_def)

lemma to_array_id [simp]: "length data = n \<Longrightarrow> to_array n data = data"
  by (simp add: to_array_def copy_at_def)

section \<open>Random bytes\<close>

text \<open>\<open>rand.Read\<close> fills a buffer from a source, here the sequence of the bytes still to come.\<close>

type_synonym random = "nat \<Rightarrow> byte"

definition rand_Read :: "nat \<Rightarrow> random \<Rightarrow> bytes \<times> random" where
  "rand_Read n src = (map src [0..<n], \<lambda>k. src (n + k))"

lemma length_rand_Read [simp]: "length (fst (rand_Read n src)) = n"
  by (simp add: rand_Read_def)

end
