(* ===== verification/Bencode.thy ===== *)
theory Bencode
  imports GoLib
begin

text \<open>
  \<open>internal/bencode/bencode.go\<close>: the encoder over the Go values \<open>reflect\<close> shows it, and the
  decoder of \<open>Decode\<close> and \<open>Unmarshal\<close> over a \<open>bytes.Reader\<close>. The definitions only, with the
  facts their termination needs; \<open>Bencode_Correct\<close> holds the theorems.
\<close>

section \<open>Go values as reflect sees them\<close>

datatype int_kind = KInt | KInt8 | KInt16 | KInt32 | KInt64

datatype go_kind =
    Invalid | Bool | Uint | Uint8 | Uint16 | Uint32 | Uint64 | Float32 | Float64
  | Complex128 | Chan | Func | IntK int_kind | String | Slice | Array | Map | Struct
  | Ptr | Interface

text \<open>
  \<open>GNil\<close> is the zero \<open>reflect.Value\<close> (the \<open>Elem\<close> of a nil interface), \<open>GIface v\<close> a location of
  interface type that holds \<open>v\<close>. A map has string keys (every map the program builds has) and
  is the list of its entries, its keys distinct. A struct lists its fields by name.
\<close>

datatype goval =
    GNil
  | GIface goval
  | GInt int_kind int
  | GString bytes
  | GSlice "goval list"
  | GArray "goval list"
  | GMap "(bytes \<times> goval) list"
  | GStruct "(bytes \<times> goval) list"
  | GPtr "goval option"
  | GOther go_kind

fun kind_of :: "goval \<Rightarrow> go_kind" where
  "kind_of GNil = Invalid"
| "kind_of (GIface v) = Interface"
| "kind_of (GInt k n) = IntK k"
| "kind_of (GString s) = String"
| "kind_of (GSlice vs) = Slice"
| "kind_of (GArray vs) = Array"
| "kind_of (GMap kvs) = Map"
| "kind_of (GStruct fs) = Struct"
| "kind_of (GPtr p) = Ptr"
| "kind_of (GOther k) = k"

section \<open>Encoding\<close>

datatype encode_error = UnsupportedType go_kind

text \<open>
  \<open>sort.Slice\<close> orders the keys of a map by their strings, byte by byte; the keys of a map are
  distinct, so the order is unique.
\<close>

definition sort_entries :: "(bytes \<times> 'v) list \<Rightarrow> (bytes \<times> 'v) list" where
  "sort_entries kvs = sort_key fst kvs"

lemma mset_sort_entries [simp]: "mset (sort_entries kvs) = mset kvs"
  by (simp add: sort_entries_def)

lemma set_sort_entries [simp]: "set (sort_entries kvs) = set kvs"
  by (simp add: sort_entries_def)

lemma size_sort_entries [simp]: "size_list f (sort_entries kvs) = size_list f kvs"
proof -
  have "mset (map f (sort_entries kvs)) = mset (map f kvs)"
    by simp
  then have "sum_list (map f (sort_entries kvs)) = sum_list (map f kvs)"
    by (metis sum_mset_sum_list)
  then show ?thesis
    by (simp add: size_list_conv_sum_list sort_entries_def)
qed

text \<open>
  \<open>encodeValue\<close> writes to a \<open>bytes.Buffer\<close>, whose writes never fail: the model returns what is
  appended. What was written before an error is dropped by \<open>Encode\<close>.
\<close>

function encodeValue :: "goval \<Rightarrow> encode_error + bytes"
  and encodeElems :: "goval list \<Rightarrow> encode_error + bytes"
  and encodeEntries :: "(bytes \<times> goval) list \<Rightarrow> encode_error + bytes"
where
  "encodeValue (GIface v) = encodeValue v"
| "encodeValue (GInt k n) = Inr (str ''i'' @ FormatInt n @ str ''e'')"
| "encodeValue (GString s) = Inr (FormatInt (int (length s)) @ str '':'' @ s)"
| "encodeValue (GSlice vs) =
     (case encodeElems vs of Inl e \<Rightarrow> Inl e | Inr body \<Rightarrow> Inr (str ''l'' @ body @ str ''e''))"
| "encodeValue (GArray vs) =
     (case encodeElems vs of Inl e \<Rightarrow> Inl e | Inr body \<Rightarrow> Inr (str ''l'' @ body @ str ''e''))"
| "encodeValue (GMap kvs) =
     (case encodeEntries (sort_entries kvs) of
        Inl e \<Rightarrow> Inl e | Inr body \<Rightarrow> Inr (str ''d'' @ body @ str ''e''))"
| "encodeValue GNil = Inl (UnsupportedType Invalid)"
| "encodeValue (GStruct fs) = Inl (UnsupportedType Struct)"
| "encodeValue (GPtr p) = Inl (UnsupportedType Ptr)"
| "encodeValue (GOther k) = Inl (UnsupportedType k)"
| "encodeElems [] = Inr []"
| "encodeElems (v # vs) =
     (case encodeValue v of
        Inl e \<Rightarrow> Inl e
      | Inr b \<Rightarrow> (case encodeElems vs of Inl e \<Rightarrow> Inl e | Inr body \<Rightarrow> Inr (b @ body)))"
| "encodeEntries [] = Inr []"
| "encodeEntries ((k, v) # kvs) =
     (case encodeValue (GString k) of
        Inl e \<Rightarrow> Inl e
      | Inr kb \<Rightarrow>
          (case encodeValue v of
             Inl e \<Rightarrow> Inl e
           | Inr vb \<Rightarrow>
               (case encodeEntries kvs of
                  Inl e \<Rightarrow> Inl e | Inr body \<Rightarrow> Inr (kb @ vb @ body))))"
  by pat_completeness auto
termination
  by (relation "measure (\<lambda>x. case x of
        Inl v \<Rightarrow> 2 * size v
      | Inr (Inl vs) \<Rightarrow> 2 * size_list size vs + 1
      | Inr (Inr kvs) \<Rightarrow> 2 * size_list (size_prod (\<lambda>k. 0) size) kvs + 1)")
    auto

text \<open>\<open>Encode\<close>: a nil argument is the single byte \<open>e\<close>.\<close>

definition Encode :: "goval \<Rightarrow> encode_error + bytes" where
  "Encode data = (if data = GNil then Inr (str ''e'') else encodeValue data)"

section \<open>Decoding\<close>

text \<open>
  What the decoder puts into an \<open>interface{}\<close>: an \<open>int64\<close>, a string, a slice or a map. A map
  is its list of entries in the order of their first insertion; \<open>dict[k] = v\<close> is
  \<^const>\<open>AList.update\<close>.
\<close>

datatype bval = BInt int | BString bytes | BList "bval list" | BDict "(bytes \<times> bval) list"

datatype decode_error =
    UnexpectedEndOfData
  | ReadErr io_error
  | NumErr num_error
  | InvalidStringLength bytes
  | NegativeStringLength int
  | StringLengthTooLarge int
  | InvalidKeyType
  | DataAfterValue

definition MaxInt32 :: int where
  "MaxInt32 = 2 ^ 31 - 1"

definition decodeInt :: "bytes \<Rightarrow> decode_error + int \<times> bytes" where
  "decodeInt r =
     (case read_until (asc (CHR ''e'')) r of
        None \<Rightarrow> Inl (ReadErr EOF)
      | Some (num, rest) \<Rightarrow>
          (case ParseInt num of Inl e \<Rightarrow> Inl (NumErr e) | Inr n \<Rightarrow> Inr (n, rest)))"

definition decodeString :: "bytes \<Rightarrow> decode_error + bytes \<times> bytes" where
  "decodeString r =
     (case read_until (asc (CHR '':'')) r of
        None \<Rightarrow> Inl (ReadErr EOF)
      | Some (len, rest) \<Rightarrow>
          (case ParseInt len of
             Inl e \<Rightarrow> Inl (InvalidStringLength len)
           | Inr l \<Rightarrow>
               if l < 0 then Inl (NegativeStringLength l)
               else if l > MaxInt32 then Inl (StringLengthTooLarge l)
               else
                 (case read_full (nat l) rest of
                    Inl e \<Rightarrow> Inl (ReadErr e)
                  | Inr (s, rest') \<Rightarrow> Inr (s, rest'))))"

lemma decodeInt_shorter [consumes]:
  "decodeInt r = Inr (n, rest) \<Longrightarrow> length rest < length r"
  by (auto simp: decodeInt_def dest: read_until_shorter split: option.splits sum.splits)

lemma decodeString_shorter [consumes]:
  "decodeString r = Inr (s, rest) \<Longrightarrow> length rest < length r"
  by (auto simp: decodeString_def read_full_Inr_iff dest!: read_until_shorter
      split: option.splits sum.splits if_splits)

text \<open>
  The three mutually recursive functions of the decoder. \<open>decodeList\<close> and \<open>decodeDict\<close> carry the
  slice and the map built so far, as the loops do.
\<close>

function (domintros) decodeValue :: "bytes \<Rightarrow> decode_error + bval \<times> bytes"
  and decodeList :: "bval list \<Rightarrow> bytes \<Rightarrow> decode_error + bval list \<times> bytes"
  and decodeDict ::
    "(bytes \<times> bval) list \<Rightarrow> bytes \<Rightarrow> decode_error + (bytes \<times> bval) list \<times> bytes"
where
  "decodeValue r =
     (case r of
        [] \<Rightarrow> Inl UnexpectedEndOfData
      | b # r' \<Rightarrow>
          if b = asc (CHR ''i'') then
            (case decodeInt r' of Inl e \<Rightarrow> Inl e | Inr (n, rest) \<Rightarrow> Inr (BInt n, rest))
          else if b = asc (CHR ''l'') then
            (case decodeList [] r' of Inl e \<Rightarrow> Inl e | Inr (vs, rest) \<Rightarrow> Inr (BList vs, rest))
          else if b = asc (CHR ''d'') then
            (case decodeDict [] r' of Inl e \<Rightarrow> Inl e | Inr (d, rest) \<Rightarrow> Inr (BDict d, rest))
          else
            (case decodeString (b # r') of
               Inl e \<Rightarrow> Inl e | Inr (s, rest) \<Rightarrow> Inr (BString s, rest)))"
| "decodeList vs r =
     (case r of
        [] \<Rightarrow> Inl (ReadErr EOF)
      | b # r' \<Rightarrow>
          if b = asc (CHR ''e'') then Inr (vs, r')
          else
            (case decodeValue (b # r') of
               Inl e \<Rightarrow> Inl e
             | Inr (item, rest) \<Rightarrow> decodeList (vs @ [item]) rest))"
| "decodeDict dict r =
     (case r of
        [] \<Rightarrow> Inl (ReadErr EOF)
      | b # r' \<Rightarrow>
          if b = asc (CHR ''e'') then Inr (dict, r')
          else
            (case decodeValue (b # r') of
               Inl e \<Rightarrow> Inl e
             | Inr (key, rest) \<Rightarrow>
                 (case key of
                    BString keyStr \<Rightarrow>
                      (case decodeValue rest of
                         Inl e \<Rightarrow> Inl e
                       | Inr (v, rest') \<Rightarrow> decodeDict (AList.update keyStr v dict) rest')
                  | _ \<Rightarrow> Inl InvalidKeyType)))"
  by pat_completeness auto

text \<open>Every call that returns a value has consumed input, so the recursion ends.\<close>

lemma decode_shorter_partial:
  "decodeValue_decodeList_decodeDict_dom (Inl r) \<Longrightarrow>
     \<forall>v rest. decodeValue r = Inr (v, rest) \<longrightarrow> length rest < length r"
  "decodeValue_decodeList_decodeDict_dom (Inr (Inl (vs, r))) \<Longrightarrow>
     \<forall>v rest. decodeList vs r = Inr (v, rest) \<longrightarrow> length rest < length r"
  "decodeValue_decodeList_decodeDict_dom (Inr (Inr (d, r))) \<Longrightarrow>
     \<forall>v rest. decodeDict d r = Inr (v, rest) \<longrightarrow> length rest < length r"
proof (induction r and vs r and d r rule: decodeValue_decodeList_decodeDict.pinduct)
  case (1 r)
  then show ?case
    by (fastforce simp: decodeValue.psimps dest: consumes split: list.splits sum.splits if_splits)
next
  case (2 vs r)
  then show ?case
    by (fastforce simp: decodeList.psimps split: list.splits sum.splits if_splits)
next
  case (3 dict r)
  then show ?case
    by (fastforce simp: decodeDict.psimps split: list.splits sum.splits if_splits bval.splits)
qed

termination decodeValue
proof (relation "measure (\<lambda>x. case x of
      Inl r \<Rightarrow> 2 * length r
    | Inr (Inl (vs, r)) \<Rightarrow> 2 * length r + 1
    | Inr (Inr (d, r)) \<Rightarrow> 2 * length r + 1)", goal_cases)
qed (simp_all, (fastforce dest: decode_shorter_partial(1))+)

text \<open>\<open>Decode\<close> wants the whole input consumed; \<open>Unmarshal\<close> reads one value and ignores the rest.\<close>

definition Decode :: "bytes \<Rightarrow> decode_error + bval" where
  "Decode data =
     (case decodeValue data of
        Inl e \<Rightarrow> Inl e
      | Inr (result, r) \<Rightarrow> if length r > 0 then Inl DataAfterValue else Inr result)"

end
