(* ===== verification/Bencode_Correct.thy ===== *)
theory Bencode_Correct
  imports Bencode
begin

text \<open>
  The correctness of \<open>internal/bencode/bencode.go\<close>: the decoder implements a grammar, what it
  returns is well formed, the encoder's output decodes to the value it came from with the maps
  in key order, and it does not depend on the order in which Go enumerates a map.
\<close>

declare decodeValue.simps [simp del] decodeList.simps [simp del] decodeDict.simps [simp del]

section \<open>One step of each decoding function\<close>

lemma decodeValue_int: "decodeValue (asc (CHR ''i'') # r) =
    (case decodeInt r of Inl e \<Rightarrow> Inl e | Inr (n, rest) \<Rightarrow> Inr (BInt n, rest))"
  by (simp add: decodeValue.simps)

lemma decodeValue_list: "decodeValue (asc (CHR ''l'') # r) =
    (case decodeList [] r of Inl e \<Rightarrow> Inl e | Inr (vs, rest) \<Rightarrow> Inr (BList vs, rest))"
  by (simp add: decodeValue.simps ascii_simps)

lemma decodeValue_dict: "decodeValue (asc (CHR ''d'') # r) =
    (case decodeDict [] r of Inl e \<Rightarrow> Inl e | Inr (d, rest) \<Rightarrow> Inr (BDict d, rest))"
  by (simp add: decodeValue.simps ascii_simps)

lemma decodeValue_string:
  "c \<notin> {asc (CHR ''i''), asc (CHR ''l''), asc (CHR ''d'')} \<Longrightarrow> decodeValue (c # r) =
    (case decodeString (c # r) of Inl e \<Rightarrow> Inl e | Inr (s, rest) \<Rightarrow> Inr (BString s, rest))"
  by (subst decodeValue.simps) simp

lemma decodeValue_Nil: "decodeValue [] = Inl UnexpectedEndOfData"
  by (simp add: decodeValue.simps)

lemmas decodeValue_cases =
  decodeValue_Nil decodeValue_int decodeValue_list decodeValue_dict decodeValue_string

lemma decodeList_end: "decodeList vs (asc (CHR ''e'') # r) = Inr (vs, r)"
  by (simp add: decodeList.simps)

lemma decodeList_item:
  "c \<noteq> asc (CHR ''e'') \<Longrightarrow> decodeValue (c # r) = Inr (v, rest) \<Longrightarrow>
     decodeList vs (c # r) = decodeList (vs @ [v]) rest"
  by (simp add: decodeList.simps [of vs "c # r"])

lemma decodeDict_end: "decodeDict d (asc (CHR ''e'') # r) = Inr (d, r)"
  by (simp add: decodeDict.simps)

lemma decodeDict_entry:
  "c \<noteq> asc (CHR ''e'') \<Longrightarrow> decodeValue (c # r) = Inr (BString k, rest) \<Longrightarrow>
     decodeValue rest = Inr (v, rest') \<Longrightarrow>
     decodeDict d (c # r) = decodeDict (AList.update k v d) rest'"
  by (simp add: decodeDict.simps [of d "c # r"])

text \<open>An entry of a dictionary is read, or the whole dictionary fails.\<close>

lemma decodeDict_step_cases:
  assumes "c \<noteq> asc (CHR ''e'')"
  obtains (entry) k rest v rest' where "decodeValue (c # r) = Inr (BString k, rest)"
      and "decodeValue rest = Inr (v, rest')"
    | (fails) e where "decodeDict d (c # r) = Inl e"
proof (cases "decodeValue (c # r)")
  case (Inl e)
  with assms show thesis by (auto simp: decodeDict.simps [of d "c # r"] intro: fails)
next
  case (Inr p)
  then obtain key rest where key: "decodeValue (c # r) = Inr (key, rest)"
    by (cases p) simp
  show thesis
  proof (cases key)
    case (BString k)
    with key assms show thesis
      by (cases "decodeValue rest") (auto simp: decodeDict.simps [of d "c # r"] intro: entry fails)
  qed (use key assms in \<open>auto simp: decodeDict.simps [of d "c # r"] intro: fails\<close>)
qed

text \<open>Every call that returns a value has consumed input.\<close>

lemma decode_shorter:
  "\<forall>v rest. decodeValue r = Inr (v, rest) \<longrightarrow> length rest < length r"
  "\<forall>us rest. decodeList vs r' = Inr (us, rest) \<longrightarrow> length rest < length r'"
  "\<forall>d' rest. decodeDict d r'' = Inr (d', rest) \<longrightarrow> length rest < length r''"
proof (induction r and vs r' and d r'' rule: decodeValue_decodeList_decodeDict.induct)
  case (1 r)
  then show ?case
    by (fastforce simp: decodeValue.simps [of r] dest: consumes split: list.splits sum.splits if_splits)
next
  case (2 vs r)
  then show ?case
    by (fastforce simp: decodeList.simps [of vs r] split: list.splits sum.splits if_splits)
next
  case (3 dict r)
  then show ?case
    by (fastforce simp: decodeDict.simps [of dict r] split: list.splits sum.splits if_splits bval.splits)
qed

lemmas decodeValue_shorter [consumes] = decode_shorter(1) [rule_format]
lemmas decodeList_shorter [consumes] = decode_shorter(2) [rule_format]
lemmas decodeDict_shorter [consumes] = decode_shorter(3) [rule_format]

section \<open>The grammar\<close>

text \<open>
  The language the decoder is meant to read: numbers are what \<open>ParseInt\<close> accepts, a string
  carries its length, a later entry of a dictionary replaces an earlier one with its key.
\<close>

definition insert_entries :: "(bytes \<times> bval) list \<Rightarrow> (bytes \<times> bval) list \<Rightarrow> (bytes \<times> bval) list" where
  "insert_entries kvs d = fold (\<lambda>(k, v) d. AList.update k v d) kvs d"

lemma insert_entries_simps [simp]:
  "insert_entries [] d = d"
  "insert_entries ((k, v) # kvs) d = insert_entries kvs (AList.update k v d)"
  by (simp_all add: insert_entries_def)

inductive ben :: "bytes \<Rightarrow> bval \<Rightarrow> bool" where
  ben_int: "ParseInt num = Inr n \<Longrightarrow> asc (CHR ''e'') \<notin> set num \<Longrightarrow>
    ben (asc (CHR ''i'') # num @ [asc (CHR ''e'')]) (BInt n)"
| ben_string: "ParseInt len = Inr (int (length s)) \<Longrightarrow> int (length s) \<le> MaxInt32 \<Longrightarrow>
    asc (CHR '':'') \<notin> set len \<Longrightarrow> ben (len @ asc (CHR '':'') # s) (BString s)"
| ben_list: "list_all2 ben ws vs \<Longrightarrow>
    ben (asc (CHR ''l'') # concat ws @ [asc (CHR ''e'')]) (BList vs)"
| ben_dict: "list_all2 (\<lambda>w kv. \<exists>wk wv. w = wk @ wv \<and> ben wk (BString (fst kv)) \<and> ben wv (snd kv)) ws kvs \<Longrightarrow>
    ben (asc (CHR ''d'') # concat ws @ [asc (CHR ''e'')]) (BDict (insert_entries kvs []))"

text \<open>A number starts with a digit or a sign, so no value starts with \<open>e\<close>.\<close>

lemma ParseInt_first:
  assumes "ParseInt s = Inr n"
  obtains c cs where "s = c # cs" and "is_digit c \<or> c = asc (CHR ''-'') \<or> c = asc (CHR ''+'')"
proof (cases s)
  case Nil
  with assms show thesis by (simp add: ParseInt_def)
next
  case (Cons c cs)
  have "is_digit c \<or> c = asc (CHR ''-'') \<or> c = asc (CHR ''+'')"
    using assms Cons
    by (auto simp: ParseInt_def strip_sign_def ParseUint_def split: if_splits sum.splits num_error.splits)
  with Cons show thesis by (rule that)
qed

lemma number_start_neq:
  "is_digit c \<or> c = asc (CHR ''-'') \<or> c = asc (CHR ''+'') \<Longrightarrow>
     c \<notin> {asc (CHR ''i''), asc (CHR ''l''), asc (CHR ''d'')} \<and> c \<noteq> asc (CHR ''e'')"
  using digit_no_sign [of c] by (auto simp: ascii_simps)

lemma ben_first:
  assumes "ben w v"
  obtains c cs where "w = c # cs" and "c \<noteq> asc (CHR ''e'')"
  using assms
proof cases
  case (ben_string len s)
  then obtain c cs where "len = c # cs" "c \<noteq> asc (CHR ''e'')"
    using ParseInt_first number_start_neq by metis
  with ben_string that show ?thesis by simp
qed (auto simp: ascii_simps intro: that)

subsection \<open>The decoder accepts every sentence of the grammar\<close>

lemma decodeInt_complete:
  "ParseInt num = Inr n \<Longrightarrow> asc (CHR ''e'') \<notin> set num \<Longrightarrow>
     decodeInt (num @ asc (CHR ''e'') # rest) = Inr (n, rest)"
  by (simp add: decodeInt_def)

lemma decodeString_complete:
  "ParseInt len = Inr (int (length s)) \<Longrightarrow> int (length s) \<le> MaxInt32 \<Longrightarrow>
     asc (CHR '':'') \<notin> set len \<Longrightarrow> decodeString (len @ asc (CHR '':'') # s @ rest) = Inr (s, rest)"
  by (simp add: decodeString_def)

lemma decodeValue_string_complete:
  assumes "ParseInt len = Inr (int (length s))" and "int (length s) \<le> MaxInt32"
    and "asc (CHR '':'') \<notin> set len"
  shows "decodeValue (len @ asc (CHR '':'') # s @ rest) = Inr (BString s, rest)"
proof -
  from assms(1) obtain c cs where "len = c # cs"
      and "is_digit c \<or> c = asc (CHR ''-'') \<or> c = asc (CHR ''+'')"
    by (rule ParseInt_first)
  with decodeString_complete [OF assms, of rest] number_start_neq [of c] show ?thesis
    by (simp add: decodeValue_string)
qed

lemma decodeList_complete:
  assumes "list_all2 (\<lambda>w v. ben w v \<and> (\<forall>rest. decodeValue (w @ rest) = Inr (v, rest))) ws vs"
  shows "decodeList us (concat ws @ asc (CHR ''e'') # rest) = Inr (us @ vs, rest)"
  using assms
proof (induction ws vs arbitrary: us rule: list_all2_induct)
  case Nil
  then show ?case by (simp add: decodeList_end)
next
  case (Cons w ws v vs)
  then obtain c cs where w: "w = c # cs" "c \<noteq> asc (CHR ''e'')"
    using ben_first by metis
  with Cons decodeList_item [of c "cs @ concat ws @ asc (CHR ''e'') # rest" v
      "concat ws @ asc (CHR ''e'') # rest" us]
  show ?case by simp
qed

lemma decodeDict_complete:
  assumes "list_all2 (\<lambda>w kv. \<exists>wk wv. w = wk @ wv
      \<and> (ben wk (BString (fst kv)) \<and> (\<forall>rest. decodeValue (wk @ rest) = Inr (BString (fst kv), rest)))
      \<and> (ben wv (snd kv) \<and> (\<forall>rest. decodeValue (wv @ rest) = Inr (snd kv, rest)))) ws kvs"
  shows "decodeDict d (concat ws @ asc (CHR ''e'') # rest) = Inr (insert_entries kvs d, rest)"
  using assms
proof (induction ws kvs arbitrary: d rule: list_all2_induct)
  case Nil
  then show ?case by (simp add: decodeDict_end)
next
  case (Cons w ws kv kvs)
  then obtain wk wv where w: "w = wk @ wv" and k: "ben wk (BString (fst kv))"
      "\<And>rest. decodeValue (wk @ rest) = Inr (BString (fst kv), rest)"
      "\<And>rest. decodeValue (wv @ rest) = Inr (snd kv, rest)"
    by blast
  from k(1) obtain c cs where "wk = c # cs" "c \<noteq> asc (CHR ''e'')"
    by (rule ben_first)
  with Cons.IH k w decodeDict_entry [of c "cs @ wv @ concat ws @ asc (CHR ''e'') # rest" "fst kv"
      "wv @ concat ws @ asc (CHR ''e'') # rest" "snd kv" "concat ws @ asc (CHR ''e'') # rest" d]
  show ?case by (cases kv) simp
qed

lemma ben_complete: "ben w v \<Longrightarrow> decodeValue (w @ rest) = Inr (v, rest)"
proof (induction w v arbitrary: rest rule: ben.induct)
  case (ben_int num n)
  then show ?case by (simp add: decodeValue_int decodeInt_complete)
next
  case (ben_string len s)
  then show ?case by (simp add: decodeValue_string_complete)
next
  case (ben_list ws vs)
  then show ?case by (simp add: decodeValue_list decodeList_complete)
next
  case (ben_dict ws kvs)
  then show ?case by (simp add: decodeValue_dict decodeDict_complete)
qed

subsection \<open>The decoder accepts nothing else\<close>

lemma decodeInt_sound:
  assumes "decodeInt r = Inr (n, rest)"
  shows "\<exists>num. r = num @ asc (CHR ''e'') # rest \<and> ParseInt num = Inr n \<and> asc (CHR ''e'') \<notin> set num"
  using assms
  by (auto simp: decodeInt_def read_until_Some_iff split: option.splits sum.splits)

lemma decodeString_sound:
  assumes "decodeString r = Inr (s, rest)"
  shows "\<exists>len. r = len @ asc (CHR '':'') # s @ rest \<and> ben (len @ asc (CHR '':'') # s) (BString s)"
proof -
  from assms obtain len l r' where r: "r = len @ asc (CHR '':'') # r'"
      and no_delim: "asc (CHR '':'') \<notin> set len" and l: "ParseInt len = Inr l"
      and bounds: "0 \<le> l" "l \<le> MaxInt32" and full: "read_full (nat l) r' = Inr (s, rest)"
    by (auto simp: decodeString_def read_until_Some_iff split: option.splits sum.splits if_splits)
  from full bounds have "r' = s @ rest" and "l = int (length s)"
    by (auto simp: read_full_Inr_iff)
  with r l no_delim bounds show ?thesis
    by (auto intro: ben_string)
qed

definition list_sound :: "bval list \<Rightarrow> bytes \<Rightarrow> bool" where
  "list_sound vs r \<longleftrightarrow> (\<forall>us rest. decodeList vs r = Inr (us, rest) \<longrightarrow>
     (\<exists>ws xs. r = concat ws @ asc (CHR ''e'') # rest \<and> us = vs @ xs \<and> list_all2 ben ws xs))"

definition dict_sound :: "(bytes \<times> bval) list \<Rightarrow> bytes \<Rightarrow> bool" where
  "dict_sound d r \<longleftrightarrow> (\<forall>d' rest. decodeDict d r = Inr (d', rest) \<longrightarrow>
     (\<exists>ws kvs. r = concat ws @ asc (CHR ''e'') # rest \<and> d' = insert_entries kvs d
        \<and> list_all2 (\<lambda>w kv. \<exists>wk wv. w = wk @ wv \<and> ben wk (BString (fst kv)) \<and> ben wv (snd kv)) ws kvs))"

lemma list_sound_step:
  assumes "decodeValue (c # r) = Inr (v, rest)" and "\<exists>w. c # r = w @ rest \<and> ben w v"
    and "c \<noteq> asc (CHR ''e'')" and "list_sound (vs @ [v]) rest"
  shows "list_sound vs (c # r)"
  unfolding list_sound_def
proof (intro allI impI)
  fix us rest' assume "decodeList vs (c # r) = Inr (us, rest')"
  with assms obtain ws xs where "rest = concat ws @ asc (CHR ''e'') # rest'"
      and "us = vs @ v # xs" and "list_all2 ben ws xs"
    by (auto simp: decodeList_item list_sound_def)
  moreover from assms(2) obtain w where "c # r = w @ rest" and "ben w v" by blast
  ultimately show "\<exists>ws xs. c # r = concat ws @ asc (CHR ''e'') # rest' \<and> us = vs @ xs \<and> list_all2 ben ws xs"
    by (intro exI [of _ "w # ws"] exI [of _ "v # xs"]) simp
qed

lemma dict_sound_end: "dict_sound d (asc (CHR ''e'') # r)"
  unfolding dict_sound_def decodeDict_end
  by (auto intro!: exI [of _ "[] :: bytes list"] exI [of _ "[] :: (bytes \<times> bval) list"])

lemma dict_sound_step:
  assumes "decodeValue (c # r) = Inr (BString k, rest)" and "\<exists>w. c # r = w @ rest \<and> ben w (BString k)"
    and "decodeValue rest = Inr (v, rest')" and "\<exists>w. rest = w @ rest' \<and> ben w v"
    and "c \<noteq> asc (CHR ''e'')" and "dict_sound (AList.update k v d) rest'"
  shows "dict_sound d (c # r)"
  unfolding dict_sound_def
proof (intro allI impI)
  fix d' rest'' assume "decodeDict d (c # r) = Inr (d', rest'')"
  with assms obtain ws kvs where "rest' = concat ws @ asc (CHR ''e'') # rest''"
      and "d' = insert_entries ((k, v) # kvs) d"
      and "list_all2 (\<lambda>w kv. \<exists>wk wv. w = wk @ wv \<and> ben wk (BString (fst kv)) \<and> ben wv (snd kv)) ws kvs"
    by (auto simp: decodeDict_entry dict_sound_def)
  moreover from assms(2,4) obtain wk wv where "c # r = wk @ wv @ rest'" "ben wk (BString k)" "ben wv v"
    by auto
  ultimately show "\<exists>ws kvs. c # r = concat ws @ asc (CHR ''e'') # rest'' \<and> d' = insert_entries kvs d
      \<and> list_all2 (\<lambda>w kv. \<exists>wk wv. w = wk @ wv \<and> ben wk (BString (fst kv)) \<and> ben wv (snd kv)) ws kvs"
    by (intro exI [of _ "(wk @ wv) # ws"] exI [of _ "(k, v) # kvs"]) auto
qed

lemma value_sound_step:
  assumes "r = c # r'" and "decodeValue r = Inr (v, rest)"
    and "c = asc (CHR ''l'') \<Longrightarrow> list_sound [] r'" and "c = asc (CHR ''d'') \<Longrightarrow> dict_sound [] r'"
  shows "\<exists>w. r = w @ rest \<and> ben w v"
proof -
  consider "c = asc (CHR ''i'')" | "c = asc (CHR ''l'')" | "c = asc (CHR ''d'')"
    | "c \<notin> {asc (CHR ''i''), asc (CHR ''l''), asc (CHR ''d'')}"
    by blast
  then show ?thesis
  proof cases
    case 1
    with assms(1,2) show ?thesis
      by (fastforce simp: decodeValue_int split: sum.splits dest: decodeInt_sound intro: ben_int)
  next
    case 2
    with assms show ?thesis
      by (fastforce simp: decodeValue_list list_sound_def split: sum.splits intro: ben_list)
  next
    case 3
    with assms show ?thesis
      by (fastforce simp: decodeValue_dict dict_sound_def split: sum.splits intro: ben_dict)
  next
    case 4
    with assms(1,2) obtain s where "decodeString (c # r') = Inr (s, rest)" and v: "v = BString s"
      by (auto simp: decodeValue_string split: sum.splits)
    from decodeString_sound [OF this(1)] assms(1) v show ?thesis
      by (metis append.assoc append_Cons)
  qed
qed

lemma decode_sound:
  "\<forall>v rest. decodeValue r = Inr (v, rest) \<longrightarrow> (\<exists>w. r = w @ rest \<and> ben w v)"
  "list_sound vs r'"
  "dict_sound d r''"
proof (induction r and vs r' and d r'' rule: decodeValue_decodeList_decodeDict.induct)
  case (1 r)
  show ?case
  proof (cases r)
    case Nil
    then show ?thesis by (simp add: decodeValue_Nil)
  next
    case (Cons c r')
    with 1 value_sound_step [OF Cons] show ?thesis by (auto simp: ascii_simps)
  qed
next
  case (2 vs r)
  consider "r = []" | r' where "r = asc (CHR ''e'') # r'" | c r' where "r = c # r'" "c \<noteq> asc (CHR ''e'')"
    by (cases r) auto
  then show ?case
  proof cases
    case (3 c r')
    show ?thesis
    proof (cases "decodeValue (c # r')")
      case (Inl e)
      with 3 show ?thesis by (simp add: list_sound_def decodeList.simps [of vs "c # r'"])
    next
      case (Inr p)
      then obtain v rest where "decodeValue (c # r') = Inr (v, rest)"
        by (cases p) simp
      with 2 3 show ?thesis by (auto intro!: list_sound_step)
    qed
  qed (auto simp: list_sound_def decodeList_end decodeList.simps [of vs "[]"])
next
  case (3 d r)
  consider "r = []" | r' where "r = asc (CHR ''e'') # r'" | c r' where "r = c # r'" "c \<noteq> asc (CHR ''e'')"
    by (cases r) auto
  then show ?case
  proof cases
    case step: (3 c r')
    from step(2) show ?thesis
    proof (cases rule: decodeDict_step_cases [where d = d and r = r'])
      case entry
      with 3 step show ?thesis by (auto intro!: dict_sound_step)
    next
      case fails
      with step show ?thesis by (simp add: dict_sound_def)
    qed
  next
    case 1
    then show ?thesis by (simp add: dict_sound_def decodeDict.simps [of d "[]"])
  qed (simp add: dict_sound_end)
qed

lemma ben_iff_decodeValue:
  "decodeValue r = Inr (v, rest) \<longleftrightarrow> (\<exists>w. r = w @ rest \<and> ben w v)"
  using decode_sound(1) [of r] ben_complete by auto


section \<open>What the decoder returns\<close>

text \<open>
  A value the decoder can return: integers in the range of \<open>int64\<close>, strings no longer than
  \<open>MaxInt32\<close>, maps with distinct keys.
\<close>

fun wf_bval :: "bval \<Rightarrow> bool" where
  "wf_bval (BInt n) = in_i64 n"
| "wf_bval (BString s) = (int (length s) \<le> MaxInt32)"
| "wf_bval (BList vs) = list_all wf_bval vs"
| "wf_bval (BDict kvs) =
     (distinct (map fst kvs) \<and> list_all (\<lambda>(k, v). int (length k) \<le> MaxInt32 \<and> wf_bval v) kvs)"

lemma set_update_subset: "set (AList.update k v d) \<subseteq> insert (k, v) (set d)"
  by (induction d) auto

lemma update_fresh: "k \<notin> fst ` set d \<Longrightarrow> AList.update k v d = d @ [(k, v)]"
  by (induction d) auto

lemma insert_entries_fresh:
  "distinct (map fst kvs) \<Longrightarrow> fst ` set kvs \<inter> fst ` set d = {} \<Longrightarrow>
     insert_entries kvs d = d @ kvs"
  by (induction kvs arbitrary: d) (auto simp: update_fresh)

lemma insert_entries_wf:
  assumes "list_all (\<lambda>(k, v). int (length k) \<le> MaxInt32 \<and> wf_bval v) kvs" and "wf_bval (BDict d)"
  shows "wf_bval (BDict (insert_entries kvs d))"
  using assms
proof (induction kvs arbitrary: d)
  case Nil
  then show ?case by simp
next
  case (Cons kv kvs)
  obtain k v where kv: "kv = (k, v)" by (cases kv)
  from Cons.prems kv have "wf_bval (BDict (AList.update k v d))"
    using set_update_subset [of k v d] by (auto simp: list_all_iff distinct_update)
  with Cons kv show ?case by simp
qed

lemma ben_wf: "ben w v \<Longrightarrow> wf_bval v"
proof (induction w v rule: ben.induct)
  case (ben_int num n)
  then show ?case by (simp add: ParseInt_in_i64)
next
  case (ben_list ws vs)
  then have "list_all2 (\<lambda>w v. wf_bval v) ws vs"
    by (auto elim: list_all2_mono)
  then show ?case by (auto simp: list_all2_conv_all_nth list_all_length)
next
  case (ben_dict ws kvs)
  then have "list_all2 (\<lambda>w kv. int (length (fst kv)) \<le> MaxInt32 \<and> wf_bval (snd kv)) ws kvs"
    by (auto elim: list_all2_mono)
  then have "list_all (\<lambda>(k, v). int (length k) \<le> MaxInt32 \<and> wf_bval v) kvs"
    by (auto simp: list_all2_conv_all_nth list_all_length split: prod.splits)
  then show ?case by (rule insert_entries_wf) simp
qed simp_all


section \<open>Encoding and decoding\<close>

text \<open>
  The value the decoder returned, as the encoder meets it through \<open>reflect\<close>: the elements of a
  \<open>[]interface{}\<close> and of a \<open>map[string]interface{}\<close> have interface type.
\<close>

fun go_of :: "bval \<Rightarrow> goval" where
  "go_of (BInt n) = GInt KInt64 n"
| "go_of (BString s) = GString s"
| "go_of (BList vs) = GSlice (map (\<lambda>v. GIface (go_of v)) vs)"
| "go_of (BDict kvs) = GMap (map (\<lambda>(k, v). (k, GIface (go_of v))) kvs)"

text \<open>
  Go maps have no order; \<open>canon\<close> lists the entries of every map by key. Two values with the same
  \<open>canon\<close> are the same Go value.
\<close>

fun canon :: "bval \<Rightarrow> bval" where
  "canon (BInt n) = BInt n"
| "canon (BString s) = BString s"
| "canon (BList vs) = BList (map canon vs)"
| "canon (BDict kvs) = BDict (sort_entries (map (\<lambda>(k, v). (k, canon v)) kvs))"

text \<open>The canonical encoding, as a plain function: what the encoder is to write.\<close>

definition bstring :: "bytes \<Rightarrow> bytes" where
  "bstring s = FormatInt (int (length s)) @ asc (CHR '':'') # s"

fun benc :: "bval \<Rightarrow> bytes" where
  "benc (BInt n) = asc (CHR ''i'') # FormatInt n @ [asc (CHR ''e'')]"
| "benc (BString s) = bstring s"
| "benc (BList vs) = asc (CHR ''l'') # concat (map benc vs) @ [asc (CHR ''e'')]"
| "benc (BDict kvs) =
     asc (CHR ''d'') # concat (map (\<lambda>(k, b). bstring k @ b) (sort_entries (map (\<lambda>(k, v). (k, benc v)) kvs)))
       @ [asc (CHR ''e'')]"

text \<open>Sorting the entries of a map by key, before or after working on their values.\<close>

lemma insort_key_map_snd:
  "insort_key fst (k, f v) (map (\<lambda>(k, v). (k, f v)) kvs) =
     map (\<lambda>(k, v). (k, f v)) (insort_key fst (k, v) kvs)"
  by (induction kvs) auto

lemma sort_entries_map:
  "sort_entries (map (\<lambda>(k, v). (k, f v)) kvs) = map (\<lambda>(k, v). (k, f v)) (sort_entries kvs)"
  unfolding sort_entries_def
  by (induction kvs) (auto simp: insort_key_map_snd)

lemma map_fst_entries: "map fst (map (\<lambda>(k, v). (k, f v)) kvs) = map fst kvs"
  by (induction kvs) auto

lemma map_fst_sort_entries: "map fst (sort_entries kvs) = sort (map fst kvs)"
proof -
  have "sorted (map fst (sort_entries kvs))" by (simp add: sort_entries_def)
  moreover have "mset (map fst (sort_entries kvs)) = mset (map fst kvs)"
    by (metis mset_map mset_sort_entries)
  ultimately show ?thesis by (metis properties_for_sort)
qed

lemma distinct_sort_entries: "distinct (map fst (sort_entries kvs)) = distinct (map fst kvs)"
  by (simp add: map_fst_sort_entries)

lemma benc_dict:
  "benc (BDict kvs) =
     asc (CHR ''d'') # concat (map (\<lambda>(k, v). bstring k @ benc v) (sort_entries kvs)) @ [asc (CHR ''e'')]"
  by (simp add: sort_entries_map) (simp add: comp_def case_prod_unfold)

lemma encodeElems_go_of:
  "\<forall>v \<in> set vs. encodeValue (go_of v) = Inr (benc v) \<Longrightarrow>
     encodeElems (map (\<lambda>v. GIface (go_of v)) vs) = Inr (concat (map benc vs))"
  by (induction vs) auto

lemma encodeEntries_go_of:
  "\<forall>kv \<in> set kvs. encodeValue (go_of (snd kv)) = Inr (benc (snd kv)) \<Longrightarrow>
     encodeEntries (map (\<lambda>(k, v). (k, GIface (go_of v))) kvs) =
       Inr (concat (map (\<lambda>(k, v). bstring k @ benc v) kvs))"
  by (induction kvs) (auto simp: bstring_def str_Cons)

lemma encodeValue_go_of: "encodeValue (go_of v) = Inr (benc v)"
proof (induction v)
  case (BDict kvs)
  then have "\<forall>kv \<in> set (sort_entries kvs). encodeValue (go_of (snd kv)) = Inr (benc (snd kv))"
    by (auto simp: snds.simps)
  then show ?case
    by (simp add: sort_entries_map encodeEntries_go_of str_Cons benc_dict del: benc.simps)
next
  case (BList vs)
  then show ?case by (simp add: encodeElems_go_of str_Cons)
qed (simp_all add: str_Cons bstring_def)

text \<open>The canonical encoding is a sentence of the grammar.\<close>

lemma bstring_ben: "int (length s) \<le> MaxInt32 \<Longrightarrow> ben (bstring s) (BString s)"
  unfolding bstring_def
  by (rule ben_string) (auto simp: FormatInt_no_delim MaxInt32_def in_i64_def intro!: ParseInt_FormatInt)

lemma benc_ben: "wf_bval v \<Longrightarrow> ben (benc v) (canon v)"
proof (induction v)
  case (BInt n)
  then show ?case by (auto simp: FormatInt_no_delim ParseInt_FormatInt intro: ben_int)
next
  case (BString s)
  then show ?case by (simp add: bstring_ben)
next
  case (BList vs)
  then have "list_all2 ben (map benc vs) (map canon vs)"
    by (auto simp: list_all2_conv_all_nth list_all_length)
  then show ?case by (simp add: ben_list)
next
  case (BDict kvs)
  let ?es = "sort_entries kvs"
  have "\<forall>kv \<in> set ?es. ben (bstring (fst kv)) (BString (fst kv)) \<and> ben (benc (snd kv)) (canon (snd kv))"
    using BDict by (fastforce simp: list_all_iff snds.simps intro: bstring_ben)
  then have "list_all2 (\<lambda>w kv. \<exists>wk wv. w = wk @ wv \<and> ben wk (BString (fst kv)) \<and> ben wv (snd kv))
      (map (\<lambda>(k, v). bstring k @ benc v) ?es) (map (\<lambda>(k, v). (k, canon v)) ?es)"
    unfolding list.rel_map by (intro list.rel_refl_strong) (fastforce split: prod.splits)
  from ben_dict [OF this] have "ben (benc (BDict kvs))
      (BDict (insert_entries (map (\<lambda>(k, v). (k, canon v)) ?es) []))"
    by (simp add: benc_dict del: benc.simps)
  moreover have "distinct (map fst (map (\<lambda>(k, v). (k, canon v)) ?es))"
    unfolding map_fst_entries using BDict.prems by (simp add: distinct_sort_entries)
  ultimately show ?case
    by (simp add: insert_entries_fresh sort_entries_map)
qed

lemma decode_benc: "wf_bval v \<Longrightarrow> decodeValue (benc v @ rest) = Inr (canon v, rest)"
  by (simp add: benc_ben ben_complete)

text \<open>The canonical values, as a codec whose values can be sent one after the other.\<close>

lemma canon_wf: "wf_bval v \<Longrightarrow> wf_bval (canon v)"
  using benc_ben ben_wf by blast

lemma sorted_sort_entries_id: "sorted (map fst kvs) \<Longrightarrow> sort_entries kvs = kvs"
  by (simp add: sort_entries_def sort_key_id_if_sorted)

lemma sort_entries_idem [simp]: "sort_entries (sort_entries kvs) = sort_entries kvs"
  by (rule sorted_sort_entries_id) (simp add: sort_entries_def)

lemma canon_idem [simp]: "canon (canon v) = canon v"
proof (induction v)
  case (BDict kvs)
  let ?es = "sort_entries kvs"
  have "map (\<lambda>(k, v). (k, canon v)) (map (\<lambda>(k, v). (k, canon v)) ?es) = map (\<lambda>(k, v). (k, canon v)) ?es"
    using BDict by (auto simp: snds.simps)
  then show ?case
    by (simp add: sort_entries_map del: map_map)
qed simp_all

interpretation bencode_codec: stream_codec benc decodeValue "\<lambda>v. wf_bval v \<and> canon v = v"
proof unfold_locales
  show "decodeValue (benc x @ rest) = Inr (x, rest)" if "wf_bval x \<and> canon x = x" for x rest
    using that decode_benc [of x rest] by simp
  show "benc x \<noteq> []" if "wf_bval x \<and> canon x = x" for x
    using that benc_ben [of x] by (auto elim: ben_first)
qed

section \<open>Which values can be encoded\<close>

fun encodable :: "goval \<Rightarrow> bool" where
  "encodable (GIface v) = encodable v"
| "encodable (GInt k n) = True"
| "encodable (GString s) = True"
| "encodable (GSlice vs) = list_all encodable vs"
| "encodable (GArray vs) = list_all encodable vs"
| "encodable (GMap kvs) = list_all (\<lambda>(k, v). encodable v) kvs"
| "encodable GNil = False"
| "encodable (GStruct fs) = False"
| "encodable (GPtr p) = False"
| "encodable (GOther k) = False"

lemma encodeElems_Inr_iff:
  "(\<exists>b. encodeElems vs = Inr b) \<longleftrightarrow> (\<forall>v \<in> set vs. \<exists>b. encodeValue v = Inr b)"
  by (induction vs) (auto split: sum.splits)

lemma encodeEntries_Inr_iff:
  "(\<exists>b. encodeEntries kvs = Inr b) \<longleftrightarrow> (\<forall>kv \<in> set kvs. \<exists>b. encodeValue (snd kv) = Inr b)"
  by (induction kvs) (auto split: sum.splits)

lemma encodeValue_Inr_iff: "(\<exists>b. encodeValue v = Inr b) \<longleftrightarrow> encodable v"
proof (induction v)
  case (GSlice vs)
  then show ?case
    using encodeElems_Inr_iff [of vs] by (auto simp: list_all_iff split: sum.splits)
next
  case (GArray vs)
  then show ?case
    using encodeElems_Inr_iff [of vs] by (auto simp: list_all_iff split: sum.splits)
next
  case (GMap kvs)
  then show ?case
    using encodeEntries_Inr_iff [of "sort_entries kvs"]
    by (fastforce simp: list_all_iff snds.simps split: sum.splits)
qed auto

text \<open>Go enumerates a map in any order; the encoding does not show which.\<close>

lemma sort_entries_perm:
  assumes "mset kvs = mset kvs'" and "distinct (map fst kvs)"
  shows "sort_entries kvs = sort_entries kvs'"
  unfolding sort_entries_def
  by (rule sort_key_inj_key_eq) (use assms in \<open>simp_all add: distinct_map\<close>)

text \<open>Evaluation of the decoder on a concrete input.\<close>

lemmas bencode_eval =
  Decode_def decodeValue.simps decodeList.simps decodeDict.simps decodeInt_def decodeString_def
  ParseInt_def strip_sign_def ParseUint_def is_digit_def digit_val_def read_full_def MaxInt32_def
  str_def asc_def

section \<open>Properties\<close>

text \<open>
  C3: the decoder reads exactly the grammar: \<open>decodeValue\<close> returns a value and the rest of
  its input just when the consumed part is a sentence of the bencode grammar for that value
  (numbers as \<open>ParseInt\<close> takes them, counted strings, closed lists and dictionaries, a later
  entry replacing an earlier one with the same key).
\<close>

theorem decodeValue_iff_grammar:
  "decodeValue r = Inr (v, rest) \<longleftrightarrow> (\<exists>w. r = w @ rest \<and> ben w v)"
  by (rule ben_iff_decodeValue)

text \<open>
  C4: encoding a value and decoding the bytes gives the value back with its maps listed by key
  (the same Go value), and in front of other data the decoder stops right after it.
\<close>

theorem encode_decode_roundtrip:
  assumes "wf_bval v"
  shows "\<exists>b. Encode (go_of v) = Inr b \<and> Decode b = Inr (canon v)
    \<and> (\<forall>rest. decodeValue (b @ rest) = Inr (canon v, rest))"
proof -
  have "go_of v \<noteq> GNil" by (cases v) auto
  then have "Encode (go_of v) = Inr (benc v)"
    by (simp add: Encode_def encodeValue_go_of)
  moreover have "Decode (benc v) = Inr (canon v)"
    using decode_benc [OF assms, of "[]"] by (simp add: Decode_def)
  ultimately show ?thesis
    using decode_benc [OF assms] by blast
qed

theorem encode_decode_roundtrip_witness:
  "\<exists>b. Encode (go_of (BDict [(str ''b'', BInt 2), (str ''a'', BList [BString (str ''x'')])])) = Inr b
    \<and> Decode b = Inr (canon (BDict [(str ''b'', BInt 2), (str ''a'', BList [BString (str ''x'')])]))"
proof -
  have "wf_bval (BDict [(str ''b'', BInt 2), (str ''a'', BList [BString (str ''x'')])])"
    by (simp add: in_i64_def MaxInt32_def str_def asc_def)
  from encode_decode_roundtrip [OF this] show ?thesis by blast
qed

text \<open>
  C34: whatever \<open>Decode\<close> returns is well formed, and encoding it gives a normal form: bytes that
  decode to the same value with the maps in key order, whatever spelling the input used.
\<close>

theorem decode_normalises:
  assumes "Decode data = Inr v"
  shows "wf_bval v \<and> (\<exists>b. Encode (go_of v) = Inr b \<and> Decode b = Inr (canon v)
    \<and> Encode (go_of (canon v)) = Inr b)"
proof -
  from assms have "decodeValue data = Inr (v, [])"
    by (auto simp: Decode_def split: sum.splits if_splits)
  then have "ben data v" by (simp add: ben_iff_decodeValue)
  then have wf: "wf_bval v" by (rule ben_wf)
  have "benc (canon v) = benc v"
  proof (induction v)
    case (BDict kvs)
    then have "concat (map (\<lambda>(k, v). bstring k @ benc v) (map (\<lambda>(k, v). (k, canon v)) (sort_entries kvs))) =
        concat (map (\<lambda>(k, v). bstring k @ benc v) (sort_entries kvs))"
      by (intro arg_cong [where f = concat]) (auto simp: snds.simps)
    moreover have "sort_entries (map (\<lambda>(k, v). (k, canon v)) (sort_entries kvs)) =
        map (\<lambda>(k, v). (k, canon v)) (sort_entries kvs)"
      by (simp add: sort_entries_map)
    ultimately show ?case
      by (simp only: canon.simps benc_dict sort_entries_map sort_entries_idem)
  qed (simp_all add: comp_def cong: map_cong)
  moreover have "\<And>u. Encode (go_of u) = Inr (benc u)"
    by (simp add: Encode_def encodeValue_go_of) (metis encodeValue.simps(7) encodeValue_go_of sum.distinct(1))
  moreover have "Decode (benc v) = Inr (canon v)"
    using decode_benc [OF wf, of "[]"] by (simp add: Decode_def)
  ultimately show ?thesis using wf by simp
qed

lemma decode_li3ee: "Decode (str ''li3e3:abce'') = Inr (BList [BInt 3, BString (str ''abc'')])"
  by (simp add: bencode_eval)

theorem decode_normalises_witness:
  "Decode (str ''li3e3:abce'') = Inr (BList [BInt 3, BString (str ''abc'')])
    \<and> wf_bval (BList [BInt 3, BString (str ''abc'')])"
  using decode_normalises [OF decode_li3ee] decode_li3ee by blast

text \<open>
  The input is taken whole or not at all: bytes after a complete value are refused by
  \<open>Decode\<close>, and no proper prefix of an accepted input is accepted.
\<close>

lemma decode_exact:
  assumes "Decode w = Inr v"
  shows "(\<forall>q. q \<noteq> [] \<longrightarrow> Decode (w @ q) = Inl DataAfterValue)
    \<and> (\<forall>p q. w = p @ q \<longrightarrow> q \<noteq> [] \<longrightarrow> (\<exists>e. Decode p = Inl e))"
proof (intro conjI allI impI)
  from assms have "decodeValue w = Inr (v, [])"
    by (auto simp: Decode_def split: sum.splits if_splits)
  then have w: "decodeValue (w @ q) = Inr (v, q)" for q
    by (auto simp: ben_iff_decodeValue)
  show "Decode (w @ q) = Inl DataAfterValue" if "q \<noteq> []" for q
    using that by (simp add: Decode_def w)
  show "\<exists>e. Decode p = Inl e" if "w = p @ q" and "q \<noteq> []" for p q
  proof (cases "decodeValue p")
    case (Inl e)
    then show ?thesis by (simp add: Decode_def)
  next
    case (Inr x)
    then obtain u rest where "decodeValue p = Inr (u, rest)" by (cases x) simp
    then have "decodeValue (p @ q) = Inr (u, rest @ q)"
      by (auto simp: ben_iff_decodeValue)
    with w [of "[]"] that show ?thesis by simp
  qed
qed

lemma decode_exact_example:
  "Decode (str ''li3e3:abce'' @ str ''x'') = Inl DataAfterValue"
  using decode_exact [OF decode_li3ee] by (simp add: str_def)

text \<open>
  \<open>Encode\<close> fails exactly on the values it has no format for: a nil inside a list or a map, a
  struct, a pointer, a bool, a float, an unsigned integer, and anything holding one of these;
  a nil argument itself is written as \<open>e\<close>.
\<close>

lemma encode_succeeds_iff: "(\<exists>b. Encode v = Inr b) \<longleftrightarrow> v = GNil \<or> encodable v"
  using encodeValue_Inr_iff [of v] by (auto simp: Encode_def)

text \<open>
  The bytes written for a map do not depend on the order in which Go enumerates its entries,
  and its keys come in ascending byte order.
\<close>

lemma encode_map_deterministic:
  assumes "mset kvs = mset kvs'" and "distinct (map fst kvs)"
  shows "Encode (GMap kvs) = Encode (GMap kvs') \<and> sorted (map fst (sort_entries kvs))"
proof
  show "Encode (GMap kvs) = Encode (GMap kvs')"
    using sort_entries_perm [OF assms] by (simp add: Encode_def)
  show "sorted (map fst (sort_entries kvs))"
    by (simp add: sort_entries_def)
qed

lemma encode_map_deterministic_example:
  "Encode (GMap [(str ''b'', GInt KInt 1), (str ''a'', GString [])]) =
   Encode (GMap [(str ''a'', GString []), (str ''b'', GInt KInt 1)])"
  by (rule encode_map_deterministic [THEN conjunct1]) (simp_all add: add_mset_commute str_def asc_def)

end
