(* ===== verification/Unmarshal.thy ===== *)
theory Unmarshal
  imports Bencode_Correct
begin

text \<open>
  \<open>Unmarshal\<close> and \<open>populateValue\<close> of \<open>internal/bencode/bencode.go\<close>: a decoded value is stored
  into a Go variable, steered by the variable's type. Types and struct tags are data here, as
  they are for \<open>reflect\<close>; the program's own types are instances (see \<open>MetaInfo\<close>).
\<close>

section \<open>Types, their zero values and their values\<close>

text \<open>A field of a struct is its name, the value of its \<open>bencode\<close> tag, and its type.\<close>

datatype gotype =
    TInterface
  | TPtr gotype
  | TStruct "(bytes \<times> bytes \<times> gotype) list"
  | TSlice gotype
  | TMap gotype gotype
  | TString
  | TInt int_kind
  | TOther go_kind

fun zero_of :: "gotype \<Rightarrow> goval" where
  "zero_of TInterface = GIface GNil"
| "zero_of (TPtr t) = GPtr None"
| "zero_of (TStruct fs) = GStruct (map (\<lambda>(name, tag, t). (name, zero_of t)) fs)"
| "zero_of (TSlice t) = GSlice []"
| "zero_of (TMap k t) = GMap []"
| "zero_of TString = GString []"
| "zero_of (TInt k) = GInt k 0"
| "zero_of (TOther k) = GOther k"

fun int_bits :: "int_kind \<Rightarrow> nat" where
  "int_bits KInt = 64"
| "int_bits KInt8 = 8"
| "int_bits KInt16 = 16"
| "int_bits KInt32 = 32"
| "int_bits KInt64 = 64"

text \<open>\<open>SetInt\<close> stores the low bits that fit the variable's kind.\<close>

definition trunc_int :: "int_kind \<Rightarrow> int \<Rightarrow> int" where
  "trunc_int k n = signed_take_bit (int_bits k - 1) n"

definition in_kind :: "int_kind \<Rightarrow> int \<Rightarrow> bool" where
  "in_kind k n \<longleftrightarrow> - (2 ^ (int_bits k - 1)) \<le> n \<and> n < 2 ^ (int_bits k - 1)"

lemma trunc_int_in_kind: "in_kind k (trunc_int k n)"
  by (auto simp: in_kind_def trunc_int_def signed_take_bit_int_greater_eq_minus_exp
      signed_take_bit_int_less_exp)

lemma trunc_int_id: "in_kind k n \<Longrightarrow> trunc_int k n = n"
  by (simp add: in_kind_def trunc_int_def signed_take_bit_int_eq_self)

fun has_type :: "gotype \<Rightarrow> goval \<Rightarrow> bool"
  and fields_have_type :: "(bytes \<times> bytes \<times> gotype) list \<Rightarrow> (bytes \<times> goval) list \<Rightarrow> bool"
where
  "has_type TInterface v = (case v of GIface w \<Rightarrow> True | _ \<Rightarrow> False)"
| "has_type (TPtr t) v =
     (case v of GPtr None \<Rightarrow> True | GPtr (Some w) \<Rightarrow> has_type t w | _ \<Rightarrow> False)"
| "has_type (TStruct fs) v = (case v of GStruct vs \<Rightarrow> fields_have_type fs vs | _ \<Rightarrow> False)"
| "has_type (TSlice t) v = (case v of GSlice vs \<Rightarrow> (\<forall>w \<in> set vs. has_type t w) | _ \<Rightarrow> False)"
| "has_type (TMap k t) v =
     (case v of
        GMap kvs \<Rightarrow> distinct (map fst kvs) \<and> (\<forall>w \<in> set (map snd kvs). has_type t w)
      | _ \<Rightarrow> False)"
| "has_type TString v = (case v of GString s \<Rightarrow> True | _ \<Rightarrow> False)"
| "has_type (TInt k) v = (case v of GInt k' n \<Rightarrow> k = k' \<and> in_kind k n | _ \<Rightarrow> False)"
| "has_type (TOther k) v = (v = GOther k)"
| "fields_have_type [] vs = (vs = [])"
| "fields_have_type ((name, tag, t) # fs) vs =
     (case vs of
        [] \<Rightarrow> False
      | (name', v) # vs' \<Rightarrow> name = name' \<and> has_type t v \<and> fields_have_type fs vs')"

section \<open>populateValue\<close>

datatype populate_error =
    ExpectedMapForStruct | ExpectedSlice | ExpectedMap | ExpectedString | ExpectedInt
  | UnsupportedKind go_kind

text \<open>The name a field is looked up by: the whole tag, or the field's own name without one.\<close>

definition field_key :: "bytes \<Rightarrow> bytes \<Rightarrow> bytes" where
  "field_key name tag = (if tag = [] then name else tag)"

text \<open>
  \<open>populateValue t v data\<close> is the new contents of a variable of type \<open>t\<close> that held \<open>v\<close>. The
  variable a failed call leaves behind is not modelled: both callers drop it. Entries of a map
  are visited in the order of the list; Go's order is random and only decides which of several
  errors is reported.
\<close>

function (sequential) populateValue :: "gotype \<Rightarrow> goval \<Rightarrow> bval \<Rightarrow> (populate_error, goval) go"
  and populateFields :: "(bytes \<times> bytes \<times> gotype) list \<Rightarrow> (bytes \<times> goval) list \<Rightarrow> (bytes \<times> bval) list
    \<Rightarrow> (populate_error, (bytes \<times> goval) list) go"
  and populateElems :: "gotype \<Rightarrow> bval list \<Rightarrow> (populate_error, goval list) go"
  and populateEntries :: "gotype \<Rightarrow> gotype \<Rightarrow> (bytes \<times> bval) list
    \<Rightarrow> (populate_error, (bytes \<times> goval) list) go"
where
  "populateValue TInterface v data = Inr (GIface (go_of data))"
| "populateValue (TPtr t) v data =
     (case populateValue t (case v of GPtr (Some w) \<Rightarrow> w | _ \<Rightarrow> zero_of t) data of
        Inl e \<Rightarrow> Inl e
      | Inr w \<Rightarrow> Inr (GPtr (Some w)))"
| "populateValue (TStruct fs) v data =
     (case data of
        BDict m \<Rightarrow>
          (case populateFields fs (case v of GStruct vs \<Rightarrow> vs | _ \<Rightarrow> []) m of
             Inl e \<Rightarrow> Inl e | Inr vs \<Rightarrow> Inr (GStruct vs))
      | _ \<Rightarrow> Inl (Error ExpectedMapForStruct))"
| "populateValue (TSlice t) v data =
     (case data of
        BList s \<Rightarrow> (case populateElems t s of Inl e \<Rightarrow> Inl e | Inr vs \<Rightarrow> Inr (GSlice vs))
      | _ \<Rightarrow> Inl (Error ExpectedSlice))"
| "populateValue (TMap k t) v data =
     (case data of
        BDict m \<Rightarrow> (case populateEntries k t m of Inl e \<Rightarrow> Inl e | Inr kvs \<Rightarrow> Inr (GMap kvs))
      | _ \<Rightarrow> Inl (Error ExpectedMap))"
| "populateValue TString v data =
     (case data of BString s \<Rightarrow> Inr (GString s) | _ \<Rightarrow> Inl (Error ExpectedString))"
| "populateValue (TInt k) v data =
     (case data of BInt n \<Rightarrow> Inr (GInt k (trunc_int k n)) | _ \<Rightarrow> Inl (Error ExpectedInt))"
| "populateValue (TOther k) v data = Inl (Error (UnsupportedKind k))"
| "populateFields ((name, tag, t) # fs) ((n, v) # vs) m =
     (case (case map_of m (field_key name tag) of None \<Rightarrow> Inr v | Some d \<Rightarrow> populateValue t v d) of
        Inl e \<Rightarrow> Inl e
      | Inr v' \<Rightarrow>
          (case populateFields fs vs m of Inl e \<Rightarrow> Inl e | Inr vs' \<Rightarrow> Inr ((n, v') # vs')))"
| "populateFields _ _ m = Inr []"
| "populateElems t [] = Inr []"
| "populateElems t (d # ds) =
     (case populateValue t (zero_of t) d of
        Inl e \<Rightarrow> Inl e
      | Inr v \<Rightarrow> (case populateElems t ds of Inl e \<Rightarrow> Inl e | Inr vs \<Rightarrow> Inr (v # vs)))"
| "populateEntries k t [] = Inr []"
| "populateEntries k t ((key, d) # m) =
     (case populateValue t (zero_of t) d of
        Inl e \<Rightarrow> Inl e
      | Inr v \<Rightarrow>
          if k \<noteq> TString then Inl (Panic ReflectSet)
          else (case populateEntries k t m of Inl e \<Rightarrow> Inl e | Inr kvs \<Rightarrow> Inr ((key, v) # kvs)))"
  by pat_completeness auto
termination
  by (relation "measures
     [\<lambda>x. case x of
        Inl (Inl (t, v, d)) \<Rightarrow> size t
      | Inl (Inr (fs, vs, m)) \<Rightarrow> size_list (size_prod (\<lambda>n. 0) (size_prod (\<lambda>tag. 0) size)) fs
      | Inr (Inl (t, ds)) \<Rightarrow> size t
      | Inr (Inr (k, t, m)) \<Rightarrow> size t,
      \<lambda>x. case x of
        Inl y \<Rightarrow> 0
      | Inr (Inl (t, ds)) \<Rightarrow> length ds + 1
      | Inr (Inr (k, t, m)) \<Rightarrow> length m + 1]")
    auto

text \<open>\<open>Unmarshal\<close>: one value is decoded, what follows it is not looked at.\<close>

datatype unmarshal_error = DecodeErr decode_error | PopulateErr populate_error

definition Unmarshal :: "gotype \<Rightarrow> goval \<Rightarrow> bytes \<Rightarrow> (unmarshal_error, goval) go" where
  "Unmarshal t v data =
     (case decodeValue data of
        Inl e \<Rightarrow> Inl (Error (DecodeErr e))
      | Inr (d, _) \<Rightarrow>
          (case populateValue t v d of
             Inl (Error e) \<Rightarrow> Inl (Error (PopulateErr e))
           | Inl (Panic p) \<Rightarrow> Inl (Panic p)
           | Inr v' \<Rightarrow> Inr v'))"

section \<open>Types are preserved, and panics need a map with other keys\<close>

lemma zero_of_fields:
  "\<forall>f \<in> set fs. has_type (snd (snd f)) (zero_of (snd (snd f))) \<Longrightarrow>
     fields_have_type fs (map (\<lambda>(name, tag, t). (name, zero_of t)) fs)"
  by (induction fs) auto

lemma zero_of_has_type: "has_type t (zero_of t)"
proof (induction t)
  case (TStruct fs)
  then show ?case by (auto intro!: zero_of_fields simp: snds.simps)
qed (auto simp: in_kind_def)

lemma populateFields_Inr:
  assumes "populateFields ((name, tag, t) # fs) vs m = Inr vs'" and "fields_have_type ((name, tag, t) # fs) vs"
  obtains v ws v' ws' where "vs = (name, v) # ws" and "vs' = (name, v') # ws'"
    and "populateFields fs ws m = Inr ws'" and "fields_have_type fs ws" and "has_type t v"
    and "(case map_of m (field_key name tag) of None \<Rightarrow> Inr v | Some d \<Rightarrow> populateValue t v d) = Inr v'"
  using assms by (auto split: list.splits sum.splits prod.splits intro: that)

lemma populateEntries_keys:
  "populateEntries k t m = Inr kvs \<Longrightarrow> map fst kvs = map fst m"
  by (induction m arbitrary: kvs) (auto split: sum.splits if_splits)

lemma populate_has_type:
  "has_type t v \<Longrightarrow> wf_bval d \<Longrightarrow> populateValue t v d = Inr v' \<Longrightarrow> has_type t v'"
  "fields_have_type fs vs \<Longrightarrow> wf_bval (BDict m) \<Longrightarrow> populateFields fs vs m = Inr vs' \<Longrightarrow>
     fields_have_type fs vs'"
  "list_all wf_bval ds \<Longrightarrow> populateElems t2 ds = Inr ws \<Longrightarrow> \<forall>w \<in> set ws. has_type t2 w"
  "list_all (\<lambda>(k, v). wf_bval v) es \<Longrightarrow> populateEntries k t3 es = Inr kvs \<Longrightarrow>
     \<forall>w \<in> set (map snd kvs). has_type t3 w"
proof (induction t v d and fs vs m and t2 ds and k t3 es arbitrary: v' and vs' and ws and kvs
    rule: populateValue_populateFields_populateElems_populateEntries.induct)
  case (2 t v d)
  then show ?case
    by (auto split: sum.splits goval.splits option.splits simp: zero_of_has_type)
next
  case (3 fs v d)
  then show ?case by (auto split: sum.splits goval.splits bval.splits)
next
  case (4 t v d)
  then show ?case by (auto split: sum.splits bval.splits)
next
  case (5 k t v d)
  then show ?case
    by (auto split: sum.splits bval.splits simp: list_all_iff case_prod_unfold)
      (metis populateEntries_keys)
next
  case (7 k v d)
  then show ?case by (auto split: bval.splits simp: trunc_int_in_kind)
next
  case (9 name tag t fs n v vs m)
  from "9.prems"(1) have n: "name = n" and v: "has_type t v" and vs: "fields_have_type fs vs" by auto
  from "9.prems"(3) obtain v' ws' where
      v': "(case map_of m (field_key name tag) of None \<Rightarrow> Inr v | Some d \<Rightarrow> populateValue t v d) = Inr v'"
      and ws': "populateFields fs vs m = Inr ws'" and vs': "vs' = (n, v') # ws'"
    by (auto split: sum.splits)
  have "has_type t v'"
  proof (cases "map_of m (field_key name tag)")
    case None
    with v v' show ?thesis by simp
  next
    case (Some d)
    with "9.prems"(2) have "wf_bval d" by (auto simp: list_all_iff dest: map_of_SomeD)
    with 9(1) [OF Some v this] v' Some show ?thesis by simp
  qed
  moreover have "fields_have_type fs ws'"
    using 9(2) v' vs "9.prems"(2) ws' by (cases "map_of m (field_key name tag)") auto
  ultimately show ?case using n vs' by simp
next
  case (12 t d ds)
  then show ?case by (auto split: sum.splits simp: zero_of_has_type)
next
  case (14 k t key d m)
  then show ?case by (fastforce split: sum.splits if_splits simp: zero_of_has_type)
qed (auto split: bval.splits)

text \<open>No type with maps of other than string keys: then \<open>reflect\<close> never panics.\<close>

fun string_maps :: "gotype \<Rightarrow> bool" where
  "string_maps (TPtr t) = string_maps t"
| "string_maps (TStruct fs) = (\<forall>f \<in> set fs. string_maps (snd (snd f)))"
| "string_maps (TSlice t) = string_maps t"
| "string_maps (TMap k t) = (k = TString \<and> string_maps t)"
| "string_maps _ = True"

lemma populate_no_panic:
  "string_maps t \<Longrightarrow> populateValue t v d \<noteq> Inl (Panic p)"
  "\<forall>f \<in> set fs. string_maps (snd (snd f)) \<Longrightarrow> populateFields fs vs m \<noteq> Inl (Panic p)"
  "string_maps t2 \<Longrightarrow> populateElems t2 ds \<noteq> Inl (Panic p)"
  "k = TString \<and> string_maps t3 \<Longrightarrow> populateEntries k t3 es \<noteq> Inl (Panic p)"
proof (induction t v d and fs vs m and t2 ds and k t3 es
    rule: populateValue_populateFields_populateElems_populateEntries.induct)
  case (9 name tag t fs n v vs m)
  then show ?case by (auto split: sum.splits option.splits)
qed (auto split: sum.splits bval.splits goval.splits option.splits)

section \<open>What is stored\<close>

text \<open>
  \<open>stores t v d v'\<close>: a variable of type \<open>t\<close> that held \<open>v\<close> holds \<open>v'\<close> once the decoded value \<open>d\<close> has been
  stored in it. A struct takes each of its fields from the entry under the field's tag, or under its name
  without one, and keeps the fields that have no entry; entries that belong to no field are passed over.
  There is a rule only where the value has the shape of the type.
\<close>

inductive stores :: "gotype \<Rightarrow> goval \<Rightarrow> bval \<Rightarrow> goval \<Rightarrow> bool" where
  stores_iface: "stores TInterface v d (GIface (go_of d))"
| stores_new: "stores t (zero_of t) d w \<Longrightarrow> stores (TPtr t) (GPtr None) d (GPtr (Some w))"
| stores_ptr: "stores t u d w \<Longrightarrow> stores (TPtr t) (GPtr (Some u)) d (GPtr (Some w))"
| stores_struct: "length vs' = length fs \<Longrightarrow>
    \<forall>i < length fs. fst (vs' ! i) = fst (fs ! i)
      \<and> (map_of m (if fst (snd (fs ! i)) = [] then fst (fs ! i) else fst (snd (fs ! i))) = None
           \<longrightarrow> snd (vs' ! i) = snd (vs ! i))
      \<and> (\<forall>d. map_of m (if fst (snd (fs ! i)) = [] then fst (fs ! i) else fst (snd (fs ! i))) = Some d
           \<longrightarrow> stores (snd (snd (fs ! i))) (snd (vs ! i)) d (snd (vs' ! i))) \<Longrightarrow>
    stores (TStruct fs) (GStruct vs) (BDict m) (GStruct vs')"
| stores_slice: "list_all2 (stores t (zero_of t)) ds ws \<Longrightarrow> stores (TSlice t) v (BList ds) (GSlice ws)"
| stores_map: "k = TString \<or> m = [] \<Longrightarrow>
    list_all2 (\<lambda>e e'. fst e' = fst e \<and> stores t (zero_of t) (snd e) (snd e')) m kvs \<Longrightarrow>
    stores (TMap k t) v (BDict m) (GMap kvs)"
| stores_string: "stores TString v (BString b) (GString b)"
| stores_int: "stores (TInt k) v (BInt n) (GInt k (trunc_int k n))"

inductive_simps stores_struct_simps: "stores (TStruct fs) (GStruct vs) d v'"

inductive_simps stores_simps:
  "stores TInterface v d v'" "stores (TPtr t) (GPtr None) d v'" "stores (TPtr t) (GPtr (Some u)) d v'"
  "stores (TSlice t) v d v'" "stores (TMap k t) v d v'"
  "stores TString v d v'" "stores (TInt k) v d v'" "stores (TOther k) v d v'"

definition field_stored :: "(bytes \<times> bval) list \<Rightarrow> bytes \<times> bytes \<times> gotype \<Rightarrow> bytes \<times> goval \<Rightarrow> bytes \<times> goval \<Rightarrow> bool" where
  "field_stored m f e e' \<longleftrightarrow>
     (case f of (name, tag, t) \<Rightarrow>
        fst e' = name
        \<and> (map_of m (if tag = [] then name else tag) = None \<longrightarrow> snd e' = snd e)
        \<and> (\<forall>d. map_of m (if tag = [] then name else tag) = Some d \<longrightarrow> stores t (snd e) d (snd e')))"

lemma stores_fields:
  "stores (TStruct fs) (GStruct vs) d v' \<longleftrightarrow>
     (\<exists>m vs'. d = BDict m \<and> v' = GStruct vs' \<and> length vs' = length fs
        \<and> (\<forall>i < length fs. field_stored m (fs ! i) (vs ! i) (vs' ! i)))"
  unfolding stores_struct_simps field_stored_def case_prod_unfold by blast

lemma field_stored_case:
  "field_stored m (name, tag, t) (name, v) (n, v') \<longleftrightarrow>
     n = name \<and> (case map_of m (field_key name tag) of None \<Rightarrow> v' = v | Some d \<Rightarrow> stores t v d v')"
  by (auto simp: field_stored_def field_key_def split: option.splits)

lemma wrap_Inr:
  "(case x of Inl e \<Rightarrow> Inl e | Inr v \<Rightarrow> Inr (c v)) = Inr z \<longleftrightarrow> (\<exists>v. x = Inr v \<and> z = c v)"
  by (cases x) auto

lemma fields_have_type_Nil: "fields_have_type fs [] \<longleftrightarrow> fs = []"
  by (cases fs) auto

lemma populate_iff_stores:
  "has_type t v \<Longrightarrow> populateValue t v d = Inr v' \<longleftrightarrow> stores t v d v'"
  "fields_have_type fs vs \<Longrightarrow> populateFields fs vs m = Inr vs' \<longleftrightarrow>
     length vs' = length fs \<and> (\<forall>i < length fs. field_stored m (fs ! i) (vs ! i) (vs' ! i))"
  "populateElems t2 ds = Inr ws \<longleftrightarrow> list_all2 (stores t2 (zero_of t2)) ds ws"
  "populateEntries k t3 es = Inr kvs \<longleftrightarrow>
     (k = TString \<or> es = []) \<and> list_all2 (\<lambda>e e'. fst e' = fst e \<and> stores t3 (zero_of t3) (snd e) (snd e')) es kvs"
proof (induction t v d and fs vs m and t2 ds and k t3 es arbitrary: v' and vs' and ws and kvs
    rule: populateValue_populateFields_populateElems_populateEntries.induct)
  case (2 t v d)
  let ?u = "case v of GPtr (Some w) \<Rightarrow> w | _ \<Rightarrow> zero_of t"
  have "has_type t ?u" using 2(2) by (auto simp: zero_of_has_type split: goval.splits option.splits)
  then have "populateValue t ?u d = Inr w \<longleftrightarrow> stores t ?u d w" for w by (rule 2(1))
  then have "populateValue (TPtr t) v d = Inr v' \<longleftrightarrow> (\<exists>w. stores t ?u d w \<and> v' = GPtr (Some w))"
    by (simp add: wrap_Inr)
  with 2(2) show ?case by (auto simp: stores_simps split: goval.splits option.splits)
next
  case (3 fs v d)
  then show ?case
    by (cases d; cases v) (auto simp: stores_fields wrap_Inr)
next
  case (4 t v d)
  then show ?case by (cases d) (auto simp: stores_simps wrap_Inr)
next
  case (5 k t v d)
  then show ?case by (cases d) (auto simp: stores_simps wrap_Inr)
next
  case (9 name tag t fs n v vs m)
  then have n: "n = name" "has_type t v" "fields_have_type fs vs" by auto
  let ?x = "case map_of m (field_key name tag) of None \<Rightarrow> Inr v | Some d \<Rightarrow> populateValue t v d"
  have x: "?x = Inr w \<longleftrightarrow> (case map_of m (field_key name tag) of None \<Rightarrow> w = v | Some d \<Rightarrow> stores t v d w)" for w
    using 9(1) n(2) by (auto split: option.splits)
  show ?case
  proof (cases vs')
    case (Cons e ws)
    obtain n' w where e: "e = (n', w)" by (cases e)
    have "populateFields ((name, tag, t) # fs) ((n, v) # vs) m = Inr vs' \<longleftrightarrow>
        n' = n \<and> ?x = Inr w \<and> populateFields fs vs m = Inr ws"
      by (auto simp: Cons e split: sum.splits)
    also have "\<dots> \<longleftrightarrow> n' = n \<and> ?x = Inr w \<and> length ws = length fs \<and> (\<forall>i < length fs. field_stored m (fs ! i) (vs ! i) (ws ! i))"
      using 9(2) n(3) by (cases ?x) auto
    finally show ?thesis
      unfolding x by (auto simp: Cons e n(1) All_less_Suc2 field_stored_case)
  qed (auto split: sum.splits)
next
  case (12 t d ds)
  have v: "populateValue t (zero_of t) d = Inr w \<longleftrightarrow> stores t (zero_of t) d w" for w
    by (rule 12(1) [OF zero_of_has_type])
  show ?case
  proof (cases ws)
    case (Cons w ws')
    have "populateElems t (d # ds) = Inr ws \<longleftrightarrow> populateValue t (zero_of t) d = Inr w \<and> populateElems t ds = Inr ws'"
      by (auto simp: Cons split: sum.splits)
    also have "\<dots> \<longleftrightarrow> populateValue t (zero_of t) d = Inr w \<and> list_all2 (stores t (zero_of t)) ds ws'"
      using 12(2) by blast
    finally show ?thesis unfolding v by (simp add: Cons)
  qed (auto split: sum.splits)
next
  case (14 k t key d m)
  have v: "populateValue t (zero_of t) d = Inr w \<longleftrightarrow> stores t (zero_of t) d w" for w
    by (rule 14(1) [OF zero_of_has_type])
  show ?case
  proof (cases kvs)
    case (Cons e kvs')
    obtain key' w where e: "e = (key', w)" by (cases e)
    have "populateEntries k t ((key, d) # m) = Inr kvs \<longleftrightarrow>
        key' = key \<and> k = TString \<and> populateValue t (zero_of t) d = Inr w \<and> populateEntries k t m = Inr kvs'"
      by (auto simp: Cons e split: sum.splits)
    also have "\<dots> \<longleftrightarrow> key' = key \<and> k = TString \<and> populateValue t (zero_of t) d = Inr w
        \<and> list_all2 (\<lambda>e e'. fst e' = fst e \<and> stores t (zero_of t) (snd e) (snd e')) m kvs'"
      using 14(2) by blast
    finally show ?thesis unfolding v by (auto simp: Cons e)
  qed (auto split: sum.splits)
qed (auto simp: stores_simps fields_have_type_Nil split: bval.splits)

section \<open>Properties\<close>



text \<open>The value stored is what the type allows, cut to the width of the field: 300 in eight bits is 44.\<close>

lemma unmarshal_cuts: "Unmarshal (TSlice (TInt KInt8)) (GSlice []) (str ''li300ee'') = Inr (GSlice [GInt KInt8 44])"
proof -
  have "decodeValue (str ''li300ee'') = Inr (BList [BInt 300], [])"
    by (simp add: bencode_eval)
  moreover have "trunc_int KInt8 300 = 44"
    by (simp add: trunc_int_def signed_take_bit_eq_take_bit_shift take_bit_eq_mod)
  ultimately show ?thesis by (simp add: Unmarshal_def)
qed

text \<open>
  \<open>Unmarshal\<close> into a type whose maps have string keys returns or reports an error; it does not
  panic, whatever bytes it is given.
\<close>

lemma unmarshal_no_panic:
  assumes "string_maps t"
  shows "Unmarshal t v data \<noteq> Inl (Panic p)"
  using populate_no_panic(1) [OF assms]
  by (auto simp: Unmarshal_def split: sum.splits fault.splits)

lemma unmarshal_no_panic_example:
  "Unmarshal (TMap TString TInterface) (GMap []) (str ''i1e'') \<noteq> Inl (Panic ReflectSet)"
  by (rule unmarshal_no_panic) simp

end
