(* ===== verification/Sha1.thy ===== *)
theory Sha1
  imports GoLib
begin

unbundle bit_operations_syntax

text \<open>
  \<open>crypto/sha1\<close>, which the program uses for piece hashes and the info hash, written out
  from the standard (FIPS 180-4): padding, the message schedule, 80 rounds per block. The
  components use two facts about it: a digest has 20 bytes, and it is a function of the data.
\<close>

type_synonym word32 = "32 word"
type_synonym sha1_state = "word32 \<times> word32 \<times> word32 \<times> word32 \<times> word32"

definition sha1_pad :: "bytes \<Rightarrow> bytes" where
  "sha1_pad m =
     m @ [0x80] @ replicate (nat ((55 - int (length m)) mod 64)) 0
       @ put_uint64 (of_nat (8 * length m))"

fun block_words :: "bytes \<Rightarrow> word32 list" where
  "block_words (b0 # b1 # b2 # b3 # r) = uint32_of b0 b1 b2 b3 # block_words r"
| "block_words _ = []"

text \<open>The schedule is kept newest first: \<open>W (t-3)\<close> is at index 2, \<open>W (t-16)\<close> at index 15.\<close>

fun sha1_schedule :: "nat \<Rightarrow> word32 list \<Rightarrow> word32 list" where
  "sha1_schedule 0 ws = rev ws"
| "sha1_schedule (Suc n) ws =
     sha1_schedule n (word_rotl 1 (ws ! 2 XOR ws ! 7 XOR ws ! 13 XOR ws ! 15) # ws)"

definition sha1_f :: "nat \<Rightarrow> word32 \<Rightarrow> word32 \<Rightarrow> word32 \<Rightarrow> word32" where
  "sha1_f t b c d =
     (if t < 20 then (b AND c) OR (NOT b AND d)
      else if t < 40 then b XOR c XOR d
      else if t < 60 then (b AND c) OR (b AND d) OR (c AND d)
      else b XOR c XOR d)"

definition sha1_k :: "nat \<Rightarrow> word32" where
  "sha1_k t =
     (if t < 20 then 0x5A827999 else if t < 40 then 0x6ED9EBA1
      else if t < 60 then 0x8F1BBCDC else 0xCA62C1D6)"

fun sha1_rounds :: "nat \<Rightarrow> word32 list \<Rightarrow> sha1_state \<Rightarrow> sha1_state" where
  "sha1_rounds t [] s = s"
| "sha1_rounds t (w # ws) (a, b, c, d, e) =
     sha1_rounds (Suc t) ws
       (word_rotl 5 a + sha1_f t b c d + e + sha1_k t + w, a, word_rotl 30 b, c, d)"

definition sha1_block :: "bytes \<Rightarrow> sha1_state \<Rightarrow> sha1_state" where
  "sha1_block blk s =
     (case s of (h0, h1, h2, h3, h4) \<Rightarrow>
        (case sha1_rounds 0 (sha1_schedule 64 (rev (block_words blk))) s of
           (a, b, c, d, e) \<Rightarrow> (h0 + a, h1 + b, h2 + c, h3 + d, h4 + e)))"

function sha1_blocks :: "bytes \<Rightarrow> sha1_state \<Rightarrow> sha1_state" where
  "sha1_blocks m s =
     (if m = [] then s else sha1_blocks (drop 64 m) (sha1_block (take 64 m) s))"
  by pat_completeness auto
termination
  by (relation "measure (\<lambda>(m, s). length m)") auto

declare sha1_blocks.simps [simp del]

definition sha1_init :: sha1_state where
  "sha1_init = (0x67452301, 0xEFCDAB89, 0x98BADCFE, 0x10325476, 0xC3D2E1F0)"

definition sha1_Sum :: "bytes \<Rightarrow> bytes" where
  "sha1_Sum data =
     (case sha1_blocks (sha1_pad data) sha1_init of
        (h0, h1, h2, h3, h4) \<Rightarrow>
          put_uint32 h0 @ put_uint32 h1 @ put_uint32 h2 @ put_uint32 h3 @ put_uint32 h4)"

lemma length_sha1_Sum [simp]: "length (sha1_Sum data) = 20"
  by (simp add: sha1_Sum_def split: prod.splits)

lemma length_sha1_pad: "length (sha1_pad m) mod 64 = 0"
proof -
  let ?n = "int (length m)"
  have "int (length (sha1_pad m)) = ?n + 9 + (55 - ?n) mod 64"
    by (simp add: sha1_pad_def)
  then have "int (length (sha1_pad m)) mod 64 = (?n + 9 + (55 - ?n)) mod 64"
    by (simp only: mod_add_right_eq)
  then have "int (length (sha1_pad m)) mod 64 = 0" by simp
  then show ?thesis by presburger
qed

end
