(* ===== verification/MetaInfo.thy ===== *)
theory MetaInfo
  imports Unmarshal Sha1
begin

text \<open>
  \<open>internal/torrent/metainfo.go\<close>: the \<open>info\<close> dictionary, parsing a torrent file, the info hash,
  the total length and the piece hashes.
\<close>

section \<open>The structures\<close>

record file_entry =
  FileLength :: int
  FilePath :: "bytes list"

record info_dict =
  PieceLength :: int
  Pieces :: bytes
  Name :: bytes
  Length :: int
  Files :: "file_entry list"

record meta_info =
  Announce :: bytes
  Info :: info_dict

text \<open>The types as \<open>reflect\<close> shows them, with the tags as they are written in the source.\<close>

definition FileEntryType :: gotype where
  "FileEntryType = TStruct
     [(str ''Length'', str ''length'', TInt KInt64),
      (str ''Path'', str ''path'', TSlice TString)]"

definition InfoDictType :: gotype where
  "InfoDictType = TStruct
     [(str ''PieceLength'', str ''piece length'', TInt KInt64),
      (str ''Pieces'', str ''pieces'', TString),
      (str ''Name'', str ''name'', TString),
      (str ''Length'', str ''length,omitempty'', TInt KInt64),
      (str ''Files'', str ''files,omitempty'', TSlice FileEntryType)]"

definition MetaInfoType :: gotype where
  "MetaInfoType = TStruct
     [(str ''Announce'', str ''announce'', TString),
      (str ''Info'', str ''info'', InfoDictType)]"

text \<open>Reading the fields of a populated struct.\<close>

fun field_at :: "nat \<Rightarrow> goval \<Rightarrow> goval" where
  "field_at i (GStruct fs) = (if i < length fs then snd (fs ! i) else GNil)"
| "field_at i _ = GNil"

fun as_int :: "goval \<Rightarrow> int" where
  "as_int (GInt k n) = n"
| "as_int _ = 0"

fun as_string :: "goval \<Rightarrow> bytes" where
  "as_string (GString s) = s"
| "as_string _ = []"

fun as_slice :: "goval \<Rightarrow> goval list" where
  "as_slice (GSlice vs) = vs"
| "as_slice _ = []"

definition file_entry_of :: "goval \<Rightarrow> file_entry" where
  "file_entry_of v =
     \<lparr>FileLength = as_int (field_at 0 v), FilePath = map as_string (as_slice (field_at 1 v))\<rparr>"

definition info_dict_of :: "goval \<Rightarrow> info_dict" where
  "info_dict_of v =
     \<lparr>PieceLength = as_int (field_at 0 v), Pieces = as_string (field_at 1 v),
      Name = as_string (field_at 2 v), Length = as_int (field_at 3 v),
      Files = map file_entry_of (as_slice (field_at 4 v))\<rparr>"

definition meta_info_of :: "goval \<Rightarrow> meta_info" where
  "meta_info_of v = \<lparr>Announce = as_string (field_at 0 v), Info = info_dict_of (field_at 1 v)\<rparr>"

section \<open>Operations\<close>

datatype parse_error =
    UnmarshalFailed unmarshal_error | MissingPieceLength | MissingPieces | MissingName

text \<open>\<open>ParseMetaInfo\<close>; an empty announce URL is only logged.\<close>

definition ParseMetaInfo :: "bytes \<Rightarrow> (parse_error, meta_info) go" where
  "ParseMetaInfo data =
     (case Unmarshal MetaInfoType (zero_of MetaInfoType) data of
        Inl (Error e) \<Rightarrow> Inl (Error (UnmarshalFailed e))
      | Inl (Panic p) \<Rightarrow> Inl (Panic p)
      | Inr v \<Rightarrow>
          let metaInfo = meta_info_of v in
            if PieceLength (Info metaInfo) = 0 then Inl (Error MissingPieceLength)
            else if length (Pieces (Info metaInfo)) = 0 then Inl (Error MissingPieces)
            else if Name (Info metaInfo) = [] then Inl (Error MissingName)
            else Inr metaInfo)"

text \<open>The structs of \<open>Files\<close> as the encoder meets them.\<close>

definition file_struct :: "file_entry \<Rightarrow> goval" where
  "file_struct f =
     GStruct [(str ''Length'', GInt KInt64 (FileLength f)),
              (str ''Path'', GSlice (map GString (FilePath f)))]"

definition infoDict :: "meta_info \<Rightarrow> goval" where
  "infoDict m = GMap
     ([(str ''piece length'', GIface (GInt KInt64 (PieceLength (Info m)))),
       (str ''pieces'', GIface (GString (Pieces (Info m)))),
       (str ''name'', GIface (GString (Name (Info m))))]
      @ (if Length (Info m) > 0
         then [(str ''length'', GIface (GInt KInt64 (Length (Info m))))]
         else [(str ''files'', GIface (GSlice (map file_struct (Files (Info m)))))]))"

definition InfoHash :: "meta_info \<Rightarrow> encode_error + bytes" where
  "InfoHash m =
     (case Encode (infoDict m) of
        Inl e \<Rightarrow> Inl e
      | Inr encodedInfo \<Rightarrow> Inr (sha1_Sum encodedInfo))"

definition TotalLength :: "meta_info \<Rightarrow> int" where
  "TotalLength m =
     (if Length (Info m) > 0 then Length (Info m)
      else foldl (\<lambda>total f. i64 (total + FileLength f)) 0 (Files (Info m)))"

definition NumPieces :: "meta_info \<Rightarrow> int" where
  "NumPieces m = int (length (Pieces (Info m))) sdiv 20"

datatype index_error = InvalidPieceIndex int

definition PieceHash :: "meta_info \<Rightarrow> int \<Rightarrow> index_error + bytes" where
  "PieceHash m index =
     (if index < 0 \<or> index \<ge> NumPieces m then Inl (InvalidPieceIndex index)
      else
        let start = nat (index * 20)
        in Inr (to_array 20 (take 20 (drop start (Pieces (Info m))))))"

section \<open>What parsing stores\<close>

definition dict_int :: "(bytes \<times> bval) list \<Rightarrow> bytes \<Rightarrow> int" where
  "dict_int d k = (case map_of d k of Some (BInt n) \<Rightarrow> n | _ \<Rightarrow> 0)"

definition dict_string :: "(bytes \<times> bval) list \<Rightarrow> bytes \<Rightarrow> bytes" where
  "dict_string d k = (case map_of d k of Some (BString s) \<Rightarrow> s | _ \<Rightarrow> [])"

lemma trunc_dict_int: "wf_bval (BDict d) \<Longrightarrow> trunc_int KInt64 (dict_int d k) = dict_int d k"
proof -
  assume wf: "wf_bval (BDict d)"
  have "in_i64 (dict_int d k)"
  proof (cases "map_of d k")
    case (Some v)
    then have "wf_bval v" using wf by (auto simp: list_all_iff dest: map_of_SomeD)
    with Some show ?thesis by (cases v) (auto simp: dict_int_def in_i64_def)
  qed (simp add: dict_int_def in_i64_def)
  then show ?thesis by (simp add: trunc_int_id in_kind_def in_i64_def)
qed

text \<open>The outcome of one field, and populating the fields one at a time.\<close>

definition field_result :: "gotype \<Rightarrow> goval \<Rightarrow> (bytes \<times> bval) list \<Rightarrow> bytes \<Rightarrow> (populate_error, goval) go" where
  "field_result t v m k = (case map_of m k of None \<Rightarrow> Inr v | Some d \<Rightarrow> populateValue t v d)"

lemma populateFields_Cons_iff:
  "populateFields ((name, tag, t) # fs) ((n, v) # vs) m = Inr xs \<longleftrightarrow>
     (\<exists>v' vs'. field_result t v m (field_key name tag) = Inr v' \<and> populateFields fs vs m = Inr vs'
        \<and> xs = (n, v') # vs')"
  by (auto simp: field_result_def split: sum.splits)

lemma field_result_string:
  "field_result TString (GString []) m k = Inr v \<Longrightarrow> v = GString (dict_string m k)"
  by (auto simp: field_result_def dict_string_def split: option.splits bval.splits)

lemma field_result_int:
  "field_result (TInt KInt64) (GInt KInt64 0) m k = Inr v \<Longrightarrow>
     v = GInt KInt64 (trunc_int KInt64 (dict_int m k))"
  by (auto simp: field_result_def dict_int_def trunc_int_def split: option.splits bval.splits)

lemma populate_info:
  assumes "populateValue InfoDictType (zero_of InfoDictType) d = Inr v" and "wf_bval d"
  obtains info where "d = BDict info"
    and "PieceLength (info_dict_of v) = dict_int info (str ''piece length'')"
    and "Pieces (info_dict_of v) = dict_string info (str ''pieces'')"
    and "Name (info_dict_of v) = dict_string info (str ''name'')"
    and "Length (info_dict_of v) = dict_int info (str ''length,omitempty'')"
    and "map_of info (str ''files,omitempty'') = None \<Longrightarrow> Files (info_dict_of v) = []"
proof -
  from assms(1) obtain info fs where d: "d = BDict info" and v: "v = GStruct fs"
      and fs: "populateFields
        [(str ''PieceLength'', str ''piece length'', TInt KInt64),
         (str ''Pieces'', str ''pieces'', TString),
         (str ''Name'', str ''name'', TString),
         (str ''Length'', str ''length,omitempty'', TInt KInt64),
         (str ''Files'', str ''files,omitempty'', TSlice FileEntryType)]
        [(str ''PieceLength'', GInt KInt64 0), (str ''Pieces'', GString []),
         (str ''Name'', GString []), (str ''Length'', GInt KInt64 0),
         (str ''Files'', GSlice [])] info = Inr fs"
    by (auto simp: InfoDictType_def simp del: populateFields.simps split: bval.splits sum.splits)
  from fs obtain v0 v1 v2 v3 v4 where "fs =
        [(str ''PieceLength'', v0), (str ''Pieces'', v1), (str ''Name'', v2), (str ''Length'', v3), (str ''Files'', v4)]"
      and f0: "field_result (TInt KInt64) (GInt KInt64 0) info (str ''piece length'') = Inr v0"
      and f1: "field_result TString (GString []) info (str ''pieces'') = Inr v1"
      and f2: "field_result TString (GString []) info (str ''name'') = Inr v2"
      and f3: "field_result (TInt KInt64) (GInt KInt64 0) info (str ''length,omitempty'') = Inr v3"
      and f4: "field_result (TSlice FileEntryType) (GSlice []) info (str ''files,omitempty'') = Inr v4"
    unfolding populateFields_Cons_iff by (auto simp: field_key_def str_Cons)
  moreover have "Files (info_dict_of v) = []" if "map_of info (str ''files,omitempty'') = None"
    using f4 v calculation(1) that by (auto simp: field_result_def info_dict_of_def)
  moreover have "wf_bval (BDict info)" using assms(2) d by simp
  note trunc_dict_int [OF this]
  ultimately show thesis
    using that [OF d] v field_result_int [OF f0] field_result_string [OF f1] field_result_string [OF f2]
      field_result_int [OF f3]
    by (simp add: info_dict_of_def)
qed

lemma populate_meta_info:
  assumes "populateValue MetaInfoType (zero_of MetaInfoType) d = Inr v" and "wf_bval d"
  obtains root where "d = BDict root"
    and "Announce (meta_info_of v) = dict_string root (str ''announce'')"
    and "field_result InfoDictType (zero_of InfoDictType) root (str ''info'') = Inr (field_at 1 v)"
proof -
  from assms(1) obtain root fs where d: "d = BDict root" and v: "v = GStruct fs"
      and fs: "populateFields
        [(str ''Announce'', str ''announce'', TString), (str ''Info'', str ''info'', InfoDictType)]
        [(str ''Announce'', GString []), (str ''Info'', zero_of InfoDictType)] root = Inr fs"
    by (auto simp: MetaInfoType_def simp del: populateFields.simps split: bval.splits sum.splits)
  from fs obtain v0 v1 where "fs = [(str ''Announce'', v0), (str ''Info'', v1)]"
      and f0: "field_result TString (GString []) root (str ''announce'') = Inr v0"
      and "field_result InfoDictType (zero_of InfoDictType) root (str ''info'') = Inr v1"
    unfolding populateFields_Cons_iff by (auto simp: field_key_def str_Cons)
  with d v field_result_string [OF f0] that show thesis
    by (simp add: meta_info_of_def)
qed

lemma zero_info: "info_dict_of (zero_of InfoDictType) =
    \<lparr>PieceLength = 0, Pieces = [], Name = [], Length = 0, Files = []\<rparr>"
  by (simp add: info_dict_of_def InfoDictType_def)

lemma ParseMetaInfo_Inr:
  assumes "ParseMetaInfo data = Inr m"
  obtains root info rest where "decodeValue data = Inr (BDict root, rest)"
    and "map_of root (str ''info'') = Some (BDict info)"
    and "Announce m = dict_string root (str ''announce'')"
    and "PieceLength (Info m) = dict_int info (str ''piece length'')"
    and "Pieces (Info m) = dict_string info (str ''pieces'')"
    and "Name (Info m) = dict_string info (str ''name'')"
    and "Length (Info m) = dict_int info (str ''length,omitempty'')"
    and "map_of info (str ''files,omitempty'') = None \<Longrightarrow> Files (Info m) = []"
    and "PieceLength (Info m) \<noteq> 0" and "Pieces (Info m) \<noteq> []" and "Name (Info m) \<noteq> []"
proof -
  from assms obtain v d rest where dec: "decodeValue data = Inr (d, rest)"
      and pop: "populateValue MetaInfoType (zero_of MetaInfoType) d = Inr v"
      and m: "m = meta_info_of v" and checks: "PieceLength (Info m) \<noteq> 0" "Pieces (Info m) \<noteq> []" "Name (Info m) \<noteq> []"
    by (auto simp: ParseMetaInfo_def Unmarshal_def Let_def split: sum.splits fault.splits if_splits)
  from dec have wf: "wf_bval d" by (auto simp: ben_iff_decodeValue ben_wf)
  from populate_meta_info [OF pop wf] obtain root where d: "d = BDict root"
      and ann: "Announce m = dict_string root (str ''announce'')"
      and fi: "field_result InfoDictType (zero_of InfoDictType) root (str ''info'') = Inr (field_at 1 v)"
    unfolding m by blast
  have info_m: "Info m = info_dict_of (field_at 1 v)"
    by (simp add: m meta_info_of_def)
  have "map_of root (str ''info'') \<noteq> None"
  proof
    assume "map_of root (str ''info'') = None"
    with fi have "field_at 1 v = zero_of InfoDictType" by (simp add: field_result_def)
    with checks(1) show False unfolding info_m by (simp add: zero_info)
  qed
  then obtain di where di: "map_of root (str ''info'') = Some di" by blast
  with wf d have "wf_bval di" by (auto simp: list_all_iff dest: map_of_SomeD)
  moreover from fi di have "populateValue InfoDictType (zero_of InfoDictType) di = Inr (field_at 1 v)"
    by (simp add: field_result_def)
  ultimately show thesis
    using populate_info dec d di ann checks that unfolding info_m by (metis (no_types, lifting))
qed

section \<open>Info hash, lengths and piece hashes\<close>

lemma encodeElems_structs: "(\<exists>b. encodeElems (map file_struct fs) = Inr b) \<longleftrightarrow> fs = []"
  by (cases fs) (auto simp: file_struct_def)

lemma encodable_infoDict: "encodable (infoDict m) \<longleftrightarrow> Length (Info m) > 0 \<or> Files (Info m) = []"
  by (cases "Files (Info m)") (auto simp: infoDict_def file_struct_def)

lemma InfoHash_Inr_iff:
  "(\<exists>h. InfoHash m = Inr h) \<longleftrightarrow> Length (Info m) > 0 \<or> Files (Info m) = []"
  using encodeValue_Inr_iff [of "infoDict m"] encodable_infoDict [of m]
  by (auto simp: InfoHash_def Encode_def infoDict_def split: sum.splits)

lemma foldl_i64_sum:
  assumes "\<forall>f \<in> set fs. 0 \<le> FileLength f" and "0 \<le> t" and "t + (\<Sum>f\<leftarrow>fs. FileLength f) < 2 ^ 63"
  shows "foldl (\<lambda>total f. i64 (total + FileLength f)) t fs = t + (\<Sum>f\<leftarrow>fs. FileLength f)"
  using assms
proof (induction fs arbitrary: t)
  case Nil
  then show ?case by simp
next
  case (Cons f fs)
  have "0 \<le> (\<Sum>f\<leftarrow>fs. FileLength f)"
    using Cons.prems(1) by (intro sum_list_nonneg) auto
  with Cons.prems have "i64 (t + FileLength f) = t + FileLength f"
    by (intro i64_id) auto
  with Cons show ?case by simp
qed

lemma NumPieces_nonneg: "0 \<le> NumPieces m"
  by (simp add: NumPieces_def signed_divide_int_def)

lemma NumPieces_div: "NumPieces m = int (length (Pieces (Info m)) div 20)"
  by (simp add: NumPieces_def signed_divide_int_def sgn_if zdiv_int)

lemma PieceHash_Inr:
  "0 \<le> i \<Longrightarrow> i < NumPieces m \<Longrightarrow>
     PieceHash m i = Inr (take 20 (drop (20 * nat i) (Pieces (Info m))))"
proof -
  assume i: "0 \<le> i" "i < NumPieces m"
  then have "20 * nat i + 20 \<le> length (Pieces (Info m))"
    by (simp add: NumPieces_div)
  moreover have "nat (i * 20) = 20 * nat i" using i by simp
  ultimately show ?thesis
    using i by (simp add: PieceHash_def Let_def)
qed

lemma concat_chunks:
  "n * k \<le> length xs \<Longrightarrow> concat (map (\<lambda>i. take k (drop (k * i) xs)) [0..<n]) = take (k * n) xs"
proof (induction n)
  case 0
  then show ?case by simp
next
  case (Suc n)
  have "take (k * n) xs @ take k (drop (k * n) xs) = take (k * n + k) xs"
    by (simp add: take_add)
  with Suc show ?case by (simp add: add.commute)
qed

text \<open>The \<open>info\<close> dictionary of a single-file torrent, as a decoded value.\<close>

definition info_bval :: "meta_info \<Rightarrow> bval" where
  "info_bval m = BDict
     [(str ''piece length'', BInt (PieceLength (Info m))),
      (str ''pieces'', BString (Pieces (Info m))),
      (str ''name'', BString (Name (Info m))),
      (str ''length'', BInt (Length (Info m)))]"

lemma infoDict_single: "Length (Info m) > 0 \<Longrightarrow> infoDict m = go_of (info_bval m)"
  by (simp add: infoDict_def info_bval_def)

text \<open>The bytes that stand for it.\<close>

definition info_bytes :: "meta_info \<Rightarrow> bytes" where
  "info_bytes m =
     str ''d6:lengthi'' @ FormatInt (Length (Info m)) @
     str ''e4:name'' @ FormatInt (int (length (Name (Info m)))) @ str '':'' @ Name (Info m) @
     str ''12:piece lengthi'' @ FormatInt (PieceLength (Info m)) @
     str ''e6:pieces'' @ FormatInt (int (length (Pieces (Info m)))) @ str '':'' @ Pieces (Info m) @ str ''e''"

lemma benc_info: "benc (info_bval m) = info_bytes m"
  by (simp add: info_bval_def info_bytes_def sort_entries_def bstring_def FormatInt_def fmt_nat.simps digit_byte_def str_def asc_def)

text \<open>A torrent file as a tracker would hand it out: one file of 7 bytes in pieces of 4.\<close>

definition sample_torrent :: bytes where
  "sample_torrent =
     str ''d4:infod6:lengthi7e4:name1:x12:piece lengthi4e6:pieces40:1234567890abcdefghij1234567890abcdefghijee''"

definition sample_info :: "(bytes \<times> bval) list" where
  "sample_info =
     [(str ''length'', BInt 7), (str ''name'', BString (str ''x'')),
      (str ''piece length'', BInt 4), (str ''pieces'', BString (str ''1234567890abcdefghij1234567890abcdefghij''))]"

lemma sample_decodes: "decodeValue sample_torrent = Inr (BDict [(str ''info'', BDict sample_info)], [])"
proof -
  have "wf_bval (BDict [(str ''info'', BDict sample_info)])"
    by (simp add: sample_info_def in_i64_def MaxInt32_def str_def asc_def)
  moreover have "benc (BDict [(str ''info'', BDict sample_info)]) = sample_torrent"
    by (simp add: sample_torrent_def sample_info_def sort_entries_def bstring_def FormatInt_def
        fmt_nat.simps digit_byte_def str_def asc_def)
  moreover have "canon (BDict [(str ''info'', BDict sample_info)]) = BDict [(str ''info'', BDict sample_info)]"
    by (simp add: sample_info_def sort_entries_def str_def asc_def)
  ultimately show ?thesis using decode_benc [of "BDict [(str ''info'', BDict sample_info)]" "[]"] by simp
qed

lemma sample_parses:
  "ParseMetaInfo sample_torrent = Inr
     \<lparr>Announce = [], Info =
       \<lparr>PieceLength = 4, Pieces = str ''1234567890abcdefghij1234567890abcdefghij'', Name = str ''x'',
        Length = 0, Files = []\<rparr>\<rparr>"
proof -
  have "trunc_int KInt64 4 = 4" by (rule trunc_int_id) (simp add: in_kind_def)
  then show ?thesis
    by (simp add: ParseMetaInfo_def Unmarshal_def sample_decodes MetaInfoType_def InfoDictType_def
        meta_info_of_def info_dict_of_def sample_info_def field_key_def str_def asc_def Let_def)
qed

section \<open>Properties\<close>

text \<open>
  C33: a torrent file that parses is a dictionary with an \<open>info\<close> dictionary in it; the announce
  URL, the piece length, the piece hashes and the name are the values of their keys. The last three
  are present and not empty or zero; the announce URL may be missing, and is empty then.
\<close>

theorem parse_reads_fields:
  assumes "ParseMetaInfo data = Inr m"
  shows "\<exists>root info rest. decodeValue data = Inr (BDict root, rest)
    \<and> map_of root (str ''info'') = Some (BDict info)
    \<and> Announce m = dict_string root (str ''announce'')
    \<and> (map_of root (str ''announce'') = None \<longrightarrow> Announce m = [])
    \<and> PieceLength (Info m) = dict_int info (str ''piece length'') \<and> PieceLength (Info m) \<noteq> 0
    \<and> Pieces (Info m) = dict_string info (str ''pieces'') \<and> Pieces (Info m) \<noteq> []
    \<and> Name (Info m) = dict_string info (str ''name'') \<and> Name (Info m) \<noteq> []"
proof -
  have none: "map_of r k = None \<Longrightarrow> dict_string r k = []" for r k by (simp add: dict_string_def)
  from assms show ?thesis
  proof (rule ParseMetaInfo_Inr)
    fix root info rest
    assume "decodeValue data = Inr (BDict root, rest)" "map_of root (str ''info'') = Some (BDict info)"
      "Announce m = dict_string root (str ''announce'')"
      "PieceLength (Info m) = dict_int info (str ''piece length'')" "PieceLength (Info m) \<noteq> 0"
      "Pieces (Info m) = dict_string info (str ''pieces'')" "Pieces (Info m) \<noteq> []"
      "Name (Info m) = dict_string info (str ''name'')" "Name (Info m) \<noteq> []"
    then show ?thesis using none [of root "str ''announce''"] by (intro exI conjI impI) simp_all
  qed
qed

theorem parse_reads_fields_witness:
  "\<exists>m root info rest. ParseMetaInfo sample_torrent = Inr m
    \<and> decodeValue sample_torrent = Inr (BDict root, rest)
    \<and> PieceLength (Info m) = dict_int info (str ''piece length'')"
  using parse_reads_fields [OF sample_parses] sample_parses by blast

text \<open>
  The keys \<open>length\<close> and \<open>files\<close> of a torrent file are never read. The struct tags carry the
  option \<open>omitempty\<close>, and \<open>populateValue\<close> looks the whole tag up as a key, so unless the file
  has a key spelled \<open>length,omitempty\<close> or \<open>files,omitempty\<close> the parsed torrent has length 0
  and no files, and its total length is 0.
\<close>

lemma parse_ignores_length_and_files:
  assumes "ParseMetaInfo data = Inr m" and "decodeValue data = Inr (BDict root, rest)"
    and "map_of root (str ''info'') = Some (BDict info)"
    and "map_of info (str ''length,omitempty'') = None"
    and "map_of info (str ''files,omitempty'') = None"
  shows "Length (Info m) = 0 \<and> Files (Info m) = [] \<and> TotalLength m = 0"
proof -
  from assms(1) have "Length (Info m) = 0 \<and> Files (Info m) = []"
    by (rule ParseMetaInfo_Inr) (use assms(2-) in \<open>auto simp: dict_int_def\<close>)
  then show ?thesis by (simp add: TotalLength_def)
qed

lemma parse_ignores_length_and_files_example:
  "map_of sample_info (str ''length'') = Some (BInt 7)
   \<and> (\<exists>m. ParseMetaInfo sample_torrent = Inr m \<and> Length (Info m) = 0 \<and> TotalLength m = 0)"
proof -
  have "map_of sample_info (str ''length'') = Some (BInt 7)"
    and "map_of sample_info (str ''length,omitempty'') = None"
    and "map_of sample_info (str ''files,omitempty'') = None"
    by (simp_all add: sample_info_def str_def asc_def)
  with parse_ignores_length_and_files [OF sample_parses sample_decodes] sample_parses
  show ?thesis by simp
qed

text \<open>
  C21: the info hash of a single-file torrent is the SHA-1 of these very bytes: the dictionary with the
  keys \<open>length\<close>, \<open>name\<close>, \<open>piece length\<close> and \<open>pieces\<close> in this order, its numbers in decimal, its strings
  after their length. If the numbers fit 64 bits and the strings two gigabytes, the program's own decoder
  finds that dictionary in these bytes.
\<close>

theorem info_hash_single_file:
  assumes "Length (Info m) > 0"
  shows "InfoHash m = Inr (sha1_Sum (info_bytes m))
    \<and> (wf_bval (info_bval m) \<longrightarrow> Decode (info_bytes m) = Inr (BDict
         [(str ''length'', BInt (Length (Info m))), (str ''name'', BString (Name (Info m))),
          (str ''piece length'', BInt (PieceLength (Info m))), (str ''pieces'', BString (Pieces (Info m)))]))"
proof -
  have b: "benc (info_bval m) = info_bytes m" by (rule benc_info)
  have "Encode (infoDict m) = Inr (benc (info_bval m))"
    using assms(1) by (simp add: infoDict_single Encode_def encodeValue_go_of) (simp add: info_bval_def)
  moreover have "Decode (benc (info_bval m)) = Inr (canon (info_bval m))" if "wf_bval (info_bval m)"
    using decode_benc [OF that, of "[]"] by (simp add: Decode_def)
  ultimately show ?thesis
    unfolding b by (simp add: InfoHash_def) (simp add: info_bval_def sort_entries_def str_def asc_def)
qed

theorem info_hash_single_file_witness:
  "InfoHash \<lparr>Announce = [], Info = \<lparr>PieceLength = 4, Pieces = str ''abc'', Name = str ''x'', Length = 7, Files = []\<rparr>\<rparr>
     = Inr (sha1_Sum (str ''d6:lengthi7e4:name1:x12:piece lengthi4e6:pieces3:abce''))"
proof -
  let ?m = "\<lparr>Announce = [], Info = \<lparr>PieceLength = 4, Pieces = str ''abc'', Name = str ''x'', Length = 7, Files = []\<rparr>\<rparr>"
  have "Length (Info ?m) > 0" by simp
  moreover have "info_bytes ?m = str ''d6:lengthi7e4:name1:x12:piece lengthi4e6:pieces3:abce''"
    by (simp add: info_bytes_def FormatInt_def fmt_nat.simps digit_byte_def str_def asc_def)
  ultimately show ?thesis using info_hash_single_file [of ?m] by simp
qed

text \<open>
  C22: \<open>PieceHash\<close> answers exactly the indices of the torrent's pieces, with 20 bytes each, and the
  hashes in order are the \<open>pieces\<close> string, up to an incomplete last hash.
\<close>

theorem piece_hashes_partition:
  "((\<exists>h. PieceHash m i = Inr h \<and> length h = 20) \<longleftrightarrow> 0 \<le> i \<and> i < NumPieces m)
   \<and> concat (map (\<lambda>i. projr (PieceHash m (int i))) [0..<nat (NumPieces m)])
       = take (20 * nat (NumPieces m)) (Pieces (Info m))"
proof
  show "(\<exists>h. PieceHash m i = Inr h \<and> length h = 20) \<longleftrightarrow> 0 \<le> i \<and> i < NumPieces m"
  proof (cases "0 \<le> i \<and> i < NumPieces m")
    case True
    then show ?thesis by (auto simp: PieceHash_def Let_def)
  qed (auto simp: PieceHash_def)
  have "map (\<lambda>i. projr (PieceHash m (int i))) [0..<nat (NumPieces m)] =
      map (\<lambda>i. take 20 (drop (20 * i) (Pieces (Info m)))) [0..<nat (NumPieces m)]"
    by (auto simp: PieceHash_Inr)
  moreover have "nat (NumPieces m) * 20 \<le> length (Pieces (Info m))"
    by (simp add: NumPieces_div)
  ultimately show "concat (map (\<lambda>i. projr (PieceHash m (int i))) [0..<nat (NumPieces m)])
       = take (20 * nat (NumPieces m)) (Pieces (Info m))"
    by (simp only: concat_chunks)
qed

end
