(* ===== verification/OsFs.thy ===== *)
theory OsFs
  imports GoLib
begin

text \<open>
  The file system as \<open>os\<close> and \<open>path/filepath\<close> show it to \<open>internal/file/file.go\<close>: cleaned
  paths, a tree of directories and regular files (no links), and the calls the program makes. An open file
  is known by its path, so two handles of one file share its contents. Which system calls
  fail is up to the environment, a parameter of every operation.
\<close>

section \<open>Paths\<close>

text \<open>A cleaned path: whether it is absolute, and its components.\<close>

type_synonym path = "bool \<times> bytes list"

definition slash :: byte where "slash = asc (CHR ''/'')"

fun split_slash :: "bytes \<Rightarrow> bytes list" where
  "split_slash [] = [[]]"
| "split_slash (c # cs) =
     (if c = slash then [] # split_slash cs
      else (case split_slash cs of [] \<Rightarrow> [[c]] | w # ws \<Rightarrow> (c # w) # ws))"

text \<open>The loop of \<open>filepath.Clean\<close>: the components kept so far, newest first.\<close>

fun clean_comps :: "bool \<Rightarrow> bytes list \<Rightarrow> bytes list \<Rightarrow> bytes list" where
  "clean_comps rooted acc [] = rev acc"
| "clean_comps rooted acc (w # ws) =
     (if w = [] \<or> w = str ''.'' then clean_comps rooted acc ws
      else if w = str ''..'' then
        (case acc of
           [] \<Rightarrow> clean_comps rooted (if rooted then [] else [w]) ws
         | a # as \<Rightarrow> if a = str ''..'' then clean_comps rooted (w # acc) ws else clean_comps rooted as ws)
      else clean_comps rooted (w # acc) ws)"

definition Clean :: "bytes \<Rightarrow> path" where
  "Clean p = (case p of
      [] \<Rightarrow> (False, [])
    | c # cs \<Rightarrow> (c = slash, clean_comps (c = slash) [] (split_slash p)))"

text \<open>\<open>filepath.Join\<close> of a cleaned path, or of a string, and one more element.\<close>

definition path_append :: "path \<Rightarrow> bytes \<Rightarrow> path" where
  "path_append p s = (fst p, clean_comps (fst p) (rev (snd p)) (split_slash s))"

definition Join :: "bytes \<Rightarrow> bytes \<Rightarrow> path" where
  "Join base s = (if base = [] then Clean s else path_append (Clean base) s)"

definition Dir :: "path \<Rightarrow> path" where
  "Dir p = (fst p, butlast (snd p))"

section \<open>Files, directories and calls\<close>

datatype node = FileNode bytes | DirNode

type_synonym fsys = "path \<Rightarrow> node option"

datatype os_error =
    ENOENT | ENOTDIR | EISDIR | EINVAL | EBADF | NegativeOffset | ErrClosed | Denied

text \<open>An \<open>*os.File\<close>: the file it was opened on, and whether it is still open.\<close>

record os_file =
  file_path :: path
  is_open :: bool

datatype os_call =
    MkdirCall path | OpenCall path | CreateCall path | TruncateCall path int
  | WriteAtCall path int | StatCall path | SeekCall path int | ReadCall path int
  | SyncCall path | CloseCall path

text \<open>
  The environment: \<open>None\<close> lets a call through, \<open>Some k\<close> makes it fail, a write after its
  first \<open>k\<close> bytes.
\<close>

type_synonym os_env = "os_call \<Rightarrow> nat option"

definition healthy :: os_env where
  "healthy = (\<lambda>_. None)"

definition node_at :: "fsys \<Rightarrow> path \<Rightarrow> node option" where
  "node_at fs p = (if snd p = [] then Some DirNode else fs p)"

fun mkdir_prefixes :: "os_env \<Rightarrow> bool \<Rightarrow> bytes list \<Rightarrow> bytes list \<Rightarrow> fsys \<Rightarrow> fsys \<times> os_error option" where
  "mkdir_prefixes env rooted done [] fs = (fs, None)"
| "mkdir_prefixes env rooted done (c # cs) fs =
     (let p = (rooted, done @ [c]) in
      case node_at fs p of
        Some DirNode \<Rightarrow> mkdir_prefixes env rooted (done @ [c]) cs fs
      | Some (FileNode b) \<Rightarrow> (fs, Some ENOTDIR)
      | None \<Rightarrow>
          (case env (MkdirCall p) of
             Some k \<Rightarrow> (fs, Some Denied)
           | None \<Rightarrow> mkdir_prefixes env rooted (done @ [c]) cs (fs(p \<mapsto> DirNode))))"

definition MkdirAll :: "os_env \<Rightarrow> fsys \<Rightarrow> path \<Rightarrow> fsys \<times> os_error option" where
  "MkdirAll env fs p = mkdir_prefixes env (fst p) [] (snd p) fs"

text \<open>\<open>OpenFile\<close> with \<open>O_RDWR|O_CREATE\<close>, and \<open>Create\<close>, which also empties the file.\<close>

definition new_file :: "fsys \<Rightarrow> path \<Rightarrow> os_error + fsys" where
  "new_file fs p =
     (case node_at fs (Dir p) of
        Some DirNode \<Rightarrow> Inr (fs(p \<mapsto> FileNode []))
      | Some (FileNode b) \<Rightarrow> Inl ENOTDIR
      | None \<Rightarrow> Inl ENOENT)"

definition OpenFile :: "os_env \<Rightarrow> fsys \<Rightarrow> path \<Rightarrow> os_error + fsys" where
  "OpenFile env fs p =
     (case env (OpenCall p) of
        Some k \<Rightarrow> Inl Denied
      | None \<Rightarrow>
          (case node_at fs p of
             Some DirNode \<Rightarrow> Inl EISDIR
           | Some (FileNode b) \<Rightarrow> Inr fs
           | None \<Rightarrow> new_file fs p))"

definition CreateFile :: "os_env \<Rightarrow> fsys \<Rightarrow> path \<Rightarrow> os_error + fsys" where
  "CreateFile env fs p =
     (case env (CreateCall p) of
        Some k \<Rightarrow> Inl Denied
      | None \<Rightarrow>
          (case node_at fs p of
             Some DirNode \<Rightarrow> Inl EISDIR
           | Some (FileNode b) \<Rightarrow> Inr (fs(p \<mapsto> FileNode []))
           | None \<Rightarrow> new_file fs p))"

definition resize :: "nat \<Rightarrow> bytes \<Rightarrow> bytes" where
  "resize n b = take n (b @ replicate n 0)"

lemma length_resize [simp]: "length (resize n b) = n"
  by (simp add: resize_def)

text \<open>
  Writing at an offset: the bytes before it stay (a gap is filled with zeros), then the data,
  then what the file had after it.
\<close>

definition overwrite :: "nat \<Rightarrow> bytes \<Rightarrow> bytes \<Rightarrow> bytes" where
  "overwrite off data b = resize off b @ data @ drop (off + length data) b"

text \<open>The contents behind an open handle; a closed handle answers every call with \<open>ErrClosed\<close>.\<close>

definition open_contents :: "fsys \<Rightarrow> os_file \<Rightarrow> os_error + bytes" where
  "open_contents fs f =
     (if \<not> is_open f then Inl ErrClosed
      else (case fs (file_path f) of Some (FileNode b) \<Rightarrow> Inr b | _ \<Rightarrow> Inl EBADF))"

definition Truncate :: "os_env \<Rightarrow> fsys \<Rightarrow> os_file \<Rightarrow> int \<Rightarrow> os_error + fsys" where
  "Truncate env fs f n =
     (case open_contents fs f of
        Inl e \<Rightarrow> Inl e
      | Inr b \<Rightarrow>
          (case env (TruncateCall (file_path f) n) of
             Some k \<Rightarrow> Inl Denied
           | None \<Rightarrow> if n < 0 then Inl EINVAL else Inr (fs(file_path f \<mapsto> FileNode (resize (nat n) b)))))"

text \<open>
  \<open>WriteAt\<close> refuses a negative offset first and makes no call for no bytes, so it succeeds with them on
  a closed file, too.
\<close>

definition WriteAt :: "os_env \<Rightarrow> fsys \<Rightarrow> os_file \<Rightarrow> bytes \<Rightarrow> int \<Rightarrow> fsys \<times> os_error option" where
  "WriteAt env fs f data off =
     (if off < 0 then (fs, Some NegativeOffset)
      else if data = [] then (fs, None)
      else
        (case open_contents fs f of
           Inl e \<Rightarrow> (fs, Some e)
         | Inr b \<Rightarrow>
             (case env (WriteAtCall (file_path f) off) of
                Some k \<Rightarrow>
                  (if k = 0 then fs
                   else fs(file_path f \<mapsto> FileNode (overwrite (nat off) (take k data) b)), Some Denied)
              | None \<Rightarrow> (fs(file_path f \<mapsto> FileNode (overwrite (nat off) data b)), None))))"

definition Stat_Size :: "os_env \<Rightarrow> fsys \<Rightarrow> os_file \<Rightarrow> os_error + int" where
  "Stat_Size env fs f =
     (case open_contents fs f of
        Inl e \<Rightarrow> Inl e
      | Inr b \<Rightarrow>
          (case env (StatCall (file_path f)) of Some k \<Rightarrow> Inl Denied | None \<Rightarrow> Inr (int (length b))))"

text \<open>
  \<open>Seek\<close> to an offset and \<open>Read\<close> into a buffer of \<open>n\<close> bytes: a regular file fills the buffer as far
  as its contents reach, at most one gigabyte in a call (\<open>maxRW\<close> of \<open>internal/poll\<close>).
\<close>

definition Seek_Start :: "os_env \<Rightarrow> fsys \<Rightarrow> os_file \<Rightarrow> int \<Rightarrow> os_error option" where
  "Seek_Start env fs f off =
     (case open_contents fs f of
        Inl e \<Rightarrow> Some e
      | Inr b \<Rightarrow>
          (case env (SeekCall (file_path f) off) of
             Some k \<Rightarrow> Some Denied
           | None \<Rightarrow> if off < 0 then Some EINVAL else None))"

definition max_rw :: nat where
  "max_rw = 1073741824"

definition Read_From :: "os_env \<Rightarrow> fsys \<Rightarrow> os_file \<Rightarrow> int \<Rightarrow> nat \<Rightarrow> os_error + bytes" where
  "Read_From env fs f off n =
     (case open_contents fs f of
        Inl e \<Rightarrow> Inl e
      | Inr b \<Rightarrow>
          (case env (ReadCall (file_path f) off) of
             Some k \<Rightarrow> Inl Denied
           | None \<Rightarrow> Inr (take (min n max_rw) (drop (nat off) b))))"

definition Sync_File :: "os_env \<Rightarrow> os_file \<Rightarrow> os_error option" where
  "Sync_File env f =
     (if \<not> is_open f then Some ErrClosed
      else (case env (SyncCall (file_path f)) of Some k \<Rightarrow> Some Denied | None \<Rightarrow> None))"

text \<open>\<open>Close\<close> releases the handle even when it reports an error.\<close>

definition Close_File :: "os_env \<Rightarrow> os_file \<Rightarrow> os_file \<times> os_error option" where
  "Close_File env f =
     (if \<not> is_open f then (f, Some ErrClosed)
      else (f\<lparr>is_open := False\<rparr>,
            case env (CloseCall (file_path f)) of Some k \<Rightarrow> Some Denied | None \<Rightarrow> None))"

section \<open>Facts\<close>

lemma length_overwrite: "length (overwrite off data b) = max (off + length data) (length b)"
  by (auto simp: overwrite_def)

lemma overwrite_inside:
  "off + length data \<le> length b \<Longrightarrow>
     overwrite off data b = take off b @ data @ drop (off + length data) b"
  by (simp add: overwrite_def resize_def)

lemma split_slash_nonempty [simp]: "split_slash p \<noteq> []"
  by (cases p) (auto split: list.splits)

end
