(* ===== verification/FileManager.thy ===== *)
theory FileManager
  imports OsFs
begin

text \<open>
  \<open>internal/file/file.go\<close>: the file manager, which stores the pieces of a torrent in its files. The
  files of the torrent are one after the other a flat sequence of bytes; \<open>WritePiece\<close> splices a
  block into it and \<open>ReadPiece\<close> cuts one out. The mutex makes each operation one step, so an
  operation is a function of the file system and of the manager.
\<close>

section \<open>State\<close>

text \<open>\<open>common.TorrentFile\<close>, \<open>FileInfo\<close> and \<open>FileManager\<close>. A nil \<open>*FileInfo\<close> is \<open>None\<close>.\<close>

record torrent_file =
  TPath :: bytes
  TLength :: int

record file_info =
  File :: os_file
  FLength :: int

record file_manager =
  baseDir :: bytes
  files :: "file_info option list"
  pieceSize :: int
  pieceOffsets :: "int list"
  totalLength :: int
  numPieces :: int

definition NewFileManager :: "bytes \<Rightarrow> file_manager" where
  "NewFileManager base =
     \<lparr>baseDir = base, files = [], pieceSize = 0, pieceOffsets = [], totalLength = 0, numPieces = 0\<rparr>"

definition count_pieces :: "int \<Rightarrow> int \<Rightarrow> int" where
  "count_pieces len n = i64 (i64 (i64 (len + n) - 1) sdiv n)"

text \<open>Both setters divide by the piece size, which is zero until \<open>SetPieceSize\<close> has run.\<close>

definition SetPieceSize :: "file_manager \<Rightarrow> int \<Rightarrow> ('e, file_manager) go" where
  "SetPieceSize fm n =
     (if n = 0 then Inl (Panic DivideByZero)
      else Inr (fm\<lparr>pieceSize := n, numPieces := count_pieces (totalLength fm) n\<rparr>))"

definition SetTotalLength :: "file_manager \<Rightarrow> int \<Rightarrow> ('e, file_manager) go" where
  "SetTotalLength fm n =
     (if pieceSize fm = 0 then Inl (Panic DivideByZero)
      else Inr (fm\<lparr>totalLength := n, numPieces := count_pieces n (pieceSize fm)\<rparr>))"

section \<open>Opening and creating the files\<close>

text \<open>
  The loop of \<open>Initialize\<close>: the entries before the one that fails stay open, the ones after it
  stay nil, and the offsets seen so far are kept.
\<close>

fun init_loop ::
  "os_env \<Rightarrow> torrent_file list \<Rightarrow> nat \<Rightarrow> int \<Rightarrow> fsys \<Rightarrow> file_manager
     \<Rightarrow> fsys \<times> file_manager \<times> (os_error + int)" where
  "init_loop env [] i offset fs fm = (fs, fm, Inr offset)"
| "init_loop env (tf # tfs) i offset fs fm =
     (let filePath = Join (baseDir fm) (TPath tf) in
      case MkdirAll env fs (Dir filePath) of
        (fs1, Some e) \<Rightarrow> (fs1, fm, Inl e)
      | (fs1, None) \<Rightarrow>
          (case OpenFile env fs1 filePath of
             Inl e \<Rightarrow> (fs1, fm, Inl e)
           | Inr fs2 \<Rightarrow>
               init_loop env tfs (Suc i) (i64 (offset + TLength tf)) fs2
                 (fm\<lparr>files := (files fm)[i := Some \<lparr>File = \<lparr>file_path = filePath, is_open = True\<rparr>,
                                               FLength = TLength tf\<rparr>],
                    pieceOffsets := pieceOffsets fm @ [offset]\<rparr>)))"

definition Initialize ::
  "os_env \<Rightarrow> fsys \<Rightarrow> file_manager \<Rightarrow> torrent_file list \<Rightarrow> fsys \<times> file_manager \<times> os_error option" where
  "Initialize env fs fm tfs =
     (case init_loop env tfs 0 0 fs (fm\<lparr>files := replicate (length tfs) None\<rparr>) of
        (fs1, fm1, Inl e) \<Rightarrow> (fs1, fm1, Some e)
      | (fs1, fm1, Inr offset) \<Rightarrow>
          (fs1,
           fm1\<lparr>totalLength := offset,
               pieceOffsets := pieceOffsets fm1 @ [offset],
               numPieces := (if pieceSize fm1 > 0 then count_pieces offset (pieceSize fm1) else 1)\<rparr>,
           None))"

datatype create_error =
    CreateDirectoryFailed path os_error | CreateFileFailed path os_error | SetSizeFailed path os_error

text \<open>The file of index 0 is the torrent's name itself, the others are files below that name.\<close>

definition created_path :: "bytes \<Rightarrow> bytes \<Rightarrow> nat \<Rightarrow> path" where
  "created_path base name i =
     (let filePath = Join base name
      in if i > 0 then path_append filePath (str ''file_'' @ FormatInt (int i)) else filePath)"

fun create_loop :: "os_env \<Rightarrow> bytes \<Rightarrow> bytes \<Rightarrow> int list \<Rightarrow> nat \<Rightarrow> fsys \<Rightarrow> fsys \<times> create_error option" where
  "create_loop env base name [] i fs = (fs, None)"
| "create_loop env base name (n # ns) i fs =
     (let filePath = created_path base name i in
      case MkdirAll env fs (Dir filePath) of
        (fs1, Some e) \<Rightarrow> (fs1, Some (CreateDirectoryFailed (Dir filePath) e))
      | (fs1, None) \<Rightarrow>
          (case CreateFile env fs1 filePath of
             Inl e \<Rightarrow> (fs1, Some (CreateFileFailed filePath e))
           | Inr fs2 \<Rightarrow>
               (case Truncate env fs2 \<lparr>file_path = filePath, is_open = True\<rparr> n of
                  Inl e \<Rightarrow> (fs2, Some (SetSizeFailed filePath e))
                | Inr fs3 \<Rightarrow> create_loop env base name ns (Suc i) fs3)))"

definition CreateFiles ::
  "os_env \<Rightarrow> fsys \<Rightarrow> file_manager \<Rightarrow> bytes \<Rightarrow> int list \<Rightarrow> fsys \<times> create_error option" where
  "CreateFiles env fs fm name lengths = create_loop env (baseDir fm) name lengths 0 fs"

section \<open>Writing and reading pieces\<close>

definition min_int64 :: "int \<Rightarrow> int \<Rightarrow> int" where
  "min_int64 a b = (if a < b then a else b)"

datatype file_error = WriteFailed nat os_error | OsFailed os_error

definition piece_offset :: "file_manager \<Rightarrow> int \<Rightarrow> int \<Rightarrow> int" where
  "piece_offset fm index begin = i64 (i64 (index * pieceSize fm) + begin)"

text \<open>
  The loop of \<open>WritePiece\<close> goes by the declared lengths: files that end before the offset are
  skipped; data that reaches past the last file is dropped without an error.
\<close>

fun write_loop ::
  "os_env \<Rightarrow> nat \<Rightarrow> file_info option list \<Rightarrow> int \<Rightarrow> bytes \<Rightarrow> fsys \<Rightarrow> fsys \<times> (file_error, unit) go" where
  "write_loop env i [] pieceOffset remainingData fs = (fs, Inr ())"
| "write_loop env i (None # fis) pieceOffset remainingData fs = (fs, Inl (Panic NilDereference))"
| "write_loop env i (Some fileInfo # fis) pieceOffset remainingData fs =
     (if pieceOffset \<ge> FLength fileInfo then
        write_loop env (Suc i) fis (i64 (pieceOffset - FLength fileInfo)) remainingData fs
      else
        let writeLength = min_int64 (int (length remainingData)) (i64 (FLength fileInfo - pieceOffset)) in
          if writeLength < 0 then (fs, Inl (Panic SliceOutOfRange))
          else
            (case WriteAt env fs (File fileInfo) (take (nat writeLength) remainingData) pieceOffset of
               (fs1, Some e) \<Rightarrow> (fs1, Inl (Error (WriteFailed i e)))
             | (fs1, None) \<Rightarrow>
                 let remainingData' = drop (nat writeLength) remainingData in
                   if length remainingData' = 0 then (fs1, Inr ())
                   else write_loop env (Suc i) fis 0 remainingData' fs1))"

definition WritePiece ::
  "os_env \<Rightarrow> fsys \<Rightarrow> file_manager \<Rightarrow> int \<Rightarrow> int \<Rightarrow> bytes \<Rightarrow> fsys \<times> (file_error, unit) go" where
  "WritePiece env fs fm index offset data =
     write_loop env 0 (files fm) (piece_offset fm index offset) data fs"

text \<open>
  The loop of \<open>ReadPiece\<close> goes by the sizes the files have on disk; \<open>data\<close> holds the bytes read so
  far and \<open>n\<close> the length asked for.
\<close>

fun read_loop ::
  "os_env \<Rightarrow> fsys \<Rightarrow> file_info option list \<Rightarrow> int \<Rightarrow> nat \<Rightarrow> bytes \<Rightarrow> (file_error, bytes) go" where
  "read_loop env fs [] offset n data = Inr data"
| "read_loop env fs (None # fis) offset n data = Inl (Panic NilDereference)"
| "read_loop env fs (Some file # fis) offset n data =
     (case Stat_Size env fs (File file) of
        Inl e \<Rightarrow> Inl (Error (OsFailed e))
      | Inr fileSize \<Rightarrow>
          if offset \<ge> fileSize then read_loop env fs fis (i64 (offset - fileSize)) n data
          else
            (case Seek_Start env fs (File file) offset of
               Some e \<Rightarrow> Inl (Error (OsFailed e))
             | None \<Rightarrow>
                 (case Read_From env fs (File file) offset (n - length data) of
                    Inl e \<Rightarrow> Inl (Error (OsFailed e))
                  | Inr got \<Rightarrow>
                      let data' = data @ got in
                        if length data' = n then Inr data'
                        else read_loop env fs fis 0 n data')))"

text \<open>\<open>make\<close> panics on a negative length and on one beyond the address space.\<close>

definition max_alloc :: int where
  "max_alloc = 2 ^ 48"

definition ReadPiece ::
  "os_env \<Rightarrow> fsys \<Rightarrow> file_manager \<Rightarrow> int \<Rightarrow> int \<Rightarrow> int \<Rightarrow> (file_error, bytes) go" where
  "ReadPiece env fs fm index begin n =
     (if n < 0 \<or> n > max_alloc then Inl (Panic MakeSliceLen)
      else read_loop env fs (files fm) (piece_offset fm index begin) (nat n) [])"

section \<open>Flushing and closing\<close>

fun flush_loop :: "os_env \<Rightarrow> file_info option list \<Rightarrow> (os_error, unit) go" where
  "flush_loop env [] = Inr ()"
| "flush_loop env (None # fis) = Inl (Panic NilDereference)"
| "flush_loop env (Some file # fis) =
     (case Sync_File env (File file) of
        Some e \<Rightarrow> Inl (Error e)
      | None \<Rightarrow> flush_loop env fis)"

definition Flush :: "os_env \<Rightarrow> file_manager \<Rightarrow> (os_error, unit) go" where
  "Flush env fm = flush_loop env (files fm)"

fun close_loop :: "os_env \<Rightarrow> file_info option list \<Rightarrow> file_info option list \<times> (os_error, unit) go" where
  "close_loop env [] = ([], Inr ())"
| "close_loop env (None # fis) = (None # fis, Inl (Panic NilDereference))"
| "close_loop env (Some file # fis) =
     (case Close_File env (File file) of
        (f, Some e) \<Rightarrow> (Some (file\<lparr>File := f\<rparr>) # fis, Inl (Error e))
      | (f, None) \<Rightarrow>
          (case close_loop env fis of (fis', r) \<Rightarrow> (Some (file\<lparr>File := f\<rparr>) # fis', r)))"

definition Close_Manager :: "os_env \<Rightarrow> file_manager \<Rightarrow> file_manager \<times> (os_error, unit) go" where
  "Close_Manager env fm =
     (case close_loop env (files fm) of
        (fis, Inl e) \<Rightarrow> (fm\<lparr>files := fis\<rparr>, Inl e)
      | (fis, Inr _) \<Rightarrow> (fm\<lparr>files := []\<rparr>, Inr ()))"

end
