(* ===== verification/Torrent.thy ===== *)
theory Torrent
  imports MetaInfo FileManager
begin

text \<open>
  The download state of \<open>internal/torrent/torrent.go\<close>: the pieces, the counters, and the operations
  that store, verify and account for the blocks that arrive. Each of them runs under the
  torrent's mutex and is a function of the file system and of the torrent.
\<close>

section \<open>State\<close>

record piece =
  Index :: int
  Hash :: bytes
  PLength :: int
  PData :: bytes
  PDownloaded :: bool

text \<open>
  The torrent's file manager is nil until \<open>SetFileManager\<close>. Times are nanoseconds; a peer in
  \<open>activePeers\<close> is a reference. The rate limiter, the ticker and the DHT node are library
  objects and are left out; of the channel \<open>progressDone\<close> we keep whether it is closed.
\<close>

type_synonym peer_ref = nat

record torrent =
  metaInfo :: meta_info
  peerID :: bytes
  TPieces :: "piece list"
  Downloaded :: int
  Uploaded :: int
  Left :: int
  ActivePeers :: int
  failedPeers :: "bytes \<rightharpoonup> int"
  fileManager :: "file_manager option"
  startTime :: int
  progressClosed :: bool
  PieceSize :: int
  activePeers :: "bytes \<rightharpoonup> peer_ref"

section \<open>Creation\<close>

definition calculatePieceLength :: "meta_info \<Rightarrow> int \<Rightarrow> int" where
  "calculatePieceLength m index =
     (if PieceLength (Info m) = 0 then 0
      else if index = NumPieces m - 1 then TotalLength m smod PieceLength (Info m)
      else PieceLength (Info m))"

datatype new_error =
    InvalidNumberOfPieces int | PieceHashFailed int index_error | InfoHashFailed encode_error

text \<open>The loop of \<open>NewTorrent\<close> over the indices still to do.\<close>

fun make_pieces :: "meta_info \<Rightarrow> nat list \<Rightarrow> new_error + piece list" where
  "make_pieces m [] = Inr []"
| "make_pieces m (i # is) =
     (case PieceHash m (int i) of
        Inl e \<Rightarrow> Inl (PieceHashFailed (int i) e)
      | Inr h \<Rightarrow>
          (case make_pieces m is of
             Inl e \<Rightarrow> Inl e
           | Inr ps \<Rightarrow>
               Inr (\<lparr>Index = int i, Hash = h, PLength = calculatePieceLength m (int i),
                     PData = [], PDownloaded = False\<rparr> # ps)))"

definition generatePeerID :: "random \<Rightarrow> bytes \<times> random" where
  "generatePeerID src = rand_Read 20 src"

text \<open>The peer id is one of \<open>generatePeerID\<close>, the start time the clock's.\<close>

definition NewTorrent :: "bytes \<Rightarrow> int \<Rightarrow> meta_info \<Rightarrow> new_error + torrent" where
  "NewTorrent peer_id now m =
     (let n = NumPieces m in
      if n \<le> 0 then Inl (InvalidNumberOfPieces n)
      else
        (case make_pieces m [0..<nat n] of
           Inl e \<Rightarrow> Inl e
         | Inr ps \<Rightarrow>
             (case InfoHash m of
                Inl e \<Rightarrow> Inl (InfoHashFailed e)
              | Inr _ \<Rightarrow>
                  Inr \<lparr>metaInfo = m, peerID = peer_id, TPieces = ps, Downloaded = 0, Uploaded = 0,
                       Left = TotalLength m, ActivePeers = 0, failedPeers = Map.empty,
                       fileManager = None, startTime = now, progressClosed = False,
                       PieceSize = PieceLength (Info m), activePeers = Map.empty\<rparr>)))"

fun join_with :: "bytes \<Rightarrow> bytes list \<Rightarrow> bytes" where
  "join_with sep [] = []"
| "join_with sep [s] = s"
| "join_with sep (s # ss) = s @ sep @ join_with sep ss"

definition torrent_files :: "meta_info \<Rightarrow> torrent_file list" where
  "torrent_files m =
     (let fs = map (\<lambda>f. \<lparr>TPath = join_with (str ''/'') (FilePath f), TLength = FileLength f\<rparr>) (Files (Info m))
      in if fs = [] then [\<lparr>TPath = Name (Info m), TLength = Length (Info m)\<rparr>] else fs)"

text \<open>\<open>SetFileManager\<close> shares the manager with its caller; the setters panic on a zero piece length.\<close>

definition SetFileManager ::
  "os_env \<Rightarrow> fsys \<Rightarrow> torrent \<Rightarrow> file_manager \<Rightarrow> fsys \<times> torrent \<times> (os_error, unit) go" where
  "SetFileManager env fs t fm =
     (case Initialize env fs fm (torrent_files (metaInfo t)) of
        (fs1, fm1, Some e) \<Rightarrow> (fs1, t\<lparr>fileManager := Some fm1\<rparr>, Inl (Error e))
      | (fs1, fm1, None) \<Rightarrow>
          (case SetPieceSize fm1 (PieceLength (Info (metaInfo t))) of
             Inl e \<Rightarrow> (fs1, t\<lparr>fileManager := Some fm1\<rparr>, Inl e)
           | Inr fm2 \<Rightarrow>
               (case SetTotalLength fm2 (TotalLength (metaInfo t)) of
                  Inl e \<Rightarrow> (fs1, t\<lparr>fileManager := Some fm2\<rparr>, Inl e)
                | Inr fm3 \<Rightarrow> (fs1, t\<lparr>fileManager := Some fm3\<rparr>, Inr ()))))"

section \<open>Verifying and processing pieces\<close>

datatype verify_error = ReadPieceFailed nat file_error | HashMismatch nat

definition set_downloaded :: "nat \<Rightarrow> torrent \<Rightarrow> torrent" where
  "set_downloaded i t = t\<lparr>TPieces := (TPieces t)[i := (TPieces t ! i)\<lparr>PDownloaded := True\<rparr>]\<rparr>"

definition verifyPiece :: "os_env \<Rightarrow> fsys \<Rightarrow> torrent \<Rightarrow> nat \<Rightarrow> torrent \<times> (verify_error, unit) go" where
  "verifyPiece env fs t i =
     (if i \<ge> length (TPieces t) then (t, Inl (Panic IndexOutOfRange))
      else
        (case fileManager t of
           None \<Rightarrow> (t, Inl (Panic NilDereference))
         | Some fm \<Rightarrow>
             (case ReadPiece env fs fm (int i) 0 (PLength (TPieces t ! i)) of
                Inl (Panic p) \<Rightarrow> (t, Inl (Panic p))
              | Inl (Error e) \<Rightarrow> (t, Inl (Error (ReadPieceFailed i e)))
              | Inr data \<Rightarrow>
                  if sha1_Sum data \<noteq> Hash (TPieces t ! i) then (t, Inl (Error (HashMismatch i)))
                  else (set_downloaded i t, Inr ()))))"

text \<open>Both counters move together; they are 64-bit integers.\<close>

definition count_bytes :: "int \<Rightarrow> torrent \<Rightarrow> torrent" where
  "count_bytes n t = t\<lparr>Downloaded := i64 (Downloaded t + n), Left := i64 (Left t - n)\<rparr>"

datatype process_error = WritePieceFailed nat file_error | PieceFailedVerification nat verify_error

definition processPiece ::
  "os_env \<Rightarrow> fsys \<Rightarrow> torrent \<Rightarrow> nat \<Rightarrow> int \<Rightarrow> bytes \<Rightarrow> fsys \<times> torrent \<times> (process_error, unit) go" where
  "processPiece env fs t i begin data =
     (if i \<ge> length (TPieces t) then (fs, t, Inl (Panic IndexOutOfRange))
      else if PDownloaded (TPieces t ! i) then (fs, t, Inr ())
      else
        (case fileManager t of
           None \<Rightarrow> (fs, t, Inl (Panic NilDereference))
         | Some fm \<Rightarrow>
             (case WritePiece env fs fm (int i) begin data of
                (fs1, Inl (Panic p)) \<Rightarrow> (fs1, t, Inl (Panic p))
              | (fs1, Inl (Error e)) \<Rightarrow> (fs1, t, Inl (Error (WritePieceFailed i e)))
              | (fs1, Inr _) \<Rightarrow>
                  let t1 = count_bytes (int (length data)) t in
                  if i64 (begin + int (length data)) = PLength (TPieces t ! i) then
                    (case verifyPiece env fs1 t1 i of
                       (t2, Inl (Panic p)) \<Rightarrow> (fs1, t2, Inl (Panic p))
                     | (t2, Inl (Error e)) \<Rightarrow>
                         (fs1, count_bytes (- PLength (TPieces t ! i)) t2,
                          Inl (Error (PieceFailedVerification i e)))
                     | (t2, Inr _) \<Rightarrow> (fs1, set_downloaded i t2, Inr ()))
                  else (fs1, t1, Inr ()))))"

definition isComplete :: "torrent \<Rightarrow> bool" where
  "isComplete t = list_all PDownloaded (TPieces t)"

text \<open>
  The first loop of \<open>verifyDownload\<close>, over the indices still to do. The loop variable is a copy of
  the piece: clearing its flag after a failure does not reach the torrent.
\<close>

fun verify_loop :: "os_env \<Rightarrow> fsys \<Rightarrow> torrent \<Rightarrow> nat list \<Rightarrow> torrent \<times> go_panic option" where
  "verify_loop env fs t [] = (t, None)"
| "verify_loop env fs t (i # is) =
     (if \<not> PDownloaded (TPieces t ! i) then verify_loop env fs t is
      else
        (case verifyPiece env fs t i of
           (t1, Inl (Panic p)) \<Rightarrow> (t1, Some p)
         | (t1, Inl (Error e)) \<Rightarrow> verify_loop env fs (count_bytes (- PLength (TPieces t ! i)) t1) is
         | (t1, Inr _) \<Rightarrow> verify_loop env fs t1 is))"

datatype download_error = PiecesMissing nat

definition verifyDownload :: "os_env \<Rightarrow> fsys \<Rightarrow> torrent \<Rightarrow> torrent \<times> (download_error, unit) go" where
  "verifyDownload env fs t =
     (case verify_loop env fs t [0..<length (TPieces t)] of
        (t1, Some p) \<Rightarrow> (t1, Inl (Panic p))
      | (t1, None) \<Rightarrow>
          let missingPieces = length (filter (\<lambda>p. \<not> PDownloaded p) (TPieces t1))
          in (t1, if missingPieces > 0 then Inl (Error (PiecesMissing missingPieces)) else Inr ()))"

text \<open>\<open>reportProgress\<close>: the pieces done, the pieces there are, and the bytes of the log line.\<close>

definition reportProgress :: "torrent \<Rightarrow> nat \<times> nat \<times> int \<times> int" where
  "reportProgress t =
     (length (filter PDownloaded (TPieces t)), length (TPieces t), Downloaded t, TotalLength (metaInfo t))"

end
