(* ===== verification/Store.thy ===== *)
theory Store
  imports GoLib
begin

text \<open>
  The interface of the piece storage: a flat sequence of bytes with writes and reads at
  addresses. What a client needs (a read returns the last write, writes elsewhere do not
  disturb it, blocks written in any order are all there) is proved once from the laws.
\<close>

section \<open>Splicing\<close>

lemma copy_at_Nil [simp]: "copy_at off [] buf = buf"
  by (simp add: copy_at_def)

lemma length_copy_at_any: "length (copy_at off data buf) = length buf"
  by (auto simp: copy_at_def min_def)

lemma copy_at_append:
  "off \<le> length a \<Longrightarrow> copy_at off data (a @ b) = copy_at off data a @ copy_at 0 (drop (length a - off) data) b"
proof -
  assume off: "off \<le> length a"
  show ?thesis
  proof (cases "length data \<le> length a - off")
    case True
    with off show ?thesis by (simp add: copy_at_def)
  next
    case False
    with off have "take (length a + length b - off) data =
        take (length a - off) data @ take (length b) (drop (length a - off) data)"
      using take_add [of "length a - off" "length b" data] by simp
    with off False show ?thesis by (simp add: copy_at_def add.commute)
  qed
qed

lemma copy_at_skip: "length a \<le> off \<Longrightarrow> copy_at off data (a @ b) = a @ copy_at (off - length a) data b"
  by (simp add: copy_at_def add.commute)

lemma read_copy_at_same:
  "off + length data \<le> length buf \<Longrightarrow> take (length data) (drop off (copy_at off data buf)) = data"
  by (simp add: copy_at_def)

lemma read_copy_at_apart:
  assumes "off + length data \<le> p \<or> p + n \<le> off"
  shows "take n (drop p (copy_at off data buf)) = take n (drop p buf)"
proof (rule nth_equalityI)
  show "length (take n (drop p (copy_at off data buf))) = length (take n (drop p buf))"
    by (simp add: length_copy_at_any)
next
  fix i
  assume "i < length (take n (drop p (copy_at off data buf)))"
  then have i: "i < n" "p + i < length buf" by (simp_all add: length_copy_at_any less_diff_conv add.commute)
  then have "copy_at off data buf ! (p + i) = buf ! (p + i)"
  proof (cases "off \<le> length buf")
    case True
    with i assms show ?thesis by (auto simp: nth_copy_at [OF True])
  next
    case False
    then show ?thesis by (simp add: copy_at_def)
  qed
  with i show "take n (drop p (copy_at off data buf)) ! i = take n (drop p buf) ! i"
    by (simp add: length_copy_at_any)
qed

section \<open>The interface\<close>

text \<open>A list of writes no two of which touch the same byte.\<close>

fun apart :: "('a \<Rightarrow> nat) \<Rightarrow> ('a \<times> bytes) list \<Rightarrow> bool" where
  "apart at [] = True"
| "apart at ((a, d) # ws) =
     (list_all (\<lambda>(b, e). at b + length e \<le> at a \<or> at a + length d \<le> at b) ws \<and> apart at ws)"

locale block_store =
  fixes inv :: "'s \<Rightarrow> bool"
    and disk :: "'s \<Rightarrow> bytes"
    and ok :: "'s \<Rightarrow> 'a \<Rightarrow> bool"
    and pos :: "'s \<Rightarrow> 'a \<Rightarrow> nat"
    and limit :: nat
    and wr :: "'a \<Rightarrow> bytes \<Rightarrow> 's \<Rightarrow> 's"
    and rd :: "'a \<Rightarrow> nat \<Rightarrow> 's \<Rightarrow> bytes"
  assumes wr_inv: "inv s \<Longrightarrow> ok s a \<Longrightarrow> inv (wr a d s)"
    and wr_ok: "ok (wr a d s) b = ok s b"
    and wr_pos: "pos (wr a d s) b = pos s b"
    and wr_disk: "inv s \<Longrightarrow> ok s a \<Longrightarrow> disk (wr a d s) = copy_at (pos s a) d (disk s)"
    and rd_disk: "inv s \<Longrightarrow> ok s a \<Longrightarrow> n \<le> limit \<Longrightarrow> rd a n s = take n (drop (pos s a) (disk s))"
begin

lemma length_disk: "inv s \<Longrightarrow> ok s a \<Longrightarrow> length (disk (wr a d s)) = length (disk s)"
  by (simp add: wr_disk length_copy_at_any)

lemma read_after_write:
  assumes "inv s" and "ok s a" and "pos s a + length d \<le> length (disk s)" and "length d \<le> limit"
  shows "rd a (length d) (wr a d s) = d"
  using assms by (simp add: rd_disk wr_inv wr_ok wr_pos wr_disk read_copy_at_same)

lemma read_frame:
  assumes "inv s" and "ok s a" and "ok s b" and "n \<le> limit"
    and "pos s a + length d \<le> pos s b \<or> pos s b + n \<le> pos s a"
  shows "rd b n (wr a d s) = rd b n s"
  using assms by (simp add: rd_disk wr_inv wr_ok wr_pos wr_disk read_copy_at_apart)

text \<open>A write that stays inside the disk.\<close>

definition fits :: "'s \<Rightarrow> 'a \<times> bytes \<Rightarrow> bool" where
  "fits s w = (ok s (fst w) \<and> pos s (fst w) + length (snd w) \<le> length (disk s) \<and> length (snd w) \<le> limit)"

abbreviation writes :: "('a \<times> bytes) list \<Rightarrow> 's \<Rightarrow> 's" where
  "writes ws s \<equiv> fold (\<lambda>(a, d). wr a d) ws s"

lemma writes_inv: "inv s \<Longrightarrow> list_all (fits s) ws \<Longrightarrow> inv (writes ws s)
    \<and> (\<forall>b. ok (writes ws s) b = ok s b \<and> pos (writes ws s) b = pos s b)
    \<and> length (disk (writes ws s)) = length (disk s)"
proof (induction ws arbitrary: s)
  case (Cons w ws)
  then obtain a d where w: "w = (a, d)" and a: "ok s a" by (cases w) (auto simp: fits_def)
  with Cons.prems have "list_all (fits (wr a d s)) ws"
    by (auto simp: list_all_iff fits_def wr_ok wr_pos length_disk)
  with Cons.IH [of "wr a d s"] Cons.prems(1) w a show ?case
    by (simp add: wr_inv wr_ok wr_pos length_disk)
qed simp

lemma writes_frame:
  assumes "inv s" and "list_all (fits s) ws" and "ok s b" and "n \<le> limit"
    and "list_all (\<lambda>(a, d). pos s a + length d \<le> pos s b \<or> pos s b + n \<le> pos s a) ws"
  shows "rd b n (writes ws s) = rd b n s"
  using assms
proof (induction ws arbitrary: s)
  case (Cons w ws)
  then obtain a d where w: "w = (a, d)" and a: "ok s a" by (cases w) (auto simp: fits_def)
  with Cons.prems have fit: "list_all (fits (wr a d s)) ws"
    by (auto simp: list_all_iff fits_def wr_ok wr_pos length_disk)
  have "rd b n (writes ws (wr a d s)) = rd b n (wr a d s)"
    using Cons.prems w a fit by (intro Cons.IH) (auto simp: wr_inv wr_ok wr_pos list_all_iff)
  also have "\<dots> = rd b n s"
    using Cons.prems w a by (intro read_frame) auto
  finally show ?case by (simp add: w)
qed simp

text \<open>Blocks that do not overlap can be written in any order: each of them reads back.\<close>

lemma writes_read_back:
  assumes "inv s" and "list_all (fits s) ws" and "apart (pos s) ws" and "(a, d) \<in> set ws"
  shows "rd a (length d) (writes ws s) = d"
  using assms
proof (induction ws arbitrary: s)
  case (Cons w ws)
  obtain b e where w: "w = (b, e)" by (cases w)
  from Cons.prems(2) w have b: "fits s (b, e)" and ws: "list_all (fits s) ws" by simp_all
  then have okb: "ok s b" by (simp add: fits_def)
  have fit: "list_all (fits (wr b e s)) ws"
    using Cons.prems(1) okb ws by (auto simp: list_all_iff fits_def wr_ok wr_pos length_disk)
  have ap: "apart (pos (wr b e s)) vs = apart (pos s) vs" for vs
    by (induction vs) (auto simp: wr_pos)
  have inv': "inv (wr b e s)" using Cons.prems(1) okb by (rule wr_inv)
  show ?case
  proof (cases "(a, d) \<in> set ws")
    case True
    with Cons.IH [OF inv' fit] Cons.prems(3) w ap show ?thesis by simp
  next
    case False
    with Cons.prems(4) w have eq: "a = b" "d = e" by simp_all
    have "rd b (length e) (writes ws (wr b e s)) = rd b (length e) (wr b e s)"
      using Cons.prems(3) w inv' fit b by (intro writes_frame) (auto simp: wr_ok wr_pos fits_def list_all_iff)
    also have "\<dots> = e"
      using Cons.prems(1) b by (intro read_after_write) (auto simp: fits_def)
    finally show ?thesis by (simp add: w eq)
  qed
qed simp

end

end
