(* ===== verification/FileManager_Correct.thy ===== *)
theory FileManager_Correct
  imports FileManager Store "HOL-Library.Sublist"
begin

text \<open>
  What the file manager promises: with the files allocated at their declared lengths, it is a
  store of one flat sequence of bytes.
\<close>

section \<open>The flat disk\<close>

text \<open>An entry is sound when its handle is open on a file as long as declared.\<close>

fun entry_ok :: "fsys \<Rightarrow> file_info option \<Rightarrow> bool" where
  "entry_ok fs None = False"
| "entry_ok fs (Some f) =
     (is_open (File f) \<and>
      (case fs (file_path (File f)) of Some (FileNode b) \<Rightarrow> int (length b) = FLength f | _ \<Rightarrow> False))"

fun held :: "fsys \<Rightarrow> file_info option \<Rightarrow> bytes" where
  "held fs None = []"
| "held fs (Some f) = (case fs (file_path (File f)) of Some (FileNode b) \<Rightarrow> b | _ \<Rightarrow> [])"

fun entry_path :: "file_info option \<Rightarrow> path option" where
  "entry_path None = None"
| "entry_path (Some f) = Some (file_path (File f))"

definition disk :: "fsys \<Rightarrow> file_manager \<Rightarrow> bytes" where
  "disk fs fm = concat (map (held fs) (files fm))"

definition allocated :: "fsys \<Rightarrow> file_manager \<Rightarrow> bool" where
  "allocated fs fm \<longleftrightarrow>
     list_all (entry_ok fs) (files fm) \<and> distinct (map entry_path (files fm))
     \<and> pieceSize fm \<ge> 0 \<and> in_i64 (int (length (disk fs fm)))"

lemma entry_okE:
  assumes "entry_ok fs e"
  obtains f b where "e = Some f" and "is_open (File f)" and "fs (file_path (File f)) = Some (FileNode b)"
    and "FLength f = int (length b)" and "held fs e = b"
  using assms by (cases e) (auto split: option.splits node.splits)

text \<open>One equation per call, so that the environment itself is left alone by the simplifier.\<close>

lemma healthy_simps [simp]:
  "healthy (MkdirCall p) = None" "healthy (OpenCall p) = None" "healthy (CreateCall p) = None"
  "healthy (TruncateCall p n) = None" "healthy (WriteAtCall p n) = None" "healthy (StatCall p) = None"
  "healthy (SeekCall p n) = None" "healthy (ReadCall p n) = None" "healthy (SyncCall p) = None"
  "healthy (CloseCall p) = None"
  by (simp_all add: healthy_def)

lemma open_contents_open:
  "is_open f \<Longrightarrow> fs (file_path f) = Some (FileNode b) \<Longrightarrow> open_contents fs f = Inr b"
  by (simp add: open_contents_def)

lemma i64_sub_nat: "k \<le> n \<Longrightarrow> in_i64 (int n) \<Longrightarrow> i64 (int n - int k) = int (n - k)"
  by (simp add: i64_id in_i64_def of_nat_diff)

section \<open>Reading\<close>

lemma read_loop_flat:
  assumes "list_all (entry_ok fs) fis" and "in_i64 (int off)" and "length data \<le> n" and "n \<le> max_rw"
  shows "read_loop healthy fs fis (int off) n data =
    Inr (data @ take (n - length data) (drop off (concat (map (held fs) fis))))"
  using assms
proof (induction fis arbitrary: off data)
  case (Cons e fis)
  then obtain f b where e: "e = Some f" "held fs e = b" and f: "open_contents fs (File f) = Inr b"
    by (auto elim!: entry_okE simp: open_contents_open)
  show ?case
  proof (cases "length b \<le> off")
    case True
    have "read_loop healthy fs fis (int (off - length b)) n data =
        Inr (data @ take (n - length data) (drop (off - length b) (concat (map (held fs) fis))))"
      using Cons.prems by (intro Cons.IH) (auto simp: in_i64_def)
    with True e f Cons.prems(2) show ?thesis by (simp add: Stat_Size_def i64_sub_nat)
  next
    case False
    define got where "got = take (n - length data) (drop off b)"
    have read: "Read_From healthy fs (File f) (int off) (n - length data) = Inr got"
      using f Cons.prems(4) by (simp add: Read_From_def got_def min_def)
    show ?thesis
    proof (cases "length (data @ got) = n")
      case True
      then have "n - length data \<le> length (drop off b)" by (auto simp: got_def)
      then show ?thesis
        using False e f read True by (simp add: Stat_Size_def Seek_Start_def got_def)
    next
      case short: False
      then have got: "got = drop off b" using Cons.prems(3) by (auto simp: got_def)
      have "length (data @ got) \<le> n" using Cons.prems(3) by (auto simp: got_def)
      then have "read_loop healthy fs fis (int 0) n (data @ got) = Inr ((data @ got) @
          take (n - length (data @ got)) (drop 0 (concat (map (held fs) fis))))"
        using Cons.prems by (intro Cons.IH) (auto simp: in_i64_def)
      moreover have "take (n - length data) (drop off b) = drop off b"
        using got by (simp add: got_def)
      ultimately show ?thesis
        using False e f read short got by (simp add: Stat_Size_def Seek_Start_def)
    qed
  qed
qed simp

text \<open>Whatever the system does, a read returns no more than was asked for.\<close>

lemma read_loop_length:
  "read_loop env fs fis off n data = Inr d \<Longrightarrow> length data \<le> n \<Longrightarrow> length d \<le> n"
proof (induction env fs fis off n data rule: read_loop.induct)
  case (3 env fs f fis off n data)
  then show ?case
    by (fastforce simp: Let_def Read_From_def split: sum.splits option.splits if_splits)
qed auto

section \<open>Writing\<close>

lemma WriteAt_inside:
  assumes "open_contents fs f = Inr b" and "off + length data \<le> length b"
  shows "WriteAt healthy fs f data (int off) =
    (if data = [] then fs else fs(file_path f \<mapsto> FileNode (copy_at off data b)), None)"
proof -
  have "overwrite off data b = copy_at off data b"
    using assms(2) by (simp add: overwrite_inside copy_at_def)
  with assms(1) show ?thesis by (simp add: WriteAt_def)
qed

lemma held_other: "entry_path e \<noteq> Some p \<Longrightarrow> held (fs(p \<mapsto> x)) e = held fs e"
  by (cases e) auto

lemma entry_ok_other: "entry_path e \<noteq> Some p \<Longrightarrow> entry_ok (fs(p \<mapsto> x)) e = entry_ok fs e"
  by (cases e) auto

lemma entries_other:
  assumes "Some p \<notin> entry_path ` set fis"
  shows "map (held (fs(p \<mapsto> x))) fis = map (held fs) fis"
    and "list_all (entry_ok (fs(p \<mapsto> x))) fis = list_all (entry_ok fs) fis"
  using assms by (induction fis) (auto simp: held_other entry_ok_other)

text \<open>Two file systems that differ at most on some of the entries' files.\<close>

definition same_outside :: "path option set \<Rightarrow> fsys \<Rightarrow> fsys \<Rightarrow> bool" where
  "same_outside P fs fs' \<longleftrightarrow> (\<forall>p. Some p \<notin> P \<longrightarrow> fs' p = fs p)"

lemma same_outsideD: "same_outside P fs fs' \<Longrightarrow> Some p \<notin> P \<Longrightarrow> fs' p = fs p"
  unfolding same_outside_def by blast

lemma same_outside_mono: "same_outside P fs fs' \<Longrightarrow> P \<subseteq> Q \<Longrightarrow> same_outside Q fs fs'"
  unfolding same_outside_def by blast

lemma same_outside_refl [simp]: "same_outside P fs fs"
  by (simp add: same_outside_def)

lemma same_outside_upd: "same_outside P (fs(p \<mapsto> x)) fs' \<Longrightarrow> Some p \<in> P \<Longrightarrow> same_outside P fs fs'"
  unfolding same_outside_def by (metis fun_upd_other)

lemma entry_agree:
  assumes "same_outside P fs fs'" and "entry_path e \<notin> P"
  shows "held fs' e = held fs e" and "entry_ok fs' e = entry_ok fs e"
  using assms by (cases e; simp add: same_outsideD)+

text \<open>One file of the loop: it is skipped, or it takes its share of the data.\<close>

lemma write_loop_skip:
  assumes "length b \<le> off" and "FLength f = int (length b)" and "in_i64 (int off)"
  shows "write_loop env i (Some f # fis) (int off) data fs =
    write_loop env (Suc i) fis (int (off - length b)) data fs"
  using assms by (simp add: i64_sub_nat)

lemma write_loop_share:
  assumes "off < length b" and "open_contents fs (File f) = Inr b" and "FLength f = int (length b)"
    and "in_i64 (int (length b))"
  shows "write_loop healthy i (Some f # fis) (int off) data fs =
    (let m = length b - off;
         fs1 = if data = [] then fs
               else fs(file_path (File f) \<mapsto> FileNode (copy_at off (take m data) b))
     in if drop m data = [] then (fs1, Inr ()) else write_loop healthy (Suc i) fis 0 (drop m data) fs1)"
proof -
  define m where "m = length b - off"
  have "min_int64 (int (length data)) (i64 (int (length b) - int off)) = int (min (length data) m)"
    using assms by (simp add: min_int64_def i64_sub_nat m_def)
  moreover have "WriteAt healthy fs (File f) (take m data) (int off) =
      (if take m data = [] then fs
       else fs(file_path (File f) \<mapsto> FileNode (copy_at off (take m data) b)), None)"
    using assms(1,2) by (intro WriteAt_inside) (auto simp: m_def)
  moreover have "m > 0" using assms(1) by (simp add: m_def)
  moreover have "take (min (length data) m) data = take m data"
    and "drop (min (length data) m) data = drop m data"
    by (simp_all add: min_def)
  ultimately show ?thesis
    using assms(1,3) by (simp add: Let_def m_def [symmetric])
qed

definition write_result :: "file_info option list \<Rightarrow> nat \<Rightarrow> bytes \<Rightarrow> fsys \<Rightarrow> fsys \<Rightarrow> bool" where
  "write_result fis off data fs fs' \<longleftrightarrow>
     list_all (entry_ok fs') fis
     \<and> concat (map (held fs') fis) = copy_at off data (concat (map (held fs) fis))
     \<and> same_outside (entry_path ` set fis) fs fs'"

lemma write_result_skip:
  assumes "write_result fis (off - length (held fs e)) data fs fs'" and "length (held fs e) \<le> off"
    and "entry_ok fs e" and "entry_path e \<notin> entry_path ` set fis"
  shows "write_result (e # fis) off data fs fs'"
proof -
  from assms(1) have agree: "same_outside (entry_path ` set fis) fs fs'"
    by (simp add: write_result_def)
  then have "same_outside (entry_path ` set (e # fis)) fs fs'"
    by (rule same_outside_mono) auto
  with entry_agree [OF agree assms(4)] assms show ?thesis
    by (simp add: write_result_def copy_at_skip)
qed

lemma write_result_share:
  assumes "fs (file_path (File f)) = Some (FileNode b)" and "is_open (File f)"
    and "FLength f = int (length b)" and "off < length b"
    and p: "Some (file_path (File f)) \<notin> entry_path ` set fis"
    and "list_all (entry_ok fs) fis"
    and fs1: "fs1 = (if data = [] then fs
      else fs(file_path (File f) \<mapsto> FileNode (copy_at off (take (length b - off) data) b)))"
    and rest: "if drop (length b - off) data = [] then fs' = fs1
      else write_result fis 0 (drop (length b - off) data) fs1 fs'"
  shows "write_result (Some f # fis) off data fs fs'"
proof -
  let ?d = "drop (length b - off) data"
  have take: "copy_at off (take (length b - off) data) b = copy_at off data b"
    using assms(4) by (simp add: copy_at_def min_def)
  have fs1': "fs1 (file_path (File f)) = Some (FileNode (copy_at off data b))"
    using fs1 assms(1) take by simp
  have other: "map (held fs1) fis = map (held fs) fis" "list_all (entry_ok fs1) fis"
    using fs1 entries_other [OF p] assms(6) by simp_all
  have "write_result fis 0 ?d fs1 fs'"
    using rest other by (auto simp: write_result_def split: if_splits)
  then have agree: "same_outside (entry_path ` set fis) fs1 fs'"
    and flat: "concat (map (held fs') fis) = copy_at 0 ?d (concat (map (held fs1) fis))"
    and ok: "list_all (entry_ok fs') fis"
    by (simp_all add: write_result_def)
  from same_outsideD [OF agree p] fs1'
  have "fs' (file_path (File f)) = Some (FileNode (copy_at off data b))" by simp
  moreover have "same_outside (entry_path ` set (Some f # fis)) fs1 fs'"
    by (rule same_outside_mono [OF agree]) auto
  then have "same_outside (entry_path ` set (Some f # fis)) fs fs'"
    using fs1 by (auto split: if_splits intro: same_outside_upd)
  moreover have "copy_at off data (b @ concat (map (held fs) fis)) =
      copy_at off data b @ copy_at 0 ?d (concat (map (held fs) fis))"
    using assms(4) by (intro copy_at_append) simp
  ultimately show ?thesis
    using assms(1-3) flat ok other(1) by (simp add: write_result_def length_copy_at_any)
qed

lemma write_loop_flat:
  assumes "list_all (entry_ok fs) fis" and "distinct (map entry_path fis)" and "in_i64 (int off)"
    and "in_i64 (int (length (concat (map (held fs) fis))))"
  shows "\<exists>fs'. write_loop healthy i fis (int off) data fs = (fs', Inr ()) \<and> write_result fis off data fs fs'"
  using assms
proof (induction fis arbitrary: i off data fs)
  case Nil
  then show ?case by (simp add: write_result_def copy_at_def)
next
  case (Cons e fis)
  then obtain f b where e: "e = Some f" "held fs e = b" and f: "is_open (File f)"
      "fs (file_path (File f)) = Some (FileNode b)" "FLength f = int (length b)"
    by (auto elim!: entry_okE)
  then have oc: "open_contents fs (File f) = Inr b" by (simp add: open_contents_open)
  have p: "Some (file_path (File f)) \<notin> entry_path ` set fis" using Cons.prems(2) e by simp
  have fit: "in_i64 (int (length b))" "in_i64 (int (length (concat (map (held fs) fis))))"
    using Cons.prems(4) e by (auto simp: in_i64_def)
  show ?case
  proof (cases "length b \<le> off")
    case True
    obtain fs' where "write_loop healthy (Suc i) fis (int (off - length b)) data fs = (fs', Inr ())"
        and "write_result fis (off - length b) data fs fs'"
      using Cons.IH [of fs "off - length b" "Suc i" data] Cons.prems fit by (force simp: in_i64_def)
    with True e f p Cons.prems show ?thesis
      by (intro exI [of _ fs'] conjI write_result_skip) (simp_all add: i64_sub_nat)
  next
    case False
    define m where "m = length b - off"
    define fs1 where "fs1 = (if data = [] then fs
      else fs(file_path (File f) \<mapsto> FileNode (copy_at off (take m data) b)))"
    have step: "write_loop healthy i (e # fis) (int off) data fs =
        (if drop m data = [] then (fs1, Inr ()) else write_loop healthy (Suc i) fis 0 (drop m data) fs1)"
      using False by (simp only: e(1) fs1_def m_def Let_def not_le write_loop_share [OF _ oc f(3) fit(1)])
    have other: "map (held fs1) fis = map (held fs) fis" "list_all (entry_ok fs1) fis"
      using entries_other [OF p] Cons.prems(1) by (simp_all add: fs1_def)
    have "\<exists>fs'. write_loop healthy i (e # fis) (int off) data fs = (fs', Inr ()) \<and>
        (if drop m data = [] then fs' = fs1 else write_result fis 0 (drop m data) fs1 fs')"
      using Cons.IH [of fs1 0 "Suc i" "drop m data"] Cons.prems(2) fit(2) other step
      by (auto simp: in_i64_def)
    then obtain fs' where "write_loop healthy i (e # fis) (int off) data fs = (fs', Inr ())"
        and "if drop m data = [] then fs' = fs1 else write_result fis 0 (drop m data) fs1 fs'" by blast
    moreover from this(2) have "write_result (e # fis) off data fs fs'"
      unfolding e(1) using False Cons.prems(1)
      by (intro write_result_share [OF f(2) f(1) f(3) _ p _ fs1_def [unfolded m_def]])
        (simp_all only: m_def [symmetric] not_le list.pred_inject)
    ultimately show ?thesis by blast
  qed
qed

section \<open>The manager as a store\<close>

text \<open>An address is a piece and an offset in it; it is usable when the sums do not overflow.\<close>

type_synonym store = "fsys \<times> file_manager"

definition store_inv :: "store \<Rightarrow> bool" where
  "store_inv s = allocated (fst s) (snd s)"

definition store_disk :: "store \<Rightarrow> bytes" where
  "store_disk s = disk (fst s) (snd s)"

definition addr_ok :: "file_manager \<Rightarrow> int \<times> int \<Rightarrow> bool" where
  "addr_ok fm a \<longleftrightarrow> fst a \<ge> 0 \<and> snd a \<ge> 0 \<and> in_i64 (fst a * pieceSize fm + snd a)"

definition addr_pos :: "file_manager \<Rightarrow> int \<times> int \<Rightarrow> nat" where
  "addr_pos fm a = nat (fst a * pieceSize fm + snd a)"

definition store_write :: "int \<times> int \<Rightarrow> bytes \<Rightarrow> store \<Rightarrow> store" where
  "store_write a d s = (fst (WritePiece healthy (fst s) (snd s) (fst a) (snd a) d), snd s)"

definition store_read :: "int \<times> int \<Rightarrow> nat \<Rightarrow> store \<Rightarrow> bytes" where
  "store_read a n s =
     (case ReadPiece healthy (fst s) (snd s) (fst a) (snd a) (int n) of Inr b \<Rightarrow> b | Inl _ \<Rightarrow> [])"

lemma piece_offset_pos:
  assumes "addr_ok fm (i, b)" and "pieceSize fm \<ge> 0"
  shows "piece_offset fm i b = int (addr_pos fm (i, b))" and "in_i64 (int (addr_pos fm (i, b)))"
proof -
  have "0 \<le> i * pieceSize fm" using assms by (simp add: addr_ok_def)
  with assms have "in_i64 (i * pieceSize fm)" "in_i64 (i * pieceSize fm + b)"
      "0 \<le> i * pieceSize fm + b"
    unfolding addr_ok_def in_i64_def fst_conv snd_conv by linarith+
  then show "piece_offset fm i b = int (addr_pos fm (i, b))" and "in_i64 (int (addr_pos fm (i, b)))"
    by (simp_all add: piece_offset_def addr_pos_def in_i64_id)
qed

lemma ReadPiece_flat:
  assumes "allocated fs fm" and "addr_ok fm (i, b)" and "n \<le> max_rw"
  shows "ReadPiece healthy fs fm i b (int n) = Inr (take n (drop (addr_pos fm (i, b)) (disk fs fm)))"
proof -
  have "int n \<le> max_alloc" using assms(3) by (simp add: max_alloc_def max_rw_def)
  moreover have "read_loop healthy fs (files fm) (int (addr_pos fm (i, b))) n [] =
      Inr (take n (drop (addr_pos fm (i, b)) (concat (map (held fs) (files fm)))))"
    using read_loop_flat [of fs "files fm" "addr_pos fm (i, b)" "[]" n] assms piece_offset_pos [OF assms(2)]
    by (simp add: allocated_def)
  ultimately show ?thesis
    using assms(1) piece_offset_pos [OF assms(2)] by (simp add: ReadPiece_def allocated_def disk_def)
qed

lemma WritePiece_flat:
  assumes "allocated fs fm" and "addr_ok fm (i, b)"
  obtains fs' where "WritePiece healthy fs fm i b d = (fs', Inr ())"
    and "allocated fs' fm" and "disk fs' fm = copy_at (addr_pos fm (i, b)) d (disk fs fm)"
    and "same_outside (entry_path ` set (files fm)) fs fs'"
proof -
  from assms have ps: "pieceSize fm \<ge> 0" by (simp add: allocated_def)
  from assms obtain fs' where "WritePiece healthy fs fm i b d = (fs', Inr ())"
      and r: "write_result (files fm) (addr_pos fm (i, b)) d fs fs'"
    using write_loop_flat [of fs "files fm" "addr_pos fm (i, b)" 0 d]
    by (auto simp: WritePiece_def piece_offset_pos [OF assms(2) ps] allocated_def disk_def)
  moreover from r have "disk fs' fm = copy_at (addr_pos fm (i, b)) d (disk fs fm)"
    by (simp add: write_result_def disk_def)
  moreover from r assms have "allocated fs' fm"
    using calculation(3) by (simp add: allocated_def write_result_def length_copy_at_any)
  ultimately show thesis using that by (simp add: write_result_def)
qed

interpretation fm_store: block_store store_inv store_disk
    "\<lambda>s. addr_ok (snd s)" "\<lambda>s. addr_pos (snd s)" max_rw store_write store_read
proof
  fix s :: store and a b d n
  show "addr_ok (snd (store_write a d s)) b = addr_ok (snd s) b"
    and "addr_pos (snd (store_write a d s)) b = addr_pos (snd s) b"
    by (simp_all add: store_write_def)
  obtain fs fm where s: "s = (fs, fm)" by (cases s)
  obtain i o' where a: "a = (i, o')" by (cases a)
  assume inv: "store_inv s" and ok: "addr_ok (snd s) a"
  then have "allocated fs fm" "addr_ok fm (i, o')" by (simp_all add: s a store_inv_def)
  note fl = WritePiece_flat [OF this, of d] and rd = ReadPiece_flat [OF this]
  show "store_inv (store_write a d s)"
    and "store_disk (store_write a d s) = copy_at (addr_pos (snd s) a) d (store_disk s)"
    by (rule fl; simp add: s a store_inv_def store_disk_def store_write_def)+
  show "store_read a n s = take n (drop (addr_pos (snd s) a) (store_disk s))" if "n \<le> max_rw"
    using rd [OF that] by (simp add: s a store_read_def store_disk_def)
qed

section \<open>Making directories and files\<close>

lemma mkdir_existing:
  assumes "\<forall>k. 0 < k \<and> k \<le> length cs \<longrightarrow> node_at fs (r, pre @ take k cs) = Some DirNode"
  shows "mkdir_prefixes env r pre cs fs = (fs, None)"
  using assms
proof (induction cs arbitrary: pre)
  case (Cons c cs)
  have "node_at fs (r, pre @ [c]) = Some DirNode" using Cons.prems [rule_format, of 1] by simp
  moreover have "mkdir_prefixes env r (pre @ [c]) cs fs = (fs, None)"
  proof (rule Cons.IH, intro allI impI)
    fix k
    assume "0 < k \<and> k \<le> length cs"
    then show "node_at fs (r, (pre @ [c]) @ take k cs) = Some DirNode"
      using Cons.prems [rule_format, of "Suc k"] by simp
  qed
  ultimately show ?case by simp
qed simp

text \<open>What a successful \<open>MkdirAll\<close> leaves: every prefix is a directory, nothing else has changed.\<close>

lemma mkdir_prefixes_ok:
  assumes "mkdir_prefixes env r pre cs fs = (fs1, None)"
  shows "(\<forall>k. 0 < k \<and> k \<le> length cs \<longrightarrow> node_at fs1 (r, pre @ take k cs) = Some DirNode)
    \<and> (\<forall>q. (\<forall>k. 0 < k \<and> k \<le> length cs \<longrightarrow> q \<noteq> (r, pre @ take k cs)) \<longrightarrow> fs1 q = fs q)"
  using assms
proof (induction cs arbitrary: pre fs)
  case (Cons c cs)
  define p where "p = (r, pre @ [c])"
  obtain fs0 where step: "mkdir_prefixes env r (pre @ [c]) cs fs0 = (fs1, None)"
      and dir: "node_at fs0 p = Some DirNode" and same: "\<And>q. q \<noteq> p \<Longrightarrow> fs0 q = fs q"
    using Cons.prems by (auto simp: Let_def p_def [symmetric] node_at_def
        split: option.splits node.splits if_splits)
  note IH = Cons.IH [OF step]
  have "p \<noteq> (r, (pre @ [c]) @ take k cs)" if "0 < k \<and> k \<le> length cs" for k
    using that by (cases cs) (auto simp: p_def)
  then have "fs1 p = fs0 p" using IH by blast
  then have p: "node_at fs1 p = Some DirNode" using dir by (simp add: node_at_def split: if_splits)
  have "node_at fs1 (r, pre @ take k (c # cs)) = Some DirNode" if "0 < k" "k \<le> length (c # cs)" for k
  proof (cases "k = 1")
    case True
    with p show ?thesis by (simp add: p_def)
  next
    case False
    with that obtain j where "k = Suc j" "0 < j" "j \<le> length cs" by (cases k) auto
    then show ?thesis using IH by simp
  qed
  moreover have "fs1 q = fs q"
    if q: "\<forall>k. 0 < k \<and> k \<le> length (c # cs) \<longrightarrow> q \<noteq> (r, pre @ take k (c # cs))" for q
  proof -
    have "q \<noteq> p" using q [rule_format, of 1] by (simp add: p_def)
    moreover have "q \<noteq> (r, (pre @ [c]) @ take k cs)" if "0 < k \<and> k \<le> length cs" for k
      using q [rule_format, of "Suc k"] that by simp
    ultimately show ?thesis using IH same by metis
  qed
  ultimately show ?case by blast
qed simp

lemma mkdir_over_file:
  assumes "cs \<noteq> []" and "fs (r, pre @ cs) = Some (FileNode b)"
  shows "\<exists>e. snd (mkdir_prefixes env r pre cs fs) = Some e"
  using assms
proof (induction cs arbitrary: pre fs)
  case (Cons c cs)
  show ?case
  proof (cases "cs = []")
    case True
    with Cons.prems show ?thesis by (simp add: node_at_def)
  next
    case False
    have "\<exists>e. snd (mkdir_prefixes env r (pre @ [c]) cs fs') = Some e"
      if "fs' (r, pre @ c # cs) = Some (FileNode b)" for fs'
      using Cons.IH [OF False, of fs' "pre @ [c]"] that by simp
    with Cons.prems False show ?thesis
      by (auto simp: Let_def split: option.splits node.splits)
  qed
qed simp

lemma MkdirAll_Dir:
  assumes "MkdirAll env fs (Dir p) = (fs1, None)" and "snd p \<noteq> []"
  shows "fs1 p = fs p" and "node_at fs1 (Dir p) = Some DirNode"
    and "MkdirAll env (fs1(p \<mapsto> x)) (Dir p) = (fs1(p \<mapsto> x), None)"
proof -
  obtain r cs where p: "p = (r, cs)" by (cases p)
  then have cs: "cs \<noteq> []" using assms(2) by simp
  have mk: "mkdir_prefixes env r [] (butlast cs) fs = (fs1, None)"
    using assms(1) by (simp add: MkdirAll_def Dir_def p)
  note ok = mkdir_prefixes_ok [OF mk]
  have np: "p \<noteq> (r, [] @ take k (butlast cs))" for k
  proof -
    have "length (take k (butlast cs)) < length cs" using cs by (cases cs) (auto simp: min_def)
    then have "cs \<noteq> take k (butlast cs)" by (metis less_irrefl)
    then show ?thesis by (simp add: p)
  qed
  then show "fs1 p = fs p" using ok by blast
  show "node_at fs1 (Dir p) = Some DirNode"
    using ok [THEN conjunct1, rule_format, of "length (butlast cs)"]
    by (cases "butlast cs = []") (auto simp: p Dir_def node_at_def simp del: length_butlast)
  have "node_at (fs1(p \<mapsto> x)) (r, [] @ take k (butlast cs)) = node_at fs1 (r, [] @ take k (butlast cs))" for k
    using np [of k] by (simp add: node_at_def)
  then have "mkdir_prefixes env r [] (butlast cs) (fs1(p \<mapsto> x)) = (fs1(p \<mapsto> x), None)"
    using ok by (intro mkdir_existing) metis
  then show "MkdirAll env (fs1(p \<mapsto> x)) (Dir p) = (fs1(p \<mapsto> x), None)"
    by (simp add: MkdirAll_def Dir_def p)
qed

lemma CreateFile_healthy:
  assumes "node_at fs (Dir p) = Some DirNode" and "snd p \<noteq> []" and "fs p \<noteq> Some DirNode"
  shows "CreateFile healthy fs p = Inr (fs(p \<mapsto> FileNode []))"
  using assms by (auto simp: CreateFile_def node_at_def new_file_def split: option.splits node.splits)

lemma split_slash_plain: "slash \<notin> set s \<Longrightarrow> s \<noteq> [] \<Longrightarrow> split_slash s = [s]"
proof (induction s)
  case (Cons c s)
  then show ?case by (cases "s = []") auto
qed simp

lemma created_path_1: "created_path base name 1 = (fst (Join base name), snd (Join base name) @ [str ''file_1''])"
proof -
  have f: "FormatInt 1 = str ''1''"
    by (simp add: FormatInt_def fmt_nat.simps [of "Suc 0"] str_def asc_def digit_byte_def)
  have "str ''file_'' @ FormatInt 1 = str ''file_1''"
    unfolding f by (simp add: str_def)
  moreover have "split_slash (str ''file_1'') = [str ''file_1'']"
    by (rule split_slash_plain) (simp_all add: str_def asc_def slash_def)
  ultimately show ?thesis
    by (simp add: created_path_def path_append_def Let_def str_def asc_def)
qed

section \<open>Properties\<close>

text \<open>
  C8: on allocated files, writing a block of a piece always succeeds, keeps the files
  allocated, changes exactly the block's bytes of the flat disk (what would reach past its end
  is dropped), and leaves every other file of the system alone.
\<close>

theorem write_piece_splices:
  assumes "allocated fs fm" and "addr_ok fm (i, b)"
  shows "\<exists>fs'. WritePiece healthy fs fm i b d = (fs', Inr ()) \<and> allocated fs' fm
    \<and> disk fs' fm = copy_at (addr_pos fm (i, b)) d (disk fs fm)
    \<and> same_outside (entry_path ` set (files fm)) fs fs'"
  using WritePiece_flat [OF assms] by metis

text \<open>Two files of three and two bytes under pieces of two bytes: piece 1 straddles them.\<close>

definition sample_files :: fsys where
  "sample_files = [(False, [str ''a'']) \<mapsto> FileNode [1, 2, 3], (False, [str ''b'']) \<mapsto> FileNode [4, 5]]"

definition sample_manager :: file_manager where
  "sample_manager =
     \<lparr>baseDir = str ''.'',
      files =
        [Some \<lparr>File = \<lparr>file_path = (False, [str ''a'']), is_open = True\<rparr>, FLength = 3\<rparr>,
         Some \<lparr>File = \<lparr>file_path = (False, [str ''b'']), is_open = True\<rparr>, FLength = 2\<rparr>],
      pieceSize = 2, pieceOffsets = [0, 3, 5], totalLength = 5, numPieces = 3\<rparr>"

lemma sample_disk: "disk sample_files sample_manager = [1, 2, 3, 4, 5]"
  by (simp add: disk_def sample_files_def sample_manager_def str_def asc_def)

lemma sample_allocated: "allocated sample_files sample_manager"
  unfolding allocated_def sample_disk
  by (simp add: sample_files_def sample_manager_def str_def asc_def in_i64_def)

lemma sample_addr: "addr_ok sample_manager (i, b) \<longleftrightarrow> i \<ge> 0 \<and> b \<ge> 0 \<and> in_i64 (i * 2 + b)"
    "addr_pos sample_manager (i, b) = nat (i * 2 + b)"
  by (simp_all add: addr_ok_def addr_pos_def sample_manager_def)

lemma sample_addr_1: "addr_ok sample_manager (1, 0)"
  by (simp add: sample_addr in_i64_def)

theorem write_piece_splices_witness:
  "\<exists>fs'. WritePiece healthy sample_files sample_manager 1 0 [8, 9] = (fs', Inr ())
    \<and> disk fs' sample_manager = [1, 2, 8, 9, 5]"
proof -
  have "copy_at (addr_pos sample_manager (1, 0)) [8, 9] (disk sample_files sample_manager) = [1, 2, 8, 9, 5]"
    by (simp add: sample_disk sample_addr copy_at_def)
  with write_piece_splices [OF sample_allocated sample_addr_1, of "[8, 9]"] show ?thesis by metis
qed

text \<open>
  C16: on allocated files, a read returns exactly the bytes of the flat disk at its position, as
  many as asked for and as there are.
\<close>

theorem read_piece_cuts:
  assumes "allocated fs fm" and "addr_ok fm (i, b)" and "n \<le> max_rw"
  shows "ReadPiece healthy fs fm i b (int n) = Inr (take n (drop (addr_pos fm (i, b)) (disk fs fm)))"
  using assms by (rule ReadPiece_flat)

theorem read_piece_cuts_witness:
  "ReadPiece healthy sample_files sample_manager 1 0 (int 2) = Inr [3, 4]"
  using read_piece_cuts [OF sample_allocated sample_addr_1, of 2]
  by (simp add: sample_disk sample_addr max_rw_def)

text \<open>
  C32: blocks that do not overlap can be written in any order, across file boundaries: afterwards
  each of them reads back as written.
\<close>

theorem blocks_read_back:
  assumes "allocated fs fm" and "apart (addr_pos fm) ws"
    and "list_all (\<lambda>(a, d). addr_ok fm a \<and> addr_pos fm a + length d \<le> length (disk fs fm)
           \<and> length d \<le> max_rw) ws"
    and "((i, b), d) \<in> set ws"
  shows "ReadPiece healthy (fold (\<lambda>((i, b), d) fs. fst (WritePiece healthy fs fm i b d)) ws fs) fm i b
    (int (length d)) = Inr d"
proof -
  let ?fold = "fold (\<lambda>((i, b), d) fs. fst (WritePiece healthy fs fm i b d))"
  have step: "fold (\<lambda>(a, d). store_write a d) vs (gs, fm) = (?fold vs gs, fm)" for vs gs
    by (induction vs arbitrary: gs) (auto simp: store_write_def)
  have fits: "list_all (fm_store.fits (fs, fm)) ws"
    using assms(3) by (auto simp: fm_store.fits_def store_disk_def list_all_iff)
  have inv: "store_inv (fs, fm)" using assms(1) by (simp add: store_inv_def)
  from fm_store.writes_inv [OF inv fits] have "allocated (?fold ws fs) fm"
    by (simp add: step store_inv_def)
  moreover from assms(3,4) have "addr_ok fm (i, b)" "length d \<le> max_rw"
    by (auto simp: list_all_iff)
  moreover have "store_read (i, b) (length d) (fold (\<lambda>(a, d). store_write a d) ws (fs, fm)) = d"
    using fits assms by (intro fm_store.writes_read_back) (auto simp: store_inv_def)
  ultimately show ?thesis
    by (simp add: step store_read_def ReadPiece_flat)
qed

theorem blocks_read_back_witness:
  "ReadPiece healthy (fold (\<lambda>((i, b), d) fs. fst (WritePiece healthy fs sample_manager i b d))
     [((1, 1), [7, 7]), ((0, 1), [8, 9])] sample_files) sample_manager 0 1 (int (length [8, 9 :: byte])) = Inr [8, 9]"
  by (rule blocks_read_back [OF sample_allocated])
    (simp_all add: sample_addr sample_disk max_rw_def in_i64_def)

text \<open>
  For a single-file torrent the sequence of the client works: creating the file, opening it
  and setting the piece size leave a manager with all bytes of the file allocated, zeroed and
  counted.
\<close>

definition open_entry :: "path \<Rightarrow> int \<Rightarrow> file_info option" where
  "open_entry p n = Some \<lparr>File = \<lparr>file_path = p, is_open = True\<rparr>, FLength = n\<rparr>"

lemma create_then_initialize:
  assumes "MkdirAll healthy fs (Dir (Join (baseDir fm) name)) = (fs1, None)"
    and "snd (Join (baseDir fm) name) \<noteq> []" and "fs (Join (baseDir fm) name) \<noteq> Some DirNode"
    and "in_i64 (int n)" and "pieceSize fm \<ge> 0"
  shows "\<exists>fs2 fm2. CreateFiles healthy fs fm name [int n] = (fs2, None)
    \<and> Initialize healthy fs2 fm [\<lparr>TPath = name, TLength = int n\<rparr>] = (fs2, fm2, None)
    \<and> allocated fs2 fm2 \<and> disk fs2 fm2 = replicate n 0 \<and> totalLength fm2 = int n
    \<and> pieceSize fm2 = pieceSize fm \<and> files fm2 = [open_entry (Join (baseDir fm) name) (int n)]"
proof -
  define p where "p = Join (baseDir fm) name"
  define fs2 where "fs2 = fs1(p \<mapsto> FileNode (replicate n 0))"
  note mk = MkdirAll_Dir [OF assms(1,2), folded p_def]
  have "CreateFile healthy fs1 p = Inr (fs1(p \<mapsto> FileNode []))"
    using assms(2,3) mk(1,2) by (intro CreateFile_healthy) (simp_all add: p_def)
  then have "CreateFiles healthy fs fm name [int n] = (fs2, None)"
    using assms(1) by (simp add: CreateFiles_def created_path_def p_def [symmetric] fs2_def
        Truncate_def open_contents_def resize_def)
  moreover have "OpenFile healthy fs2 p = Inr fs2"
    using assms(2) by (simp add: OpenFile_def node_at_def p_def fs2_def)
  then have "init_loop healthy [\<lparr>TPath = name, TLength = int n\<rparr>] 0 0 fs2 (fm\<lparr>files := [None]\<rparr>) =
      (fs2, fm\<lparr>files := [open_entry p (int n)], pieceOffsets := pieceOffsets fm @ [0]\<rparr>, Inr (int n))"
    using mk(3) assms(4) by (simp add: p_def [symmetric] fs2_def open_entry_def in_i64_id)
  then obtain fm2 where "Initialize healthy fs2 fm [\<lparr>TPath = name, TLength = int n\<rparr>] = (fs2, fm2, None)"
      and fm2: "files fm2 = [open_entry p (int n)]" "totalLength fm2 = int n" "pieceSize fm2 = pieceSize fm"
    by (auto simp: Initialize_def)
  moreover have d: "disk fs2 fm2 = replicate n 0"
    by (simp add: disk_def fm2 fs2_def open_entry_def)
  moreover have "allocated fs2 fm2"
    using assms(4,5) by (simp add: allocated_def d fm2) (simp add: fs2_def open_entry_def)
  ultimately show ?thesis using fm2 by (auto simp: p_def)
qed

text \<open>
  And if \<open>CreateFiles\<close> succeeds, there was no directory in the way; nothing but the file and the directories
  above it has changed.
\<close>

lemma MkdirAll_frame:
  assumes "MkdirAll env fs p = (fs1, None)" and "\<not> prefix (snd q) (snd p)"
  shows "fs1 q = fs q"
proof -
  have "q \<noteq> (fst p, [] @ take k (snd p))" for k using assms(2) take_is_prefix by fastforce
  moreover have "mkdir_prefixes env (fst p) [] (snd p) fs = (fs1, None)" using assms(1) by (simp add: MkdirAll_def)
  ultimately show ?thesis using mkdir_prefixes_ok by blast
qed

lemma CreateFiles_single:
  assumes "CreateFiles healthy fs fm name [n] = (fs', None)"
  obtains fs1 where "MkdirAll healthy fs (Dir (Join (baseDir fm) name)) = (fs1, None)"
    and "snd (Join (baseDir fm) name) \<noteq> []" and "fs (Join (baseDir fm) name) \<noteq> Some DirNode" and "0 \<le> n"
    and "\<forall>q. \<not> prefix (snd q) (snd (Join (baseDir fm) name)) \<longrightarrow> fs' q = fs q"
proof -
  let ?p = "Join (baseDir fm) name"
  from assms obtain fs1 fs2 where mk: "MkdirAll healthy fs (Dir ?p) = (fs1, None)"
      and c: "CreateFile healthy fs1 ?p = Inr fs2"
      and t: "Truncate healthy fs2 \<lparr>file_path = ?p, is_open = True\<rparr> n = Inr fs'"
    by (auto simp: CreateFiles_def created_path_def Let_def split: prod.splits option.splits sum.splits)
  from c have n: "node_at fs1 ?p \<noteq> Some DirNode" by (auto simp: CreateFile_def)
  then have ne: "snd ?p \<noteq> []" by (auto simp: node_at_def)
  have fr: "fs' q = fs q" if "\<not> prefix (snd q) (snd ?p)" for q
  proof -
    have "q \<noteq> ?p" using that by auto
    then have "fs' q = fs1 q"
      using c t by (auto simp: CreateFile_def new_file_def Truncate_def split: option.splits node.splits sum.splits if_splits)
    moreover have "\<not> prefix (snd q) (snd (Dir ?p))"
      using that by (simp add: Dir_def) (metis append_butlast_last_id ne prefix_prefix)
    ultimately show ?thesis using MkdirAll_frame [OF mk] by simp
  qed
  have "0 \<le> n" using t by (auto simp: Truncate_def split: sum.splits option.splits if_splits)
  with that mk ne n fr MkdirAll_Dir(1) [OF mk ne] show thesis by (auto simp: node_at_def)
qed

text \<open>Writing touches no file but those of the manager.\<close>

lemma write_loop_frame:
  "Some q \<notin> set (map entry_path fis) \<Longrightarrow> fst (write_loop env i fis off data fs) q = fs q"
proof (induction env i fis off data fs rule: write_loop.induct)
  case (3 env i f fis off data fs)
  have w: "fst (WriteAt env fs (File f) d off) q = fs q" for d
    using 3(3) by (auto simp: WriteAt_def split: sum.splits option.splits)
  show ?case
  proof (cases "FLength f \<le> off")
    case True
    with 3 show ?thesis by simp
  next
    case False
    define wl where "wl = min_int64 (int (length data)) (i64 (FLength f - off))"
    obtain fs1 e where we: "WriteAt env fs (File f) (take (nat wl) data) off = (fs1, e)"
      by (cases "WriteAt env fs (File f) (take (nat wl) data) off")
    then have "fs1 q = fs q" using w [of "take (nat wl) data"] by simp
    with 3(2) [OF False wl_def] 3(3) False we show ?thesis
      by (auto simp: Let_def wl_def [symmetric] split: option.splits)
  qed
qed simp_all

lemma Join_dot_x: "Join (str ''.'') (str ''x'') = (False, [str ''x''])"
  by (simp add: Join_def Clean_def path_append_def str_def asc_def slash_def)

lemma create_then_initialize_example:
  "\<exists>fs2 fm2. CreateFiles healthy Map.empty (NewFileManager (str ''.'')) (str ''x'') [int 3] = (fs2, None)
    \<and> Initialize healthy fs2 (NewFileManager (str ''.'')) [\<lparr>TPath = str ''x'', TLength = int 3\<rparr>] = (fs2, fm2, None)
    \<and> disk fs2 fm2 = [0, 0, 0]"
proof -
  have "\<exists>fs2 fm2. CreateFiles healthy Map.empty (NewFileManager (str ''.'')) (str ''x'') [int 3] = (fs2, None)
    \<and> Initialize healthy fs2 (NewFileManager (str ''.'')) [\<lparr>TPath = str ''x'', TLength = int 3\<rparr>] = (fs2, fm2, None)
    \<and> allocated fs2 fm2 \<and> disk fs2 fm2 = replicate 3 0 \<and> totalLength fm2 = int 3
    \<and> pieceSize fm2 = pieceSize (NewFileManager (str ''.''))
    \<and> files fm2 = [open_entry (Join (baseDir (NewFileManager (str ''.''))) (str ''x'')) (int 3)]"
    by (rule create_then_initialize [where ?fs1.0 = Map.empty])
      (simp_all add: NewFileManager_def Join_dot_x Dir_def MkdirAll_def in_i64_def)
  then show ?thesis by (simp add: numeral_eq_Suc) blast
qed

text \<open>
  C40: creating the files of a torrent with more than one file always fails, whatever the
  system does: the first file gets the torrent's name, and the second is to be created below
  that name as if it were a directory.
\<close>

theorem create_many_fails:
  "\<exists>e. snd (CreateFiles env fs fm name (n1 # n2 # ns)) = Some e"
proof -
  define p where "p = Join (baseDir fm) name"
  define q where "q = created_path (baseDir fm) name 1"
  have q: "Dir q = p" unfolding q_def p_def created_path_1 by (simp add: Dir_def)
  have c0: "created_path (baseDir fm) name 0 = p" by (simp add: created_path_def p_def)
  have fail: "\<exists>e. snd (create_loop env (baseDir fm) name (n2 # ns) 1 fs3) = Some e"
    if "fs3 p = Some (FileNode b)" and "snd p \<noteq> []" for fs3 b
  proof -
    have "\<exists>e. snd (MkdirAll env fs3 p) = Some e"
      using mkdir_over_file [of "snd p" fs3 "fst p" "[]" b env] that by (simp add: MkdirAll_def)
    then show ?thesis
      by (auto simp: q_def [unfolded One_nat_def, symmetric] q Let_def split: prod.splits)
  qed
  obtain fs1 r1 where mk: "MkdirAll env fs (Dir p) = (fs1, r1)" by (cases "MkdirAll env fs (Dir p)")
  show ?thesis
  proof (cases "r1 = None \<and> (\<exists>fs2 fs3. CreateFile env fs1 p = Inr fs2
      \<and> Truncate env fs2 \<lparr>file_path = p, is_open = True\<rparr> n1 = Inr fs3)")
    case True
    then obtain fs2 fs3 where ok: "r1 = None" "CreateFile env fs1 p = Inr fs2"
        "Truncate env fs2 \<lparr>file_path = p, is_open = True\<rparr> n1 = Inr fs3" by blast
    from ok(2) have "snd p \<noteq> []" by (auto simp: CreateFile_def node_at_def split: option.splits)
    moreover from ok(3) obtain b where "fs3 p = Some (FileNode b)"
      by (auto simp: Truncate_def split: sum.splits option.splits if_splits)
    ultimately have "\<exists>e. snd (create_loop env (baseDir fm) name (n2 # ns) 1 fs3) = Some e"
      using fail by blast
    then show ?thesis
      by (simp add: CreateFiles_def c0 mk ok Let_def del: create_loop.simps(2))
        (simp add: create_loop.simps(2) [of _ _ _ n1] c0 mk ok Let_def del: create_loop.simps(2))
  next
    case False
    then show ?thesis
      unfolding CreateFiles_def create_loop.simps(2) [of _ _ _ n1] c0 mk Let_def
      by (auto simp del: create_loop.simps split: option.splits sum.splits)
  qed
qed

text \<open>
  After a successful \<open>Close\<close> the manager still accepts blocks without an error, writes
  nothing, and reads nothing back.
\<close>

lemma closed_manager_drops_writes:
  assumes "Close_Manager env fm = (fm', Inr ())"
  shows "WritePiece env fs fm' i b d = (fs, Inr ())
    \<and> (0 \<le> n \<and> n \<le> max_alloc \<longrightarrow> ReadPiece env fs fm' i b n = Inr [])"
proof -
  from assms have "files fm' = []"
    by (auto simp: Close_Manager_def split: prod.splits sum.splits)
  then show ?thesis by (simp add: WritePiece_def ReadPiece_def)
qed

lemma closed_manager_drops_writes_example:
  "WritePiece healthy sample_files (fst (Close_Manager healthy sample_manager)) 0 0 [1] = (sample_files, Inr ())"
proof -
  have "Close_Manager healthy sample_manager = (fst (Close_Manager healthy sample_manager), Inr ())"
    by (simp add: Close_Manager_def sample_manager_def Close_File_def)
  from closed_manager_drops_writes [OF this] show ?thesis by blast
qed

end
