(* ===== verification/Torrent_Correct.thy ===== *)
theory Torrent_Correct
  imports Torrent FileManager_Correct
begin

text \<open>
  What the download state promises: the counters move together, a piece is flagged only with the
  right bytes on disk, and blocks that stay inside their piece never disturb a flagged one.
\<close>

section \<open>What never changes\<close>

text \<open>The fields of the pieces that are fixed at creation, and the flags.\<close>

definition piece_frame :: "piece \<Rightarrow> int \<times> bytes \<times> int" where
  "piece_frame p = (Index p, Hash p, PLength p)"

definition frame :: "torrent \<Rightarrow> meta_info \<times> (int \<times> bytes \<times> int) list \<times> file_manager option \<times> int" where
  "frame t = (metaInfo t, map piece_frame (TPieces t), fileManager t, PieceSize t)"

definition flagged :: "torrent \<Rightarrow> nat set" where
  "flagged t = {i. i < length (TPieces t) \<and> PDownloaded (TPieces t ! i)}"

lemma set_downloaded_frame:
  "map piece_frame (TPieces (set_downloaded i t)) = map piece_frame (TPieces t)"
proof (cases "i < length (TPieces t)")
  case True
  then have "map piece_frame (TPieces (set_downloaded i t)) =
      (map piece_frame (TPieces t))[i := map piece_frame (TPieces t) ! i]"
    by (simp add: set_downloaded_def map_update piece_frame_def)
  then show ?thesis by (simp only: list_update_id)
qed (simp add: set_downloaded_def not_less list_update_beyond)

lemma set_downloaded_simps [simp]:
  "frame (set_downloaded i t) = frame t"
  "Downloaded (set_downloaded i t) = Downloaded t" "Left (set_downloaded i t) = Left t"
  "fileManager (set_downloaded i t) = fileManager t"
  "length (TPieces (set_downloaded i t)) = length (TPieces t)"
  by (simp_all only: frame_def set_downloaded_frame) (simp_all add: set_downloaded_def)

lemma count_bytes_simps [simp]:
  "frame (count_bytes n t) = frame t" "TPieces (count_bytes n t) = TPieces t"
  "fileManager (count_bytes n t) = fileManager t" "flagged (count_bytes n t) = flagged t"
  by (simp_all add: count_bytes_def frame_def flagged_def)

lemma flagged_set_downloaded [simp]:
  "i < length (TPieces t) \<Longrightarrow> flagged (set_downloaded i t) = insert i (flagged t)"
  by (auto simp: flagged_def set_downloaded_def nth_list_update)

lemma frame_pieces:
  assumes "frame t' = frame t"
  shows "length (TPieces t') = length (TPieces t)" and "fileManager t' = fileManager t"
    and "i < length (TPieces t) \<Longrightarrow> Hash (TPieces t' ! i) = Hash (TPieces t ! i)
      \<and> PLength (TPieces t' ! i) = PLength (TPieces t ! i)"
proof -
  from assms have eq: "map piece_frame (TPieces t') = map piece_frame (TPieces t)"
    by (simp add: frame_def)
  then show len: "length (TPieces t') = length (TPieces t)" by (rule map_eq_imp_length_eq)
  show "fileManager t' = fileManager t" using assms by (simp add: frame_def)
  show "Hash (TPieces t' ! i) = Hash (TPieces t ! i) \<and> PLength (TPieces t' ! i) = PLength (TPieces t ! i)"
    if "i < length (TPieces t)"
    using arg_cong [OF eq, of "\<lambda>xs. xs ! i"] that len by (simp add: piece_frame_def)
qed

lemma verifyPiece_frame:
  assumes "verifyPiece env fs t i = (t', r)"
  shows "t' = t \<or> i < length (TPieces t) \<and> r = Inr () \<and> t' = set_downloaded i t"
  using assms by (auto simp: verifyPiece_def split: if_splits option.splits sum.splits fault.splits)

text \<open>The balance of the counters, modulo the width of the integers.\<close>

definition balance :: "torrent \<Rightarrow> int" where
  "balance t = i64 (Downloaded t + Left t)"

lemma balance_simps [simp]:
  "balance (count_bytes n t) = balance t" "balance (set_downloaded i t) = balance t"
  by (simp_all add: balance_def count_bytes_def i64_add_left i64_add_right)

lemma processPiece_frame:
  assumes "processPiece env fs t i begin data = (fs', t', r)"
  shows "frame t' = frame t \<and> balance t' = balance t \<and> flagged t \<subseteq> flagged t' \<and> flagged t' \<subseteq> insert i (flagged t)"
  using assms unfolding processPiece_def Let_def
  by (auto split: if_splits option.splits sum.splits fault.splits prod.splits dest!: verifyPiece_frame)

section \<open>The layout of the pieces on the disk\<close>

definition layout :: "fsys \<Rightarrow> torrent \<Rightarrow> file_manager \<Rightarrow> bool" where
  "layout fs t fm \<longleftrightarrow>
     fileManager t = Some fm \<and> allocated fs fm \<and>
     (\<forall>i < length (TPieces t).
        0 \<le> PLength (TPieces t ! i) \<and> PLength (TPieces t ! i) \<le> pieceSize fm
        \<and> PLength (TPieces t ! i) \<le> int max_rw
        \<and> int i * pieceSize fm + PLength (TPieces t ! i) \<le> int (length (disk fs fm)))"

definition piece_bytes :: "fsys \<Rightarrow> torrent \<Rightarrow> file_manager \<Rightarrow> nat \<Rightarrow> bytes" where
  "piece_bytes fs t fm i =
     take (nat (PLength (TPieces t ! i))) (drop (addr_pos fm (int i, 0)) (disk fs fm))"

text \<open>Every piece with its flag set has its hash on disk.\<close>

definition verified :: "fsys \<Rightarrow> torrent \<Rightarrow> file_manager \<Rightarrow> bool" where
  "verified fs t fm \<longleftrightarrow>
     (\<forall>i < length (TPieces t). PDownloaded (TPieces t ! i) \<longrightarrow>
        sha1_Sum (piece_bytes fs t fm i) = Hash (TPieces t ! i))"

definition in_piece :: "torrent \<Rightarrow> nat \<Rightarrow> int \<Rightarrow> bytes \<Rightarrow> bool" where
  "in_piece t i begin data \<longleftrightarrow>
     i < length (TPieces t) \<and> 0 \<le> begin \<and> begin + int (length data) \<le> PLength (TPieces t ! i)"

lemma layout_frame:
  assumes "layout fs t fm" and "frame t' = frame t" and "allocated fs' fm"
    and "length (disk fs' fm) = length (disk fs fm)"
  shows "layout fs' t' fm"
  using assms frame_pieces [OF assms(2)] by (auto simp: layout_def)

lemma layout_same: "layout fs t fm \<Longrightarrow> frame t' = frame t \<Longrightarrow> layout fs t' fm"
  by (rule layout_frame [where fs = fs]) (simp_all add: layout_def)

lemma layout_addr:
  assumes "layout fs t fm" and "in_piece t i begin data"
  shows "addr_ok fm (int i, begin)" and "addr_ok fm (int i, 0)"
    and "addr_pos fm (int i, begin) = addr_pos fm (int i, 0) + nat begin"
    and "addr_pos fm (int i, 0) + nat (PLength (TPieces t ! i)) \<le> length (disk fs fm)"
    and "nat begin + length data \<le> nat (PLength (TPieces t ! i))"
proof -
  from assms have ps: "0 \<le> pieceSize fm" and d: "in_i64 (int (length (disk fs fm)))"
    and b: "0 \<le> begin" "begin + int (length data) \<le> PLength (TPieces t ! i)"
    and e: "int i * pieceSize fm + PLength (TPieces t ! i) \<le> int (length (disk fs fm))"
    by (auto simp: layout_def allocated_def in_piece_def)
  have m: "0 \<le> int i * pieceSize fm" using ps by simp
  show "addr_ok fm (int i, begin)" and "addr_ok fm (int i, 0)"
    using m d b e by (auto simp: addr_ok_def in_i64_def)
  show "addr_pos fm (int i, begin) = addr_pos fm (int i, 0) + nat begin"
    using m b by (simp add: addr_pos_def nat_add_distrib)
  show "addr_pos fm (int i, 0) + nat (PLength (TPieces t ! i)) \<le> length (disk fs fm)"
    using m b e by (simp add: addr_pos_def)
  show "nat begin + length data \<le> nat (PLength (TPieces t ! i))" using b by simp
qed

lemma in_piece_Nil: "layout fs t fm \<Longrightarrow> i < length (TPieces t) \<Longrightarrow> in_piece t i 0 []"
  by (simp add: in_piece_def layout_def)

text \<open>Pieces lie one after the other.\<close>

lemma pieces_apart:
  assumes "layout fs t fm" and "i < j" and "j < length (TPieces t)"
  shows "addr_pos fm (int i, 0) + nat (PLength (TPieces t ! i)) \<le> addr_pos fm (int j, 0)"
proof -
  from assms have ps: "0 \<le> pieceSize fm" and l: "PLength (TPieces t ! i) \<le> pieceSize fm" "0 \<le> PLength (TPieces t ! i)"
    by (auto simp: layout_def allocated_def)
  have "(int i + 1) * pieceSize fm \<le> int j * pieceSize fm"
    using assms(2) ps by (intro mult_right_mono) auto
  then have "int i * pieceSize fm + PLength (TPieces t ! i) \<le> int j * pieceSize fm"
    using l by (simp add: distrib_right)
  moreover have "0 \<le> int i * pieceSize fm" using ps by simp
  ultimately show ?thesis using l(2) by (simp add: addr_pos_def nat_add_distrib [symmetric] nat_mono)
qed

lemma verifyPiece_layout:
  assumes "layout fs t fm" and "i < length (TPieces t)"
  shows "verifyPiece healthy fs t i =
    (if sha1_Sum (piece_bytes fs t fm i) = Hash (TPieces t ! i) then (set_downloaded i t, Inr ())
     else (t, Inl (Error (HashMismatch i))))"
proof -
  let ?n = "nat (PLength (TPieces t ! i))"
  from assms have "int ?n = PLength (TPieces t ! i)" and "?n \<le> max_rw"
    and "fileManager t = Some fm" and "allocated fs fm"
    by (auto simp: layout_def nat_le_iff)
  moreover have "addr_ok fm (int i, 0)"
    using layout_addr(2) [OF assms(1) in_piece_Nil [OF assms]] .
  ultimately show ?thesis
    using ReadPiece_flat [of fs fm "int i" 0 ?n] assms(2)
    by (simp add: verifyPiece_def piece_bytes_def)
qed

lemma piece_bytes_frame: "frame t' = frame t \<Longrightarrow> i < length (TPieces t) \<Longrightarrow>
    piece_bytes fs t' fm i = piece_bytes fs t fm i"
  by (drule (1) frame_pieces(3)) (simp add: piece_bytes_def)

text \<open>One block that stays in its piece: the write, and the pieces that it leaves alone.\<close>

lemma write_in_piece:
  assumes "layout fs t fm" and "in_piece t i begin data"
  obtains fs' where "WritePiece healthy fs fm (int i) begin data = (fs', Inr ())" and "layout fs' t fm"
    and "piece_bytes fs' t fm i = copy_at (nat begin) data (piece_bytes fs t fm i)"
    and "\<And>j. j < length (TPieces t) \<Longrightarrow> j \<noteq> i \<Longrightarrow> piece_bytes fs' t fm j = piece_bytes fs t fm j"
proof -
  note addr = layout_addr [OF assms]
  have i: "i < length (TPieces t)" using assms(2) by (simp add: in_piece_def)
  let ?p = "addr_pos fm (int i, 0)" and ?n = "nat (PLength (TPieces t ! i))"
  have "allocated fs fm" using assms(1) by (simp add: layout_def)
  then obtain fs' where w: "WritePiece healthy fs fm (int i) begin data = (fs', Inr ())"
      and al: "allocated fs' fm" and d: "disk fs' fm = copy_at (?p + nat begin) data (disk fs fm)"
    using WritePiece_flat [OF _ addr(1)] addr(3) by metis
  have "layout fs' t fm"
    by (rule layout_frame [OF assms(1) refl al]) (simp add: d length_copy_at_any)
  moreover have "piece_bytes fs' t fm i = copy_at (nat begin) data (piece_bytes fs t fm i)"
  proof -
    define a where "a = take ?p (disk fs fm)"
    define b where "b = take ?n (drop ?p (disk fs fm))"
    define c where "c = drop (?p + ?n) (disk fs fm)"
    have "disk fs fm = a @ b @ c"
      unfolding a_def b_def c_def by (metis append_take_drop_id drop_drop add.commute)
    moreover have a: "length a = ?p" and b: "length b = ?n" using addr(4) by (simp_all add: a_def b_def)
    ultimately have "disk fs' fm = a @ copy_at (nat begin) data b @ c"
      using addr(5) d by (simp add: copy_at_skip copy_at_append)
    then show ?thesis
      using a b by (simp add: piece_bytes_def b_def [symmetric] length_copy_at_any)
  qed
  moreover have "piece_bytes fs' t fm j = piece_bytes fs t fm j"
    if j: "j < length (TPieces t)" "j \<noteq> i" for j
  proof -
    have "?p + nat begin + length data \<le> addr_pos fm (int j, 0)
        \<or> addr_pos fm (int j, 0) + nat (PLength (TPieces t ! j)) \<le> ?p + nat begin"
      using pieces_apart [OF assms(1), of i j] pieces_apart [OF assms(1), of j i] i j addr(5) by linarith
    then show ?thesis by (simp add: piece_bytes_def d read_copy_at_apart)
  qed
  ultimately show thesis using that w by blast
qed

text \<open>\<open>processPiece\<close> on such a block.\<close>

lemma processPiece_in_piece:
  assumes "layout fs t fm" and "in_piece t i begin data" and "\<not> PDownloaded (TPieces t ! i)"
  obtains fs' where "layout fs' t fm"
    and "piece_bytes fs' t fm i = copy_at (nat begin) data (piece_bytes fs t fm i)"
    and "\<And>j. j < length (TPieces t) \<Longrightarrow> j \<noteq> i \<Longrightarrow> piece_bytes fs' t fm j = piece_bytes fs t fm j"
    and "processPiece healthy fs t i begin data =
      (fs',
       if begin + int (length data) = PLength (TPieces t ! i) then
         if sha1_Sum (piece_bytes fs' t fm i) = Hash (TPieces t ! i)
         then (set_downloaded i (count_bytes (int (length data)) t), Inr ())
         else (count_bytes (- PLength (TPieces t ! i)) (count_bytes (int (length data)) t),
               Inl (Error (PieceFailedVerification i (HashMismatch i))))
       else (count_bytes (int (length data)) t, Inr ()))"
proof -
  obtain fs' where w: "WritePiece healthy fs fm (int i) begin data = (fs', Inr ())" and l: "layout fs' t fm"
    and b: "piece_bytes fs' t fm i = copy_at (nat begin) data (piece_bytes fs t fm i)"
    and o': "\<And>j. j < length (TPieces t) \<Longrightarrow> j \<noteq> i \<Longrightarrow> piece_bytes fs' t fm j = piece_bytes fs t fm j"
    using write_in_piece [OF assms(1,2)] by metis
  let ?t1 = "count_bytes (int (length data)) t"
  have i: "i < length (TPieces t)" using assms(2) by (simp add: in_piece_def)
  have l1: "layout fs' ?t1 fm" using l by (simp add: layout_def)
  have v: "verifyPiece healthy fs' ?t1 i =
      (if sha1_Sum (piece_bytes fs' t fm i) = Hash (TPieces t ! i) then (set_downloaded i ?t1, Inr ())
       else (?t1, Inl (Error (HashMismatch i))))"
    using verifyPiece_layout [OF l1, of i] i piece_bytes_frame [of ?t1 t i] by simp
  have "in_i64 (begin + int (length data))"
    using assms(1,2) by (auto simp: layout_def in_piece_def in_i64_def max_rw_def)
  then have e: "i64 (begin + int (length data)) = begin + int (length data)" by (rule in_i64_id)
  have twice: "set_downloaded i (set_downloaded i ?t1) = set_downloaded i ?t1"
    using i by (simp add: set_downloaded_def)
  have "fileManager t = Some fm" using assms(1) by (simp add: layout_def)
  then have "processPiece healthy fs t i begin data =
      (fs',
       if begin + int (length data) = PLength (TPieces t ! i) then
         if sha1_Sum (piece_bytes fs' t fm i) = Hash (TPieces t ! i)
         then (set_downloaded i ?t1, Inr ())
         else (count_bytes (- PLength (TPieces t ! i)) ?t1,
               Inl (Error (PieceFailedVerification i (HashMismatch i))))
       else (?t1, Inr ()))"
    using i assms(3) by (simp add: processPiece_def w v e Let_def twice)
  with that l b o' show thesis by blast
qed

section \<open>Creation\<close>

lemma make_pieces_Inr:
  assumes "make_pieces m is = Inr ps"
  shows "ps = map (\<lambda>i. \<lparr>Index = int i, Hash = projr (PieceHash m (int i)),
      PLength = calculatePieceLength m (int i), PData = [], PDownloaded = False\<rparr>) is
    \<and> (\<forall>i \<in> set is. \<exists>h. PieceHash m (int i) = Inr h)"
  using assms
proof (induction "is" arbitrary: ps)
  case (Cons i "is")
  then show ?case by (auto split: sum.splits)
qed simp

lemma NewTorrent_Inr:
  assumes "NewTorrent pid now m = Inr t"
  shows "metaInfo t = m" and "0 < NumPieces m" and "length (TPieces t) = nat (NumPieces m)"
    and "i < length (TPieces t) \<Longrightarrow> PieceHash m (int i) = Inr (Hash (TPieces t ! i))
      \<and> PLength (TPieces t ! i) = calculatePieceLength m (int i)"
    and "flagged t = {}" and "balance t = i64 (TotalLength m)" and "PieceSize t = PieceLength (Info m)"
proof -
  from assms obtain ps where ps: "make_pieces m [0..<nat (NumPieces m)] = Inr ps" and pos: "0 < NumPieces m"
      and t: "TPieces t = ps" "metaInfo t = m" "Downloaded t = 0" "Left t = TotalLength m"
        "PieceSize t = PieceLength (Info m)"
    by (auto simp: NewTorrent_def Let_def split: if_splits sum.splits)
  note mk = make_pieces_Inr [OF ps]
  show "metaInfo t = m" "0 < NumPieces m" "PieceSize t = PieceLength (Info m)" by (fact t pos)+
  show "length (TPieces t) = nat (NumPieces m)" using mk t by simp
  show "PieceHash m (int i) = Inr (Hash (TPieces t ! i)) \<and> PLength (TPieces t ! i) = calculatePieceLength m (int i)"
    if "i < length (TPieces t)"
    using that mk t by (auto simp: dest: bspec [of _ _ i])
  show "flagged t = {}" using mk t by (auto simp: flagged_def)
  show "balance t = i64 (TotalLength m)" by (simp add: balance_def t)
qed

lemma flagged_by_hash:
  assumes "processPiece env fs t i begin data = (fs', t', r)" and "j \<in> flagged t'" and "j \<notin> flagged t"
  shows "j = i \<and> r = Inr () \<and> (\<exists>fm d. fileManager t = Some fm
    \<and> ReadPiece env fs' fm (int i) 0 (PLength (TPieces t ! i)) = Inr d
    \<and> sha1_Sum d = Hash (TPieces t ! i))"
proof -
  have "j = i" using processPiece_frame [OF assms(1)] assms(2,3) by auto
  then show ?thesis
    using assms unfolding processPiece_def verifyPiece_def Let_def
    by (auto split: if_splits option.splits sum.splits fault.splits prod.splits)
qed

section \<open>Downloading one piece\<close>

text \<open>The blocks of a piece as a peer sends them in reply to one request, in order.\<close>

fun deliver :: "os_env \<Rightarrow> nat \<Rightarrow> int \<Rightarrow> bytes list \<Rightarrow> fsys \<times> torrent \<Rightarrow> fsys \<times> torrent" where
  "deliver env i begin [] s = s"
| "deliver env i begin (b # bs) s =
     (case processPiece env (fst s) (snd s) i begin b of
        (fs', t', r) \<Rightarrow> deliver env i (begin + int (length b)) bs (fs', t'))"

definition untouched :: "nat \<Rightarrow> fsys \<Rightarrow> torrent \<Rightarrow> fsys \<Rightarrow> torrent \<Rightarrow> file_manager \<Rightarrow> bool" where
  "untouched i fs t fs' t' fm \<longleftrightarrow>
     (\<forall>j < length (TPieces t). j \<noteq> i \<longrightarrow> piece_bytes fs' t' fm j = piece_bytes fs t fm j)"

lemma untouched_trans:
  "untouched i fs t fs1 t1 fm \<Longrightarrow> untouched i fs1 t1 fs2 t2 fm \<Longrightarrow> frame t1 = frame t \<Longrightarrow>
     untouched i fs t fs2 t2 fm"
  by (auto simp: untouched_def dest: frame_pieces(1))

text \<open>The next block of a piece: the bytes it adds, and what \<open>processPiece\<close> does with them.\<close>

lemma next_block:
  assumes l: "layout fs t fm" and i: "i < length (TPieces t)" "i \<notin> flagged t"
    and got: "k = length got" "take k (piece_bytes fs t fm i) = got"
    and fits: "int k + int (length b) \<le> PLength (TPieces t ! i)"
  obtains fs1 where "layout fs1 t fm" and "take (k + length b) (piece_bytes fs1 t fm i) = got @ b"
    and "length (piece_bytes fs1 t fm i) = nat (PLength (TPieces t ! i))"
    and "\<And>j. j < length (TPieces t) \<Longrightarrow> j \<noteq> i \<Longrightarrow> piece_bytes fs1 t fm j = piece_bytes fs t fm j"
    and "processPiece healthy fs t i (int k) b =
      (fs1,
       if int k + int (length b) = PLength (TPieces t ! i) then
         if sha1_Sum (piece_bytes fs1 t fm i) = Hash (TPieces t ! i)
         then (set_downloaded i (count_bytes (int (length b)) t), Inr ())
         else (count_bytes (- PLength (TPieces t ! i)) (count_bytes (int (length b)) t),
               Inl (Error (PieceFailedVerification i (HashMismatch i))))
       else (count_bytes (int (length b)) t, Inr ()))"
proof -
  let ?n = "nat (PLength (TPieces t ! i))"
  have b: "in_piece t i (int k) b" using i(1) fits by (simp add: in_piece_def)
  have nf: "\<not> PDownloaded (TPieces t ! i)" using i by (simp add: flagged_def)
  obtain fs1 where l1: "layout fs1 t fm"
    and pb: "piece_bytes fs1 t fm i = copy_at k b (piece_bytes fs t fm i)"
    and oth: "\<And>j. j < length (TPieces t) \<Longrightarrow> j \<noteq> i \<Longrightarrow> piece_bytes fs1 t fm j = piece_bytes fs t fm j"
    and pp: "processPiece healthy fs t i (int k) b =
      (fs1,
       if int k + int (length b) = PLength (TPieces t ! i) then
         if sha1_Sum (piece_bytes fs1 t fm i) = Hash (TPieces t ! i)
         then (set_downloaded i (count_bytes (int (length b)) t), Inr ())
         else (count_bytes (- PLength (TPieces t ! i)) (count_bytes (int (length b)) t),
               Inl (Error (PieceFailedVerification i (HashMismatch i))))
       else (count_bytes (int (length b)) t, Inr ()))"
    using processPiece_in_piece [OF l b nf] by (simp only: nat_int) metis
  have len: "length (piece_bytes fs t fm i) = ?n"
    using layout_addr(4) [OF l b] by (simp add: piece_bytes_def)
  have fit: "k + length b \<le> ?n" using layout_addr(5) [OF l b] by simp
  have "take (k + length b) (piece_bytes fs1 t fm i) = got @ b"
    using len fit got by (simp add: pb copy_at_def)
  moreover have "length (piece_bytes fs1 t fm i) = ?n" using len by (simp add: pb length_copy_at_any)
  ultimately show thesis using that l1 oth pp by blast
qed

lemma deliver_completes:
  assumes "layout fs t fm" and "i < length (TPieces t)" and "i \<notin> flagged t"
    and "k = length got" and "take k (piece_bytes fs t fm i) = got"
    and "blocks \<noteq> []" and "[] \<notin> set blocks"
    and "int (length (got @ concat blocks)) = PLength (TPieces t ! i)"
    and "sha1_Sum (got @ concat blocks) = Hash (TPieces t ! i)"
    and "deliver healthy i (int k) blocks (fs, t) = (fs', t')"
  shows "layout fs' t' fm \<and> frame t' = frame t \<and> flagged t' = insert i (flagged t)
    \<and> piece_bytes fs' t' fm i = got @ concat blocks \<and> untouched i fs t fs' t' fm"
  using assms
proof (induction blocks arbitrary: fs t k got)
  case (Cons b bs)
  have "int k + int (length b) \<le> PLength (TPieces t ! i)" using Cons.prems(4,8) by simp
  from next_block [OF Cons.prems(1-5) this] obtain fs1 where l1: "layout fs1 t fm"
    and pre: "take (k + length b) (piece_bytes fs1 t fm i) = got @ b"
    and len: "length (piece_bytes fs1 t fm i) = nat (PLength (TPieces t ! i))"
    and oth: "\<And>j. j < length (TPieces t) \<Longrightarrow> j \<noteq> i \<Longrightarrow> piece_bytes fs1 t fm j = piece_bytes fs t fm j"
    and pp: "processPiece healthy fs t i (int k) b =
      (fs1,
       if int k + int (length b) = PLength (TPieces t ! i) then
         if sha1_Sum (piece_bytes fs1 t fm i) = Hash (TPieces t ! i)
         then (set_downloaded i (count_bytes (int (length b)) t), Inr ())
         else (count_bytes (- PLength (TPieces t ! i)) (count_bytes (int (length b)) t),
               Inl (Error (PieceFailedVerification i (HashMismatch i))))
       else (count_bytes (int (length b)) t, Inr ()))" by metis
  show ?case
  proof (cases "bs = []")
    case True
    then have full: "int k + int (length b) = PLength (TPieces t ! i)" using Cons.prems(4,8) by simp
    then have "piece_bytes fs1 t fm i = got @ b"
      using pre len by simp
    with full True Cons.prems pp have "fs' = fs1" "t' = set_downloaded i (count_bytes (int (length b)) t)"
      and "piece_bytes fs1 t fm i = got @ concat (b # bs)" by simp_all
    moreover have fr: "frame (set_downloaded i (count_bytes (int (length b)) t)) = frame t" by simp
    ultimately show ?thesis
      using Cons.prems(2) oth layout_same [OF l1 fr] piece_bytes_frame [OF fr]
      by (simp add: untouched_def)
  next
    case False
    then obtain c cs where bs: "bs = c # cs" by (cases bs) auto
    then have "c \<noteq> []" using Cons.prems(7) by auto
    then have nfull: "int k + int (length b) \<noteq> PLength (TPieces t ! i)"
      using Cons.prems(4,8) bs by (cases c) simp_all
    define t1 where "t1 = count_bytes (int (length b)) t"
    have fr: "frame t1 = frame t" "flagged t1 = flagged t" by (simp_all add: t1_def)
    have pcs: "TPieces t1 = TPieces t" by (simp add: t1_def)
    have del: "deliver healthy i (int (k + length b)) bs (fs1, t1) = (fs', t')"
      using Cons.prems(10) pp nfull by (simp add: t1_def)
    have "layout fs' t' fm \<and> frame t' = frame t1 \<and> flagged t' = insert i (flagged t1)
        \<and> piece_bytes fs' t' fm i = (got @ b) @ concat bs \<and> untouched i fs1 t1 fs' t' fm"
    proof (rule Cons.IH [OF _ _ _ _ _ False _ _ _ del])
      show "layout fs1 t1 fm" using l1 by (simp add: t1_def layout_def)
      show "take (k + length b) (piece_bytes fs1 t1 fm i) = got @ b"
        using pre piece_bytes_frame [OF fr(1) Cons.prems(2)] by simp
    qed (use Cons.prems pcs fr in simp_all)
    moreover have "untouched i fs t fs1 t1 fm"
      using oth piece_bytes_frame [OF fr(1)] by (simp add: untouched_def)
    ultimately show ?thesis using fr untouched_trans [OF _ _ fr(1)] by simp
  qed
qed simp

section \<open>A small torrent\<close>

text \<open>Three pieces over the two sample files: one to come, one done, and one nobody can deliver.\<close>

definition sample_meta :: meta_info where
  "sample_meta = \<lparr>Announce = [],
     Info = \<lparr>PieceLength = 2, Pieces = [], Name = str ''x'', Length = 5, Files = []\<rparr>\<rparr>"

definition sample_state :: torrent where
  "sample_state =
     \<lparr>metaInfo = sample_meta, peerID = [],
      TPieces =
        [\<lparr>Index = 0, Hash = sha1_Sum [9, 9], PLength = 2, PData = [], PDownloaded = False\<rparr>,
         \<lparr>Index = 1, Hash = sha1_Sum [3, 4], PLength = 2, PData = [], PDownloaded = True\<rparr>,
         \<lparr>Index = 2, Hash = [], PLength = 1, PData = [], PDownloaded = False\<rparr>],
      Downloaded = 2, Uploaded = 0, Left = 3, ActivePeers = 0, failedPeers = Map.empty,
      fileManager = Some sample_manager, startTime = 0, progressClosed = False, PieceSize = 2,
      activePeers = Map.empty\<rparr>"

lemma sample_state_pieces:
  "length (TPieces sample_state) = 3"
  "TPieces sample_state ! 0 =
     \<lparr>Index = 0, Hash = sha1_Sum [9, 9], PLength = 2, PData = [], PDownloaded = False\<rparr>"
  "TPieces sample_state ! Suc 0 =
     \<lparr>Index = 1, Hash = sha1_Sum [3, 4], PLength = 2, PData = [], PDownloaded = True\<rparr>"
  "TPieces sample_state ! 2 =
     \<lparr>Index = 2, Hash = [], PLength = 1, PData = [], PDownloaded = False\<rparr>"
  "fileManager sample_state = Some sample_manager"
  by (simp_all add: sample_state_def)

lemma less_3: "i < 3 \<longleftrightarrow> i = 0 \<or> i = Suc 0 \<or> i = (2::nat)"
  by auto

lemma sample_piece_size: "pieceSize sample_manager = 2"
  by (simp add: sample_manager_def)

lemma sample_layout: "layout sample_files sample_state sample_manager"
  unfolding layout_def sample_state_pieces(1,5) less_3 sample_disk
  by (auto simp: sample_state_pieces sample_piece_size sample_allocated max_rw_def)

lemma sample_bytes:
  "piece_bytes sample_files sample_state sample_manager 0 = [1, 2]"
  "piece_bytes sample_files sample_state sample_manager (Suc 0) = [3, 4]"
  "piece_bytes sample_files sample_state sample_manager 2 = [5]"
  by (simp_all add: piece_bytes_def sample_state_pieces sample_disk sample_addr)

text \<open>The bytes of piece 0 arrive; a byte for the last piece arrives.\<close>

lemma sample_good_block:
  obtains fs' where "processPiece healthy sample_files sample_state 0 0 [9, 9] =
    (fs', set_downloaded 0 (count_bytes 2 sample_state), Inr ())"
proof -
  have "in_piece sample_state 0 0 [9, 9]" and "\<not> PDownloaded (TPieces sample_state ! 0)"
    by (simp_all add: in_piece_def sample_state_pieces)
  from processPiece_in_piece [OF sample_layout this] obtain fs' where
      "piece_bytes fs' sample_state sample_manager 0 = copy_at (nat 0) [9, 9] [1, 2]"
      and "processPiece healthy sample_files sample_state 0 0 [9, 9] =
        (fs',
         if 0 + int (length [9 :: byte, 9]) = PLength (TPieces sample_state ! 0) then
           if sha1_Sum (piece_bytes fs' sample_state sample_manager 0) = Hash (TPieces sample_state ! 0)
           then (set_downloaded 0 (count_bytes (int (length [9 :: byte, 9])) sample_state), Inr ())
           else (count_bytes (- PLength (TPieces sample_state ! 0)) (count_bytes (int (length [9 :: byte, 9])) sample_state),
                 Inl (Error (PieceFailedVerification 0 (HashMismatch 0))))
         else (count_bytes (int (length [9 :: byte, 9])) sample_state, Inr ()))"
    by (metis sample_bytes(1))
  then show thesis using that by (simp add: sample_state_pieces copy_at_def)
qed

lemma sample_bad_block:
  obtains fs' t' where "processPiece healthy sample_files sample_state 2 0 [5] =
    (fs', t', Inl (Error (PieceFailedVerification 2 (HashMismatch 2))))"
proof -
  have "in_piece sample_state 2 0 [5]" and "\<not> PDownloaded (TPieces sample_state ! 2)"
    by (simp_all add: in_piece_def sample_state_pieces)
  then show thesis
  proof (rule processPiece_in_piece [OF sample_layout])
    fix fs'
    assume p: "processPiece healthy sample_files sample_state 2 0 [5] =
        (fs',
         if 0 + int (length [5 :: byte]) = PLength (TPieces sample_state ! 2) then
           if sha1_Sum (piece_bytes fs' sample_state sample_manager 2) = Hash (TPieces sample_state ! 2)
           then (set_downloaded 2 (count_bytes (int (length [5 :: byte])) sample_state), Inr ())
           else (count_bytes (- PLength (TPieces sample_state ! 2)) (count_bytes (int (length [5 :: byte])) sample_state),
                 Inl (Error (PieceFailedVerification 2 (HashMismatch 2))))
         else (count_bytes (int (length [5 :: byte])) sample_state, Inr ()))"
    have "sha1_Sum d \<noteq> []" for d
      using length_sha1_Sum [of d] by fastforce
    with p show thesis by (intro that) (simp add: sample_state_pieces)
  qed
qed

section \<open>Properties\<close>

lemma verify_loop_frame:
  "verify_loop env fs t is = (t', r) \<Longrightarrow> (\<forall>i \<in> set is. i < length (TPieces t)) \<Longrightarrow>
     frame t' = frame t \<and> balance t' = balance t \<and> flagged t' = flagged t"
proof (induction "is" arbitrary: t)
  case (Cons i "is")
  have i: "i < length (TPieces t)" using Cons.prems(2) by simp
  show ?case
  proof (cases "PDownloaded (TPieces t ! i)")
    case False
    with Cons show ?thesis by simp
  next
    case True
    then have "i \<in> flagged t" using i by (simp add: flagged_def)
    obtain t1 r1 where v: "verifyPiece env fs t i = (t1, r1)" by (cases "verifyPiece env fs t i")
    from verifyPiece_frame [OF v] have "t1 = t \<or> t1 = set_downloaded i t" by blast
    then have t1: "frame t1 = frame t" "balance t1 = balance t" "flagged t1 = flagged t"
      and len: "length (TPieces t1) = length (TPieces t)"
      using i \<open>i \<in> flagged t\<close> by (elim disjE; simp add: insert_absorb)+
    show ?thesis
    proof (cases "\<exists>p. r1 = Inl (Panic p)")
      case True
      with Cons.prems(1) \<open>PDownloaded (TPieces t ! i)\<close> v have "t' = t1" by auto
      with t1 show ?thesis by simp
    next
      case False
      then obtain n where "verify_loop env fs (if r1 = Inr () then t1 else count_bytes n t1) is = (t', r)"
        using Cons.prems(1) True v by (cases r1; auto split: fault.splits)
      from Cons.IH [OF this] Cons.prems(2) t1 len show ?thesis by (simp split: if_splits)
    qed
  qed
qed simp

lemma verifyDownload_frame:
  "frame (fst (verifyDownload env fs t)) = frame t"
  "balance (fst (verifyDownload env fs t)) = balance t"
  "flagged (fst (verifyDownload env fs t)) = flagged t"
proof -
  obtain t1 r where v: "verify_loop env fs t [0..<length (TPieces t)] = (t1, r)"
    by (cases "verify_loop env fs t [0..<length (TPieces t)]")
  from verify_loop_frame [OF v]
  show "frame (fst (verifyDownload env fs t)) = frame t"
    and "balance (fst (verifyDownload env fs t)) = balance t"
    and "flagged (fst (verifyDownload env fs t)) = flagged t"
    by (simp_all add: verifyDownload_def v Let_def split: option.splits)
qed

text \<open>
  C26: whatever arrives and whatever the disk does, the bytes counted as downloaded and the
  bytes left keep their sum (modulo 64 bits): processing a block and verifying the
  download only move bytes from one counter to the other.
\<close>

theorem counters_balance:
  "balance (fst (snd (processPiece env fs t i begin data))) = balance t
    \<and> balance (fst (verifyDownload env fs t)) = balance t"
proof
  obtain fs' t' r where p: "processPiece env fs t i begin data = (fs', t', r)"
    by (cases "processPiece env fs t i begin data")
  from processPiece_frame [OF p] show "balance (fst (snd (processPiece env fs t i begin data))) = balance t"
    by (simp add: p)
qed (rule verifyDownload_frame)

text \<open>
  C25: a piece is flagged as downloaded only by a call that read the whole piece back from disk
  and found its hash; this holds for every peer, block and behaviour of the system. No block, good
  or bad, clears a flag, and \<open>verifyDownload\<close> leaves the flags as they are.
\<close>

theorem flag_needs_hash:
  assumes "processPiece env fs t i begin data = (fs', t', r)"
  shows "flagged t \<subseteq> flagged t' \<and> flagged (fst (verifyDownload env fs t)) = flagged t
    \<and> (j \<in> flagged t' - flagged t \<longrightarrow> j = i \<and> r = Inr () \<and> (\<exists>fm d. fileManager t = Some fm
         \<and> ReadPiece env fs' fm (int i) 0 (PLength (TPieces t ! i)) = Inr d
         \<and> sha1_Sum d = Hash (TPieces t ! i)))"
  using processPiece_frame [OF assms] verifyDownload_frame(3) [of env fs t] flagged_by_hash [OF assms, of j] by blast

theorem flag_needs_hash_witness:
  "\<exists>fs' d. ReadPiece healthy fs' sample_manager 0 0 2 = Inr d \<and> sha1_Sum d = sha1_Sum [9, 9]"
proof (rule sample_good_block)
  fix fs'
  assume p: "processPiece healthy sample_files sample_state 0 0 [9, 9] =
    (fs', set_downloaded 0 (count_bytes 2 sample_state), Inr ())"
  have "0 \<in> flagged (set_downloaded 0 (count_bytes 2 sample_state)) - flagged sample_state"
    by (simp add: sample_state_pieces flagged_def set_downloaded_def)
  with flag_needs_hash [OF p, of 0] show ?thesis
    by (auto simp: sample_state_pieces)
qed

text \<open>
  A block that fills its piece with the wrong bytes costs the whole piece: the counter moves
  by the length of this one block less the length of the piece, so a failed piece whose
  earlier blocks were refused or repeated drives the counter away from the bytes on disk.
\<close>

lemma failed_piece_accounting:
  assumes "processPiece env fs t i begin data = (fs', t', Inl (Error (PieceFailedVerification k e)))"
  shows "Downloaded t' = i64 (Downloaded t + int (length data) - PLength (TPieces t ! i))
    \<and> flagged t' = flagged t"
proof -
  have t': "t' = count_bytes (- PLength (TPieces t ! i)) (count_bytes (int (length data)) t)"
    using assms unfolding processPiece_def Let_def
    by (auto split: if_splits option.splits sum.splits fault.splits prod.splits dest!: verifyPiece_frame)
  show ?thesis
    unfolding t' by (simp add: count_bytes_def flagged_def i64_diff_left)
qed

lemma failed_piece_accounting_example:
  "\<exists>t'. Downloaded t' = i64 (2 + 1 - 1) \<and> flagged t' = flagged sample_state"
proof (rule sample_bad_block)
  fix fs' t'
  assume "processPiece healthy sample_files sample_state 2 0 [5] =
    (fs', t', Inl (Error (PieceFailedVerification 2 (HashMismatch 2))))"
  from failed_piece_accounting [OF this] show ?thesis
    by (intro exI [of _ t']) (simp add: sample_state_pieces sample_state_def)
qed

end
