(* ===== verification/Download.thy ===== *)
theory Download
  imports Torrent_Correct
begin

text \<open>
  The download as a transition system: blocks arrive from any peer in any order, the download
  is verified from time to time, and the mutex of the torrent makes each of these one step.
  What holds in every reachable state, and that an honest delivery completes the download.
\<close>

section \<open>Steps\<close>

text \<open>A predicate on the blocks says what the peers may send.\<close>

type_synonym peers_may = "torrent \<Rightarrow> nat \<Rightarrow> int \<Rightarrow> bytes \<Rightarrow> bool"

definition anything :: peers_may where
  "anything = (\<lambda>_ _ _ _. True)"

inductive torrent_step :: "os_env \<Rightarrow> peers_may \<Rightarrow> fsys \<times> torrent \<Rightarrow> fsys \<times> torrent \<Rightarrow> bool"
  for env and may where
  Block: "may t i begin data \<Longrightarrow> processPiece env fs t i begin data = (fs', t', r) \<Longrightarrow>
    torrent_step env may (fs, t) (fs', t')"
| Verify: "verifyDownload env fs t = (t', r) \<Longrightarrow> torrent_step env may (fs, t) (fs, t')"

inductive_cases torrent_stepE: "torrent_step env may (fs, t) (fs', t')"

definition reaches :: "os_env \<Rightarrow> peers_may \<Rightarrow> fsys \<times> torrent \<Rightarrow> fsys \<times> torrent \<Rightarrow> bool" where
  "reaches env may = (torrent_step env may)\<^sup>*\<^sup>*"

text \<open>The rule for invariants.\<close>

lemma reaches_invariant:
  assumes "reaches env may (fs, t) (fs', t')" and "P fs t"
    and "\<And>fs t fs' t'. P fs t \<Longrightarrow> torrent_step env may (fs, t) (fs', t') \<Longrightarrow> P fs' t'"
  shows "P fs' t'"
proof -
  from assms(1) have "(torrent_step env may)\<^sup>*\<^sup>* (fs, t) (fs', t')" by (simp add: reaches_def)
  then have "case_prod P (fs', t')"
  proof (induction rule: rtranclp_induct)
    case (step y z)
    then show ?case using assms(3) by (cases y; cases z) simp
  qed (simp add: assms(2))
  then show ?thesis by simp
qed

lemma step_frame:
  assumes "torrent_step env may (fs, t) (fs', t')"
  shows "frame t' = frame t" and "balance t' = balance t" and "flagged t \<subseteq> flagged t'"
  using assms
  by (auto elim!: torrent_stepE dest!: processPiece_frame)
    (metis fst_conv verifyDownload_frame)+

lemma reaches_frame:
  assumes "reaches env may (fs, t) (fs', t')"
  shows "frame t' = frame t" and "balance t' = balance t" and "flagged t \<subseteq> flagged t'"
proof -
  let ?P = "\<lambda>gs u. frame u = frame t \<and> balance u = balance t \<and> flagged t \<subseteq> flagged u"
  have "?P fs' t'"
    by (rule reaches_invariant [OF assms]) (auto dest: step_frame)
  then show "frame t' = frame t" and "balance t' = balance t" and "flagged t \<subseteq> flagged t'"
    by simp_all
qed

section \<open>Flagged pieces stay intact\<close>

lemma verified_flagged:
  "verified fs t fm \<longleftrightarrow> (\<forall>i \<in> flagged t. sha1_Sum (piece_bytes fs t fm i) = Hash (TPieces t ! i))"
  by (auto simp: verified_def flagged_def)

lemma verified_frame:
  assumes "verified fs t fm" and "frame t' = frame t" and "flagged t' = flagged t"
  shows "verified fs t' fm"
proof -
  have "i < length (TPieces t)" if "i \<in> flagged t" for i using that by (simp add: flagged_def)
  then show ?thesis
    using assms piece_bytes_frame [OF assms(2)] frame_pieces(3) [OF assms(2)]
    by (auto simp: verified_flagged)
qed

text \<open>The pieces already flagged keep their bytes.\<close>

definition kept :: "fsys \<Rightarrow> torrent \<Rightarrow> fsys \<Rightarrow> torrent \<Rightarrow> file_manager \<Rightarrow> bool" where
  "kept fs t fs' t' fm \<longleftrightarrow> (\<forall>i \<in> flagged t. piece_bytes fs' t' fm i = piece_bytes fs t fm i)"

lemma processPiece_verified:
  assumes "layout fs t fm" and "verified fs t fm" and "in_piece t i begin data"
    and p: "processPiece healthy fs t i begin data = (fs', t', r)"
  shows "layout fs' t' fm \<and> verified fs' t' fm \<and> kept fs t fs' t' fm"
proof (cases "PDownloaded (TPieces t ! i)")
  case True
  with assms show ?thesis by (auto simp: processPiece_def in_piece_def kept_def)
next
  case False
  obtain fs1 where l: "layout fs1 t fm"
    and o': "\<And>j. j < length (TPieces t) \<Longrightarrow> j \<noteq> i \<Longrightarrow> piece_bytes fs1 t fm j = piece_bytes fs t fm j"
    and pp: "processPiece healthy fs t i begin data =
      (fs1,
       if begin + int (length data) = PLength (TPieces t ! i) then
         if sha1_Sum (piece_bytes fs1 t fm i) = Hash (TPieces t ! i)
         then (set_downloaded i (count_bytes (int (length data)) t), Inr ())
         else (count_bytes (- PLength (TPieces t ! i)) (count_bytes (int (length data)) t),
               Inl (Error (PieceFailedVerification i (HashMismatch i))))
       else (count_bytes (int (length data)) t, Inr ()))"
    using processPiece_in_piece [OF assms(1,3) False] by metis
  have i: "i < length (TPieces t)" using assms(3) by (simp add: in_piece_def)
  have fs: "fs' = fs1" using p pp by simp
  have fr: "frame t' = frame t" using processPiece_frame [OF p] by simp
  have "sha1_Sum (piece_bytes fs1 t fm j) = Hash (TPieces t ! j)" if j: "j \<in> flagged t'" for j
  proof (cases "j = i")
    case True
    then have "i \<in> flagged t'" using j by simp
    moreover have "i \<notin> flagged t" using False by (simp add: flagged_def)
    ultimately show ?thesis using p pp True by (auto split: if_splits)
  next
    case ne: False
    then have "j \<in> flagged t" using processPiece_frame [OF p] j by auto
    then show ?thesis using assms(2) o' [of j] ne by (auto simp: verified_flagged flagged_def)
  qed
  moreover have "j < length (TPieces t)" if "j \<in> flagged t'" for j
    using that frame_pieces(1) [OF fr] by (simp add: flagged_def)
  moreover have "kept fs t fs' t' fm"
    using o' piece_bytes_frame [OF fr] False by (auto simp: kept_def flagged_def fs)
  ultimately show ?thesis
    using layout_same [OF l fr] piece_bytes_frame [OF fr] frame_pieces(3) [OF fr]
    by (simp add: verified_flagged fs)
qed

lemma step_verified:
  assumes "torrent_step healthy in_piece (fs, t) (fs', t')" and "layout fs t fm" and "verified fs t fm"
  shows "layout fs' t' fm \<and> verified fs' t' fm \<and> kept fs t fs' t' fm"
  using assms(1)
proof (cases rule: torrent_step.cases)
  case (Block i b data r)
  then show ?thesis using assms processPiece_verified by blast
next
  case (Verify r)
  note v = verifyDownload_frame [of healthy fs t]
  have "layout fs (fst (verifyDownload healthy fs t)) fm" using assms(2) v by (blast intro: layout_same)
  moreover have "verified fs (fst (verifyDownload healthy fs t)) fm"
    using assms(3) v by (blast intro: verified_frame)
  ultimately show ?thesis using Verify v(1) piece_bytes_frame [OF v(1)] by (auto simp: kept_def flagged_def)
qed

lemma reaches_verified:
  assumes "reaches healthy in_piece (fs, t) (fs', t')" and "layout fs t fm" and "verified fs t fm"
  shows "layout fs' t' fm \<and> verified fs' t' fm \<and> kept fs t fs' t' fm"
proof -
  have "layout fs' t' fm \<and> verified fs' t' fm \<and> flagged t \<subseteq> flagged t' \<and> kept fs t fs' t' fm"
  proof (rule reaches_invariant [OF assms(1)])
    fix gs u gs' u'
    assume inv: "layout gs u fm \<and> verified gs u fm \<and> flagged t \<subseteq> flagged u \<and> kept fs t gs u fm"
      and st: "torrent_step healthy in_piece (gs, u) (gs', u')"
    from step_verified [OF st, of fm] step_frame(3) [OF st] inv
    show "layout gs' u' fm \<and> verified gs' u' fm \<and> flagged t \<subseteq> flagged u' \<and> kept fs t gs' u' fm"
      by (auto simp: kept_def)
  qed (use assms in \<open>simp add: kept_def\<close>)
  then show ?thesis by simp
qed

section \<open>Verifying a complete download\<close>

lemma isComplete_flagged: "isComplete t \<longleftrightarrow> flagged t = {..<length (TPieces t)}"
  by (auto simp: isComplete_def flagged_def list_all_length)

lemma complete_frame:
  "frame t' = frame t \<Longrightarrow> flagged t' = flagged t \<Longrightarrow> isComplete t' = isComplete t"
  using frame_pieces(1) [of t' t] by (simp add: isComplete_flagged)

lemma verifyDownload_complete:
  assumes "isComplete t"
  shows "(\<exists>p. snd (verifyDownload env fs t) = Inl (Panic p)) \<or> snd (verifyDownload env fs t) = Inr ()"
proof -
  obtain t1 r where v: "verify_loop env fs t [0..<length (TPieces t)] = (t1, r)"
    by (cases "verify_loop env fs t [0..<length (TPieces t)]")
  from verify_loop_frame [OF v] have "isComplete t1 = isComplete t"
    by (intro complete_frame) simp_all
  with assms have "isComplete t1" by simp
  then have "filter (\<lambda>p. \<not> PDownloaded p) (TPieces t1) = []"
    by (simp add: isComplete_def list_all_iff filter_empty_conv)
  then show ?thesis by (cases r) (simp_all add: verifyDownload_def v)
qed

lemma verify_loop_verified:
  assumes "layout fs t fm" and "verified fs t fm" and "\<forall>i \<in> set is. i < length (TPieces t)"
  shows "verify_loop healthy fs t is = (t, None)"
  using assms
proof (induction "is")
  case (Cons i "is")
  show ?case
  proof (cases "PDownloaded (TPieces t ! i)")
    case True
    then have "(TPieces t ! i)\<lparr>PDownloaded := True\<rparr> = TPieces t ! i" by (cases "TPieces t ! i") simp
    then have "set_downloaded i t = t" by (simp add: set_downloaded_def)
    moreover have "sha1_Sum (piece_bytes fs t fm i) = Hash (TPieces t ! i)"
      using Cons.prems True by (simp add: verified_def)
    ultimately have "verifyPiece healthy fs t i = (t, Inr ())"
      using verifyPiece_layout [OF Cons.prems(1), of i] Cons.prems(3) by simp
    with Cons True show ?thesis by simp
  qed (use Cons in simp)
qed simp

lemma verifyDownload_verified:
  "layout fs t fm \<Longrightarrow> verified fs t fm \<Longrightarrow> isComplete t \<Longrightarrow> verifyDownload healthy fs t = (t, Inr ())"
  by (simp add: verifyDownload_def verify_loop_verified isComplete_def list_all_iff filter_empty_conv)

section \<open>An honest delivery\<close>

fun deliver_all :: "os_env \<Rightarrow> nat \<Rightarrow> bytes list list \<Rightarrow> fsys \<times> torrent \<Rightarrow> fsys \<times> torrent" where
  "deliver_all env i [] s = s"
| "deliver_all env i (bs # bss) s = deliver_all env (Suc i) bss (deliver env i 0 bs s)"

text \<open>The blocks of one piece: none is empty, together they have its length and its hash.\<close>

definition good_blocks :: "torrent \<Rightarrow> nat \<Rightarrow> bytes list \<Rightarrow> bool" where
  "good_blocks t i bs \<longleftrightarrow>
     bs \<noteq> [] \<and> [] \<notin> set bs \<and> int (length (concat bs)) = PLength (TPieces t ! i)
     \<and> sha1_Sum (concat bs) = Hash (TPieces t ! i)"

lemma deliver_good:
  assumes "layout fs t fm" and "i < length (TPieces t)" and "i \<notin> flagged t" and "good_blocks t i bs"
    and "deliver healthy i 0 bs (fs, t) = (fs', t')"
  shows "layout fs' t' fm \<and> frame t' = frame t \<and> flagged t' = insert i (flagged t)
    \<and> piece_bytes fs' t' fm i = concat bs \<and> untouched i fs t fs' t' fm"
  using deliver_completes [OF assms(1-3) list.size(3) [symmetric], of bs fs' t'] assms(4,5)
  by (simp add: good_blocks_def)

lemma deliver_all_good:
  assumes "layout fs t fm" and "flagged t = {..<i}" and "i + length bss = length (TPieces t)"
    and "\<forall>k < length bss. good_blocks t (i + k) (bss ! k)"
    and "deliver_all healthy i bss (fs, t) = (fs', t')"
  shows "layout fs' t' fm \<and> frame t' = frame t \<and> isComplete t'
    \<and> (\<forall>k < length bss. piece_bytes fs' t' fm (i + k) = concat (bss ! k))
    \<and> (\<forall>j < i. piece_bytes fs' t' fm j = piece_bytes fs t fm j)"
  using assms
proof (induction bss arbitrary: i fs t)
  case Nil
  then show ?case by (simp add: isComplete_flagged)
next
  case (Cons bs bss)
  obtain fs1 t1 where d: "deliver healthy i 0 bs (fs, t) = (fs1, t1)" by (cases "deliver healthy i 0 bs (fs, t)")
  have i: "i < length (TPieces t)" "i \<notin> flagged t" "good_blocks t i bs"
    using Cons.prems(2,3) Cons.prems(4) [rule_format, of 0] by simp_all
  note one = deliver_good [OF Cons.prems(1) i d]
  then have fr: "frame t1 = frame t" by simp
  have gb: "good_blocks t1 j = good_blocks t j" if "j < length (TPieces t)" for j
    using frame_pieces(3) [OF fr that] by (simp add: good_blocks_def fun_eq_iff)
  have rest: "layout fs' t' fm \<and> frame t' = frame t1 \<and> isComplete t'
      \<and> (\<forall>k < length bss. piece_bytes fs' t' fm (Suc i + k) = concat (bss ! k))
      \<and> (\<forall>j < Suc i. piece_bytes fs' t' fm j = piece_bytes fs1 t1 fm j)"
  proof (rule Cons.IH)
    show "layout fs1 t1 fm" using one by simp
    show "flagged t1 = {..<Suc i}" using one Cons.prems(2) by auto
    show "Suc i + length bss = length (TPieces t1)"
      using Cons.prems(3) frame_pieces(1) [OF fr] by simp
    show "\<forall>k<length bss. good_blocks t1 (Suc i + k) (bss ! k)"
      using Cons.prems(3) Cons.prems(4) gb by fastforce
    show "deliver_all healthy (Suc i) bss (fs1, t1) = (fs', t')" using Cons.prems(5) d by simp
  qed
  moreover have "piece_bytes fs' t' fm (i + k) = concat ((bs # bss) ! k)" if "k < length (bs # bss)" for k
    using rest one that by (cases k) simp_all
  moreover have "piece_bytes fs' t' fm j = piece_bytes fs t fm j" if "j < i" for j
    using rest one that i by (simp add: untouched_def)
  ultimately show ?case using fr by simp
qed

text \<open>Every flagged piece has the hash of the torrent file; so has all of a complete download.\<close>

lemma flagged_hashes:
  assumes "NewTorrent pid now m = Inr t0"
    and "layout fs (t0\<lparr>fileManager := Some fm\<rparr>) fm"
    and "reaches healthy in_piece (fs, t0\<lparr>fileManager := Some fm\<rparr>) (fs', t')"
  shows "layout fs' t' fm" and "verified fs' t' fm" and "length (TPieces t') = nat (NumPieces m)"
    and "\<forall>i \<in> flagged t'. PieceHash m (int i) = Inr (sha1_Sum (piece_bytes fs' t' fm i))"
proof -
  let ?t = "t0\<lparr>fileManager := Some fm\<rparr>"
  have "flagged ?t = {}" using NewTorrent_Inr(5) [OF assms(1)] by (simp add: flagged_def)
  then have "verified fs ?t fm" by (simp add: verified_flagged)
  then show inv: "layout fs' t' fm" "verified fs' t' fm"
    using reaches_verified [OF assms(3,2)] by simp_all
  note fr = reaches_frame(1) [OF assms(3)]
  show len: "length (TPieces t') = nat (NumPieces m)"
    using frame_pieces(1) [OF fr] NewTorrent_Inr(3) [OF assms(1)] by simp
  show "\<forall>i \<in> flagged t'. PieceHash m (int i) = Inr (sha1_Sum (piece_bytes fs' t' fm i))"
  proof
    fix i
    assume i: "i \<in> flagged t'"
    then have i0: "i < length (TPieces t0)"
      using frame_pieces(1) [OF fr] by (simp add: flagged_def)
    with i have "sha1_Sum (piece_bytes fs' t' fm i) = Hash (TPieces t0 ! i)"
      using inv(2) frame_pieces(3) [OF fr, of i] by (simp add: verified_flagged)
    with NewTorrent_Inr(4) [OF assms(1) i0] show "PieceHash m (int i) = Inr (sha1_Sum (piece_bytes fs' t' fm i))"
      by simp
  qed
qed

lemma complete_download:
  assumes "NewTorrent pid now m = Inr t0"
    and "layout fs (t0\<lparr>fileManager := Some fm\<rparr>) fm"
    and "reaches healthy in_piece (fs, t0\<lparr>fileManager := Some fm\<rparr>) (fs', t')"
    and "isComplete t'"
  shows "(\<forall>i < nat (NumPieces m). PieceHash m (int i) = Inr (sha1_Sum (piece_bytes fs' t' fm i)))
    \<and> verifyDownload healthy fs' t' = (t', Inr ())"
  using flagged_hashes [OF assms(1-3)] assms(4) verifyDownload_verified [of fs' t' fm]
  by (simp add: isComplete_flagged)

text \<open>A last piece of length zero is flagged only for the hash of no bytes.\<close>

lemma last_piece_length:
  assumes "NewTorrent pid now m = Inr t0" and "TotalLength m smod PieceLength (Info m) = 0"
  shows "PLength (last (TPieces t0)) = 0" and "TPieces t0 \<noteq> []"
    and "last (TPieces t0) = TPieces t0 ! (length (TPieces t0) - 1)"
    and "int (length (TPieces t0) - 1) = NumPieces m - 1"
proof -
  note new = NewTorrent_Inr [OF assms(1)]
  let ?k = "length (TPieces t0) - 1"
  have k: "?k < length (TPieces t0)" and i: "int ?k = NumPieces m - 1" using new(2,3) by auto
  then have "PLength (TPieces t0 ! ?k) = 0"
    using new(4) [OF k] assms(2) by (simp add: calculatePieceLength_def)
  moreover show "TPieces t0 \<noteq> []" using k by auto
  then show "last (TPieces t0) = TPieces t0 ! ?k" by (rule last_conv_nth)
  ultimately show "PLength (last (TPieces t0)) = 0" by simp
  show "int ?k = NumPieces m - 1" by (rule i)
qed

lemma last_piece_empty:
  assumes "NewTorrent pid now m = Inr t0" and "TotalLength m smod PieceLength (Info m) = 0"
    and "reaches env anything (fs, t0\<lparr>fileManager := Some fm\<rparr>) (fs', t')" and "isComplete t'"
  shows "PieceHash m (NumPieces m - 1) = Inr (sha1_Sum [])"
proof -
  let ?t = "t0\<lparr>fileManager := Some fm\<rparr>" and ?k = "length (TPieces t0) - 1"
  let ?last = "\<lambda>u. frame u = frame ?t \<and> (?k \<in> flagged u \<longrightarrow> Hash (TPieces t0 ! ?k) = sha1_Sum [])"
  note new = NewTorrent_Inr [OF assms(1)]
  note lp = last_piece_length [OF assms(1,2)]
  have k: "?k < length (TPieces t0)" "int ?k = NumPieces m - 1" using lp(2,4) by simp_all
  have z: "PLength (TPieces t0 ! ?k) = 0" using lp(1,3) by simp
  have "?last t'"
  proof (rule reaches_invariant [OF assms(3)])
    show "?last ?t" using new(5) by (auto simp: flagged_def)
    fix fs u fs' u'
    assume inv: "?last u" and st: "torrent_step env anything (fs, u) (fs', u')"
    note fr = inv [THEN conjunct1]
    have "Hash (TPieces t0 ! ?k) = sha1_Sum []" if new_flag: "?k \<in> flagged u'" "?k \<notin> flagged u"
      using st
    proof (cases rule: torrent_step.cases)
      case (Block i b data r)
      from flagged_by_hash [OF Block(2) new_flag] obtain fm' d where i: "?k = i"
        and rd: "ReadPiece env fs' fm' (int i) 0 (PLength (TPieces u ! i)) = Inr d"
        and h: "sha1_Sum d = Hash (TPieces u ! i)" by blast
      have "PLength (TPieces u ! i) = 0" and hu: "Hash (TPieces u ! i) = Hash (TPieces t0 ! ?k)"
        using frame_pieces(3) [OF fr, of ?k] k(1) z i by simp_all
      with rd have "length d \<le> 0"
        by (auto simp: ReadPiece_def dest: read_loop_length split: if_splits)
      with h hu show ?thesis by simp
    next
      case (Verify r)
      with new_flag verifyDownload_frame(3) [of env fs u] show ?thesis by simp
    qed
    then show "?last u'" using inv step_frame(1) [OF st] by auto
  qed
  moreover have "?k \<in> flagged t'"
    using assms(4) frame_pieces(1) [OF reaches_frame(1) [OF assms(3)]] k(1) by (simp add: isComplete_flagged)
  ultimately show ?thesis using new(4) [OF k(1)] k(2) by simp
qed

section \<open>A torrent of one piece\<close>

definition one_meta :: meta_info where
  "one_meta = \<lparr>Announce = [],
     Info = \<lparr>PieceLength = 4, Pieces = sha1_Sum [1, 2, 3], Name = str ''x'', Length = 3, Files = []\<rparr>\<rparr>"

definition one_torrent :: torrent where
  "one_torrent =
     \<lparr>metaInfo = one_meta, peerID = [],
      TPieces = [\<lparr>Index = 0, Hash = sha1_Sum [1, 2, 3], PLength = 3, PData = [], PDownloaded = False\<rparr>],
      Downloaded = 0, Uploaded = 0, Left = 3, ActivePeers = 0, failedPeers = Map.empty,
      fileManager = None, startTime = 0, progressClosed = False, PieceSize = 4,
      activePeers = Map.empty\<rparr>"

lemma one_torrent_new: "NewTorrent [] 0 one_meta = Inr one_torrent"
proof -
  have "NumPieces one_meta = 1" by (simp add: NumPieces_def one_meta_def)
  moreover have "PieceHash one_meta 0 = Inr (sha1_Sum [1, 2, 3])"
    using calculation by (simp add: PieceHash_def) (simp add: one_meta_def)
  moreover have "calculatePieceLength one_meta 0 = 3"
    using calculation(1) by (simp add: calculatePieceLength_def) (simp add: one_meta_def TotalLength_def)
  moreover obtain h where "InfoHash one_meta = Inr h"
    using InfoHash_Inr_iff [of one_meta] by (auto simp: one_meta_def)
  ultimately show ?thesis
    by (simp add: NewTorrent_def one_torrent_def) (simp add: one_meta_def TotalLength_def)
qed

definition one_file :: fsys where
  "one_file = [(False, [str ''x'']) \<mapsto> FileNode [0, 0, 0]]"

definition one_manager :: file_manager where
  "one_manager =
     \<lparr>baseDir = str ''.'',
      files = [Some \<lparr>File = \<lparr>file_path = (False, [str ''x'']), is_open = True\<rparr>, FLength = 3\<rparr>],
      pieceSize = 4, pieceOffsets = [0, 3], totalLength = 3, numPieces = 1\<rparr>"

abbreviation one_start :: torrent where
  "one_start \<equiv> one_torrent\<lparr>fileManager := Some one_manager\<rparr>"

lemma one_disk: "disk one_file one_manager = [0, 0, 0]"
  by (simp add: disk_def one_file_def one_manager_def)

lemma one_layout: "layout one_file one_start one_manager"
proof -
  have "allocated one_file one_manager"
    unfolding allocated_def one_disk by (simp add: one_file_def one_manager_def in_i64_def)
  then show ?thesis
    unfolding layout_def one_disk by (simp add: one_torrent_def one_manager_def max_rw_def)
qed

lemma one_flags: "flagged one_start = {}" "length (TPieces one_torrent) = Suc 0" "TPieces one_torrent \<noteq> []"
  by (auto simp: flagged_def one_torrent_def nth_Cons')

lemma one_good: "good_blocks one_start 0 [[1, 2], [3]]"
  by (simp add: good_blocks_def one_torrent_def)

section \<open>Properties\<close>

text \<open>
  C1: from a new torrent with its files allocated, as long as blocks stay inside their piece, the
  following holds after every sequence of blocks (repeated, reordered, wrong, from any number of
  peers) and verifications, complete or not. A flagged piece stays flagged and keeps its bytes
  whatever comes later, every flagged piece has on disk bytes with the hash the torrent
  file gives, and when the download counts as complete that is every piece of the torrent and
  \<open>verifyDownload\<close> succeeds.
\<close>

theorem complete_download_correct:
  assumes "NewTorrent pid now m = Inr t0"
    and "layout fs (t0\<lparr>fileManager := Some fm\<rparr>) fm"
    and "reaches healthy in_piece (fs, t0\<lparr>fileManager := Some fm\<rparr>) (fs1, t1)"
    and "reaches healthy in_piece (fs1, t1) (fs2, t2)"
  shows "flagged t1 \<subseteq> flagged t2
    \<and> (\<forall>i \<in> flagged t1. piece_bytes fs2 t2 fm i = piece_bytes fs1 t1 fm i)
    \<and> (\<forall>i \<in> flagged t2. PieceHash m (int i) = Inr (sha1_Sum (piece_bytes fs2 t2 fm i)))
    \<and> (isComplete t2 \<longrightarrow> flagged t2 = {..<nat (NumPieces m)} \<and> verifyDownload healthy fs2 t2 = (t2, Inr ()))"
proof -
  have r2: "reaches healthy in_piece (fs, t0\<lparr>fileManager := Some fm\<rparr>) (fs2, t2)"
    using assms(3,4) unfolding reaches_def by (rule rtranclp_trans)
  have "kept fs1 t1 fs2 t2 fm"
    using reaches_verified [OF assms(4)] flagged_hashes(1,2) [OF assms(1-3)] by simp
  then show ?thesis
    using reaches_frame(3) [OF assms(4)] flagged_hashes [OF assms(1,2) r2] verifyDownload_verified [of fs2 t2 fm]
    by (simp add: kept_def isComplete_flagged)
qed

theorem complete_download_correct_witness:
  "\<exists>fs1 t1 fs2 t2. reaches healthy in_piece (one_file, one_start) (fs1, t1)
    \<and> reaches healthy in_piece (fs1, t1) (fs2, t2) \<and> flagged t1 = {0}
    \<and> processPiece healthy fs1 t1 0 0 [9, 9] = (fs2, t2, Inr ())
    \<and> piece_bytes fs2 t2 one_manager 0 = piece_bytes fs1 t1 one_manager 0
    \<and> PieceHash one_meta 0 = Inr (sha1_Sum (piece_bytes fs2 t2 one_manager 0))
    \<and> verifyDownload healthy fs2 t2 = (t2, Inr ())"
proof -
  have "in_piece one_start 0 0 [1, 2, 3]"
    by (simp add: in_piece_def one_torrent_def)
  moreover obtain fs1 t1 r where p: "processPiece healthy one_file one_start 0 0 [1, 2, 3] = (fs1, t1, r)"
    by (cases "processPiece healthy one_file one_start 0 0 [1, 2, 3]")
  ultimately have r: "reaches healthy in_piece (one_file, one_start) (fs1, t1)"
    by (auto simp: reaches_def intro: Block)
  have "good_blocks one_start 0 [[1, 2, 3]]" by (simp add: good_blocks_def one_torrent_def)
  then have f: "flagged t1 = {0}"
    using deliver_good [OF one_layout, of 0 "[[1, 2, 3]]" fs1 t1] one_flags p by simp
  note fr = frame_pieces [OF reaches_frame(1) [OF r]]
  have len: "length (TPieces t1) = 1" using fr(1) one_flags by simp
  have again: "processPiece healthy fs1 t1 0 0 [9, 9] = (fs1, t1, Inr ())"
    using f len by (auto simp: processPiece_def flagged_def)
  moreover have "in_piece t1 0 0 [9, 9]"
    using len fr(3) [of 0] by (simp add: in_piece_def one_torrent_def)
  ultimately have r2: "reaches healthy in_piece (fs1, t1) (fs1, t1)"
    by (auto simp: reaches_def intro: Block)
  have "isComplete t1" using f len by (auto simp: isComplete_flagged)
  with complete_download_correct [OF one_torrent_new one_layout r r2] r r2 f again show ?thesis
    by (intro exI [of _ fs1] exI [of _ t1]) simp
qed

text \<open>
  C15: a peer that delivers every piece in consecutive blocks, whatever their sizes, completes
  the download: all pieces are flagged, the disk holds the bytes delivered, and
  \<open>verifyDownload\<close> succeeds.
\<close>

theorem honest_delivery_completes:
  assumes "layout fs t fm" and "flagged t = {}" and "length bss = length (TPieces t)"
    and "\<forall>i < length bss. good_blocks t i (bss ! i)"
    and "deliver_all healthy 0 bss (fs, t) = (fs', t')"
  shows "isComplete t' \<and> verifyDownload healthy fs' t' = (t', Inr ())
    \<and> (\<forall>i < length bss. piece_bytes fs' t' fm i = concat (bss ! i))"
proof -
  from assms have d: "layout fs' t' fm" "frame t' = frame t" "isComplete t'"
    and b: "\<forall>i < length bss. piece_bytes fs' t' fm i = concat (bss ! i)"
    using deliver_all_good [of fs t fm 0 bss fs' t'] by simp_all
  have "verified fs' t' fm"
    using b assms(3,4) frame_pieces(1,3) [OF d(2)] by (auto simp: verified_def good_blocks_def)
  with d b show ?thesis by (simp add: verifyDownload_verified)
qed

theorem honest_delivery_completes_witness:
  "\<exists>fs' t'. deliver_all healthy 0 [[[1, 2], [3]]] (one_file, one_start) = (fs', t')
    \<and> isComplete t' \<and> piece_bytes fs' t' one_manager 0 = [1, 2, 3]"
proof -
  obtain fs' t' where d: "deliver_all healthy 0 [[[1, 2], [3]]] (one_file, one_start) = (fs', t')"
    by (cases "deliver_all healthy 0 [[[1, 2], [3]]] (one_file, one_start)")
  have "length [[[1, 2], [3]] :: bytes list] = length (TPieces one_start)" by (simp add: one_flags)
  from honest_delivery_completes [OF one_layout one_flags(1) this _ d] one_good d show ?thesis
    by (intro exI [of _ fs'] exI [of _ t']) simp
qed

text \<open>
  C27: nothing checks that a block stays inside its piece. A block sent for a piece that is still
  missing, with an offset that reaches a later piece, overwrites that piece on disk with whatever
  the peer sent; no error is reported and the later piece stays flagged as verified.
\<close>

theorem stray_block_overwrites:
  assumes "layout fs t fm" and "i < j" and "j < length (TPieces t)"
    and "\<not> PDownloaded (TPieces t ! i)"
    and "data \<noteq> []" and "int (length data) = PLength (TPieces t ! j)"
  shows "\<exists>fs' t'. processPiece healthy fs t i ((int j - int i) * pieceSize fm) data = (fs', t', Inr ())
    \<and> flagged t' = flagged t \<and> piece_bytes fs' t' fm j = data"
proof -
  let ?b = "(int j - int i) * pieceSize fm"
  note al = layout_addr(2,4) [OF assms(1) in_piece_Nil [OF assms(1,3)]]
  from assms(1) have fm: "fileManager t = Some fm" and ps: "0 \<le> pieceSize fm" and a: "allocated fs fm"
    by (simp_all add: layout_def allocated_def)
  have sum: "int i * pieceSize fm + ?b = int j * pieceSize fm" by (simp add: algebra_simps)
  have b: "pieceSize fm \<le> ?b" "0 \<le> ?b"
    using mult_right_mono [of 1 "int j - int i" "pieceSize fm"] ps assms(2) by auto
  have addr: "addr_ok fm (int i, ?b)" "addr_pos fm (int i, ?b) = addr_pos fm (int j, 0)"
    using al(1) b(2) by (simp_all add: addr_ok_def addr_pos_def sum)
  obtain fs' where w: "WritePiece healthy fs fm (int i) ?b data = (fs', Inr ())"
      and d: "disk fs' fm = copy_at (addr_pos fm (int j, 0)) data (disk fs fm)"
    using WritePiece_flat [OF a addr(1)] addr(2) by metis
  have len: "length data = nat (PLength (TPieces t ! j))" using assms(6) by simp
  have "PLength (TPieces t ! i) \<le> pieceSize fm" using assms by (simp add: layout_def)
  moreover have "in_i64 (?b + int (length data))"
  proof -
    have "int j * pieceSize fm + int (length data) \<le> int (length (disk fs fm))"
      using assms by (simp add: layout_def)
    moreover have "0 \<le> int i * pieceSize fm" using ps by simp
    then have "?b \<le> int j * pieceSize fm" using sum by linarith
    moreover have "in_i64 (int (length (disk fs fm)))" using a by (simp add: allocated_def)
    ultimately show ?thesis using b(2) by (auto simp: in_i64_def)
  qed
  ultimately have "i64 (?b + int (length data)) \<noteq> PLength (TPieces t ! i)"
    using b assms(5) by (simp add: in_i64_id) (smt (verit) length_greater_0_conv of_nat_0_less_iff)
  then have "processPiece healthy fs t i ?b data = (fs', count_bytes (int (length data)) t, Inr ())"
    using assms(2-4) fm w by (simp add: processPiece_def Let_def)
  moreover have "piece_bytes fs' (count_bytes (int (length data)) t) fm j = data"
    using al(2) read_copy_at_same [of "addr_pos fm (int j, 0)" data "disk fs fm"]
    by (simp add: piece_bytes_def d len [symmetric])
  ultimately show ?thesis by simp
qed

theorem stray_block_overwrites_witness:
  "\<exists>fs' t'. processPiece healthy sample_files sample_state 0 2 [6, 6] = (fs', t', Inr ())
    \<and> Suc 0 \<in> flagged t' \<and> piece_bytes fs' t' sample_manager (Suc 0) = [6, 6]"
proof -
  have "Suc 0 \<in> flagged sample_state" by (simp add: flagged_def sample_state_pieces)
  with stray_block_overwrites [OF sample_layout, of 0 "Suc 0" "[6, 6]"] show ?thesis
    by (auto simp: sample_state_pieces sample_piece_size)
qed

text \<open>
  C38: the final verification cannot fail. \<open>verifyDownload\<close> runs only on a complete download, and
  then, whatever is on disk, it reports no missing piece and clears no flag: a piece that
  fails its check is only subtracted from the counter.
\<close>

theorem verify_download_silent:
  assumes "isComplete t"
  shows "snd (verifyDownload env fs t) \<noteq> Inl (Error e) \<and> isComplete (fst (verifyDownload env fs t))"
  using verifyDownload_complete [OF assms, of env fs] assms
    complete_frame [OF verifyDownload_frame(1) verifyDownload_frame(3)] by auto

theorem verify_download_silent_witness:
  "snd (verifyDownload healthy one_file (set_downloaded 0 one_start)) \<noteq> Inl (Error (PiecesMissing 1))"
proof -
  have "isComplete (set_downloaded 0 one_start)"
    by (simp add: isComplete_def set_downloaded_def one_torrent_def)
  from verify_download_silent [OF this] show ?thesis by blast
qed

text \<open>
  C37: when the length of the torrent is a multiple of the piece length, its last piece gets length
  zero, so the piece is never read back whole: whatever the peers send and whatever the
  disk does, the piece keeps that length, and the download completes only if the last hash is
  that of no bytes at all.
\<close>

theorem divisible_length_never_completes:
  assumes "NewTorrent pid now m = Inr t0" and "TotalLength m smod PieceLength (Info m) = 0"
    and "reaches env anything (fs, t0\<lparr>fileManager := Some fm\<rparr>) (fs', t')"
  shows "int (length (TPieces t')) = NumPieces m \<and> PLength (TPieces t' ! nat (NumPieces m - 1)) = 0
    \<and> (isComplete t' \<longrightarrow> PieceHash m (NumPieces m - 1) = Inr (sha1_Sum []))"
proof -
  note lp = last_piece_length [OF assms(1,2)] and fr = frame_pieces [OF reaches_frame(1) [OF assms(3)]]
  have k: "nat (NumPieces m - 1) = length (TPieces t0) - 1" using lp(4) by linarith
  have "int (length (TPieces t')) = NumPieces m"
    using lp(2,4) fr(1) by (cases "TPieces t0") simp_all
  moreover have "PLength (TPieces t' ! nat (NumPieces m - 1)) = 0"
    using lp(1,2,3) fr(3) [of "length (TPieces t0) - 1"] by (simp add: k)
  ultimately show ?thesis using last_piece_empty [OF assms] by simp
qed

theorem divisible_length_never_completes_witness:
  "\<exists>m t0 fs' t'. NewTorrent [] 0 m = Inr t0 \<and> Length (Info m) = PieceLength (Info m)
    \<and> reaches healthy anything (one_file, t0\<lparr>fileManager := Some one_manager\<rparr>) (fs', t') \<and> isComplete t'
    \<and> PLength (TPieces t' ! 0) = 0 \<and> PieceHash m (NumPieces m - 1) = Inr (sha1_Sum [])"
proof -
  define m where "m = \<lparr>Announce = [],
    Info = \<lparr>PieceLength = 3, Pieces = sha1_Sum [], Name = str ''x'', Length = 3, Files = []\<rparr>\<rparr>"
  define t where "t = one_torrent\<lparr>metaInfo := m, PieceSize := 3,
    TPieces := [\<lparr>Index = 0, Hash = sha1_Sum [], PLength = 0, PData = [], PDownloaded = False\<rparr>]\<rparr>"
  let ?t = "t\<lparr>fileManager := Some one_manager\<rparr>"
  have n: "NumPieces m = 1" by (simp add: NumPieces_def m_def)
  have tl: "TotalLength m smod PieceLength (Info m) = 0" by (simp add: m_def TotalLength_def)
  have "PieceHash m 0 = Inr (sha1_Sum [])" using n by (simp add: PieceHash_def) (simp add: m_def)
  moreover have "calculatePieceLength m 0 = 0" using n tl by (simp add: calculatePieceLength_def)
  moreover obtain h where "InfoHash m = Inr h" using InfoHash_Inr_iff [of m] by (auto simp: m_def)
  ultimately have new: "NewTorrent [] 0 m = Inr t"
    using n by (simp add: NewTorrent_def t_def one_torrent_def) (simp add: m_def TotalLength_def)
  have l: "layout one_file ?t one_manager"
    using one_layout by (simp add: layout_def t_def one_torrent_def max_rw_def)
  have "in_piece ?t 0 0 []" and "\<not> PDownloaded (TPieces ?t ! 0)" by (simp_all add: in_piece_def t_def)
  from processPiece_in_piece [OF l this] obtain fs' where
      p: "processPiece healthy one_file ?t 0 0 [] = (fs', set_downloaded 0 (count_bytes 0 ?t), Inr ())"
    by (auto simp: t_def piece_bytes_def)
  let ?t' = "set_downloaded 0 (count_bytes 0 ?t)"
  have r: "reaches healthy anything (one_file, ?t) (fs', ?t')"
    using p by (auto simp: reaches_def anything_def intro: Block)
  have c: "isComplete ?t'" by (simp add: isComplete_def set_downloaded_def t_def)
  from divisible_length_never_completes [OF new tl r] n c
  have "PLength (TPieces ?t' ! 0) = 0" "PieceHash m (NumPieces m - 1) = Inr (sha1_Sum [])" by simp_all
  with new r c show ?thesis
    by (intro exI [of _ m] exI [of _ t] exI [of _ fs'] exI [of _ ?t']) (simp add: m_def)
qed

end
