(* ===== verification/Net.thy ===== *)
theory Net
  imports GoLib
begin

text \<open>
  A \<open>net.Conn\<close> as \<open>internal/peer\<close> uses it: the bytes that are still to arrive, the bytes written, and
  whether it is closed. Which calls fail is up to the environment, a parameter of every
  operation.
\<close>

record conn =
  incoming :: bytes
  outgoing :: bytes
  closed :: bool

datatype net_error = NetEOF | NetUnexpectedEOF | NetTimeout | NetClosed | NetFailure

datatype net_call = DeadlineCall | SendCall bytes | RecvCall nat | DialCall bytes

text \<open>
  \<open>None\<close> lets a call through, \<open>Some k\<close> makes it fail: a write after its first \<open>k\<close> bytes have gone out, a
  read by a timeout after \<open>k\<close> bytes have come in.
\<close>

type_synonym net_env = "net_call \<Rightarrow> nat option"

definition quiet :: net_env where
  "quiet = (\<lambda>_. None)"

lemma quiet_simps [simp]:
  "quiet DeadlineCall = None" "quiet (SendCall b) = None" "quiet (RecvCall n) = None" "quiet (DialCall a) = None"
  by (simp_all add: quiet_def)

definition SetDeadline :: "net_env \<Rightarrow> conn \<Rightarrow> net_error option" where
  "SetDeadline env c =
     (if closed c then Some NetClosed
      else (case env DeadlineCall of Some k \<Rightarrow> Some NetFailure | None \<Rightarrow> None))"

definition Conn_Write :: "net_env \<Rightarrow> conn \<Rightarrow> bytes \<Rightarrow> conn \<times> net_error option" where
  "Conn_Write env c b =
     (if closed c then (c, Some NetClosed)
      else
        (case env (SendCall b) of
           Some k \<Rightarrow> (c\<lparr>outgoing := outgoing c @ take k b\<rparr>, Some NetFailure)
         | None \<Rightarrow> (c\<lparr>outgoing := outgoing c @ b\<rparr>, None)))"

text \<open>\<open>io.ReadFull\<close> on the connection.\<close>

definition ReadFull :: "net_env \<Rightarrow> conn \<Rightarrow> nat \<Rightarrow> conn \<times> (net_error + bytes)" where
  "ReadFull env c n =
     (if closed c then (c, Inl NetClosed)
      else
        (case env (RecvCall n) of
           Some k \<Rightarrow> (c\<lparr>incoming := drop (min k n) (incoming c)\<rparr>, Inl NetTimeout)
         | None \<Rightarrow>
             (case read_full n (incoming c) of
                Inl EOF \<Rightarrow> (c, Inl NetEOF)
              | Inl UnexpectedEOF \<Rightarrow> (c\<lparr>incoming := []\<rparr>, Inl NetUnexpectedEOF)
              | Inr (b, rest) \<Rightarrow> (c\<lparr>incoming := rest\<rparr>, Inr b))))"

definition Conn_Close :: "conn \<Rightarrow> conn \<times> net_error option" where
  "Conn_Close c = (if closed c then (c, Some NetClosed) else (c\<lparr>closed := True\<rparr>, None))"

end
