(* ===== verification/Peer.thy ===== *)
theory Peer
  imports Net "HOL-Library.Signed_Division"
begin

unbundle bit_operations_syntax

text \<open>
  \<open>internal/peer\<close>: the bit field of a peer's pieces, the handshake, the framing of messages, and the
  life of a connection.
\<close>

section \<open>Messages and bit fields\<close>

definition MsgChoke :: int where "MsgChoke = 0"
definition MsgUnchoke :: int where "MsgUnchoke = 1"
definition MsgInterested :: int where "MsgInterested = 2"
definition MsgNotInterested :: int where "MsgNotInterested = 3"
definition MsgHave :: int where "MsgHave = 4"
definition MsgBitfield :: int where "MsgBitfield = 5"
definition MsgRequest :: int where "MsgRequest = 6"
definition MsgPiece :: int where "MsgPiece = 7"
definition MsgCancel :: int where "MsgCancel = 8"
definition MsgKeepAlive :: int where "MsgKeepAlive = -1"

lemmas msg_types = MsgChoke_def MsgUnchoke_def MsgInterested_def MsgNotInterested_def MsgHave_def
  MsgBitfield_def MsgRequest_def MsgPiece_def MsgCancel_def MsgKeepAlive_def

definition NewBitfield :: "int \<Rightarrow> ('e, bytes) go" where
  "NewBitfield n =
     (let k = i64 (n + 7) sdiv 8 in
      if k < 0 then Inl (Panic MakeSliceLen) else Inr (replicate (nat k) 0))"

definition HasPiece :: "bytes \<Rightarrow> int \<Rightarrow> bool" where
  "HasPiece bf index =
     (let byteIndex = index sdiv 8; offset = index smod 8 in
      if byteIndex < 0 \<or> byteIndex \<ge> int (length bf) then False
      else drop_bit (nat (7 - offset)) (bf ! nat byteIndex) AND 1 \<noteq> 0)"

definition SetPiece :: "bytes \<Rightarrow> int \<Rightarrow> bytes" where
  "SetPiece bf index =
     (let byteIndex = index sdiv 8; offset = index smod 8 in
      if byteIndex < 0 \<or> byteIndex \<ge> int (length bf) then bf
      else bf[nat byteIndex := bf ! nat byteIndex OR push_bit (nat (7 - offset)) 1])"

section \<open>State\<close>

text \<open>
  The connection is nil before \<open>Connect\<close>; the bit field is nil (no bytes) before the first message
  with one. Of the channel \<open>stopKeepalive\<close> we keep whether it is closed, of \<open>keepaliveOnce\<close> whether it
  has run.
\<close>

record peer =
  Addr :: bytes
  Conn :: "conn option"
  Choked :: bool
  Interested :: bool
  OwnID :: bytes
  PInfoHash :: bytes
  LastActiveTime :: int
  stopClosed :: bool
  Bitfield :: bytes
  onceDone :: bool

definition NewPeer :: "int \<Rightarrow> bytes \<Rightarrow> bytes \<Rightarrow> bytes \<Rightarrow> peer" where
  "NewPeer now addr peer_id info_hash =
     \<lparr>Addr = addr, Conn = None, Choked = True, Interested = False, OwnID = peer_id,
      PInfoHash = info_hash, LastActiveTime = now, stopClosed = False, Bitfield = [], onceDone = False\<rparr>"

section \<open>The handshake\<close>

definition protocol_name :: bytes where
  "protocol_name = str ''BitTorrent protocol''"

datatype peer_error =
    NetErr net_error | InvalidHandshake | InvalidProtocol | InfoHashMismatch
  | DeadlineFailed net_error | ReadTimeout

text \<open>The buffer of \<open>sendHandshake\<close>, written front to back; byte 23 is set to one.\<close>

definition handshake_bytes :: "peer \<Rightarrow> bytes" where
  "handshake_bytes p =
     copy_at 48 (OwnID p)
       (copy_at 28 (take 20 (PInfoHash p))
          ((copy_at 1 (take 19 protocol_name) ((replicate 68 0)[0 := 19]))
             [20 := 0, 21 := 0, 22 := 0, 23 := 1]))"

definition sendHandshake :: "net_env \<Rightarrow> peer \<Rightarrow> peer \<times> (peer_error, unit) go" where
  "sendHandshake env p =
     (case Conn p of
        None \<Rightarrow> (p, Inl (Panic NilDereference))
      | Some c \<Rightarrow>
          (case Conn_Write env c (handshake_bytes p) of
             (c', Some e) \<Rightarrow> (p\<lparr>Conn := Some c'\<rparr>, Inl (Error (NetErr e)))
           | (c', None) \<Rightarrow> (p\<lparr>Conn := Some c'\<rparr>, Inr ())))"

definition check_handshake :: "bytes \<Rightarrow> bytes \<Rightarrow> (peer_error, unit) go" where
  "check_handshake info_hash h =
     (if h ! 0 \<noteq> 19 then Inl (Error InvalidHandshake)
      else if take 19 (drop 1 h) \<noteq> protocol_name then Inl (Error InvalidProtocol)
      else if take 20 (drop 28 h) \<noteq> info_hash then Inl (Error InfoHashMismatch)
      else Inr ())"

definition readHandshake :: "net_env \<Rightarrow> peer \<Rightarrow> peer \<times> (peer_error, unit) go" where
  "readHandshake env p =
     (case Conn p of
        None \<Rightarrow> (p, Inl (Panic NilDereference))
      | Some c \<Rightarrow>
          (case ReadFull env c 68 of
             (c', Inl e) \<Rightarrow> (p\<lparr>Conn := Some c'\<rparr>, Inl (Error (NetErr e)))
           | (c', Inr h) \<Rightarrow> (p\<lparr>Conn := Some c'\<rparr>, check_handshake (PInfoHash p) h)))"

text \<open>\<open>Peer.Handshake\<close> sends no extension byte and does not look at the answer.\<close>

definition Handshake :: "net_env \<Rightarrow> peer \<Rightarrow> peer \<times> (peer_error, unit) go" where
  "Handshake env p =
     (case Conn p of
        None \<Rightarrow> (p, Inl (Panic NilDereference))
      | Some c \<Rightarrow>
          (case Conn_Write env c
              (copy_at 48 (take 20 (OwnID p)) (copy_at 28 (take 20 (PInfoHash p))
                 (copy_at 1 (take 19 protocol_name) ((replicate 68 0)[0 := 19])))) of
             (c', Some e) \<Rightarrow> (p\<lparr>Conn := Some c'\<rparr>, Inl (Error (NetErr e)))
           | (c', None) \<Rightarrow>
               (case ReadFull env c' 68 of
                  (c'', Inl e) \<Rightarrow> (p\<lparr>Conn := Some c''\<rparr>, Inl (Error (NetErr e)))
                | (c'', Inr h) \<Rightarrow> (p\<lparr>Conn := Some c''\<rparr>, Inr ()))))"

text \<open>\<open>protocol.go\<close>: the same handshake over a bare connection.\<close>

record protocol =
  ProtoConn :: conn
  ProtoInfoHash :: bytes
  ProtoPeerID :: bytes

definition NewProtocol :: "conn \<Rightarrow> bytes \<Rightarrow> bytes \<Rightarrow> protocol" where
  "NewProtocol c info_hash peer_id =
     \<lparr>ProtoConn = c, ProtoInfoHash = info_hash, ProtoPeerID = peer_id\<rparr>"

definition HandshakeLength :: nat where
  "HandshakeLength = 68"

definition Protocol_Handshake :: "net_env \<Rightarrow> protocol \<Rightarrow> protocol \<times> (peer_error, unit) go" where
  "Protocol_Handshake env p =
     (case SetDeadline env (ProtoConn p) of
        Some e \<Rightarrow> (p, Inl (Error (DeadlineFailed e)))
      | None \<Rightarrow>
          let handshake =
                copy_at 48 (ProtoPeerID p) (copy_at 28 (take 20 (ProtoInfoHash p))
                  (copy_at 1 (take 19 protocol_name)
                    ((replicate HandshakeLength 0)[0 := of_nat (length protocol_name)])))
          in
          (case Conn_Write env (ProtoConn p) handshake of
             (c, Some e) \<Rightarrow> (p\<lparr>ProtoConn := c\<rparr>, Inl (Error (NetErr e)))
           | (c, None) \<Rightarrow>
               (case ReadFull env c HandshakeLength of
                  (c', Inl e) \<Rightarrow> (p\<lparr>ProtoConn := c'\<rparr>, Inl (Error (NetErr e)))
                | (c', Inr response) \<Rightarrow>
                    (p\<lparr>ProtoConn := c'\<rparr>,
                     if response ! 0 \<noteq> of_nat (length protocol_name) then Inl (Error InvalidHandshake)
                     else if take 19 (drop 1 response) \<noteq> protocol_name then Inl (Error InvalidProtocol)
                     else if take 20 (drop 28 response) \<noteq> ProtoInfoHash p then Inl (Error InfoHashMismatch)
                     else Inr ()))))"

section \<open>Framed messages\<close>

text \<open>
  \<open>ReadMessage\<close> at a given time. A frame of length zero is a keep-alive and comes back as type 0
  without a payload; it does not count as activity.
\<close>

definition ReadMessage :: "net_env \<Rightarrow> int \<Rightarrow> peer \<Rightarrow> peer \<times> (peer_error, int \<times> bytes) go" where
  "ReadMessage env now p =
     (case Conn p of
        None \<Rightarrow> (p, Inl (Panic NilDereference))
      | Some c \<Rightarrow>
          (case SetDeadline env c of
             Some e \<Rightarrow> (p, Inl (Error (DeadlineFailed e)))
           | None \<Rightarrow>
               (case ReadFull env c 4 of
                  (c1, Inl NetTimeout) \<Rightarrow> (p\<lparr>Conn := Some c1\<rparr>, Inl (Error ReadTimeout))
                | (c1, Inl e) \<Rightarrow> (p\<lparr>Conn := Some c1\<rparr>, Inl (Error (NetErr e)))
                | (c1, Inr lengthBuf) \<Rightarrow>
                    (case get_uint32 lengthBuf of
                       Inl e \<Rightarrow> (p\<lparr>Conn := Some c1\<rparr>, Inl e)
                     | Inr len \<Rightarrow>
                         if len = 0 then (p\<lparr>Conn := Some c1\<rparr>, Inr (0, []))
                         else
                           (case ReadFull env c1 (unat len) of
                              (c2, Inl e) \<Rightarrow> (p\<lparr>Conn := Some c2\<rparr>, Inl (Error (NetErr e)))
                            | (c2, Inr messageBuf) \<Rightarrow>
                                (p\<lparr>Conn := Some c2, LastActiveTime := now\<rparr>,
                                 Inr (uint (messageBuf ! 0), drop 1 messageBuf)))))))"

text \<open>\<open>ReceiveMessage\<close> reads the same frames without a deadline.\<close>

definition ReceiveMessage :: "net_env \<Rightarrow> int \<Rightarrow> peer \<Rightarrow> peer \<times> (peer_error, byte \<times> bytes) go" where
  "ReceiveMessage env now p =
     (case Conn p of
        None \<Rightarrow> (p, Inl (Panic NilDereference))
      | Some c \<Rightarrow>
          (case ReadFull env c 4 of
             (c1, Inl e) \<Rightarrow> (p\<lparr>Conn := Some c1\<rparr>, Inl (Error (NetErr e)))
           | (c1, Inr lengthBuf) \<Rightarrow>
               (case get_uint32 lengthBuf of
                  Inl e \<Rightarrow> (p\<lparr>Conn := Some c1\<rparr>, Inl e)
                | Inr len \<Rightarrow>
                    if len = 0 then (p\<lparr>Conn := Some c1\<rparr>, Inr (0, []))
                    else
                      (case ReadFull env c1 (unat len) of
                         (c2, Inl e) \<Rightarrow> (p\<lparr>Conn := Some c2\<rparr>, Inl (Error (NetErr e)))
                       | (c2, Inr messageBuf) \<Rightarrow>
                           (p\<lparr>Conn := Some c2, LastActiveTime := now\<rparr>,
                            Inr (messageBuf ! 0, drop 1 messageBuf))))))"

text \<open>
  The buffer of \<open>SendMessage\<close>. The length and the size of the buffer are \<open>uint32\<close>, so both wrap; a
  buffer too short for its header panics.
\<close>

definition frame_bytes :: "int \<Rightarrow> bytes \<Rightarrow> ('e, bytes) go" where
  "frame_bytes messageType payload =
     (let len = of_nat (length payload + 1) :: 32 word; buf_len = unat (4 + len) in
      if buf_len < 4 then Inl (Panic SliceOutOfRange)
      else if buf_len < 5 then Inl (Panic IndexOutOfRange)
      else Inr (copy_at 5 payload ((copy_at 0 (put_uint32 len) (replicate buf_len 0))[4 := of_int messageType])))"

definition SendMessage :: "net_env \<Rightarrow> peer \<Rightarrow> int \<Rightarrow> bytes \<Rightarrow> peer \<times> (peer_error, unit) go" where
  "SendMessage env p messageType payload =
     (if messageType = MsgKeepAlive then
        (case Conn p of
           None \<Rightarrow> (p, Inl (Panic NilDereference))
         | Some c \<Rightarrow>
             (case Conn_Write env c [0, 0, 0, 0] of
                (c', Some e) \<Rightarrow> (p\<lparr>Conn := Some c'\<rparr>, Inl (Error (NetErr e)))
              | (c', None) \<Rightarrow> (p\<lparr>Conn := Some c'\<rparr>, Inr ())))
      else
        (case frame_bytes messageType payload of
           Inl e \<Rightarrow> (p, Inl e)
         | Inr buf \<Rightarrow>
             (case Conn p of
                None \<Rightarrow> (p, Inl (Panic NilDereference))
              | Some c \<Rightarrow>
                  (case SetDeadline env c of
                     Some e \<Rightarrow> (p, Inl (Error (DeadlineFailed e)))
                   | None \<Rightarrow>
                       (case Conn_Write env c buf of
                          (c', Some e) \<Rightarrow> (p\<lparr>Conn := Some c'\<rparr>, Inl (Error (NetErr e)))
                        | (c', None) \<Rightarrow> (p\<lparr>Conn := Some c'\<rparr>, Inr ()))))))"

definition NewRequestMessage :: "32 word \<Rightarrow> 32 word \<Rightarrow> 32 word \<Rightarrow> bytes" where
  "NewRequestMessage index begin len =
     copy_at 8 (put_uint32 len) (copy_at 4 (put_uint32 begin) (copy_at 0 (put_uint32 index) (replicate 12 0)))"

definition NewPieceMessage :: "32 word \<Rightarrow> 32 word \<Rightarrow> bytes \<Rightarrow> bytes" where
  "NewPieceMessage index begin data =
     copy_at 8 data
       (copy_at 4 (put_uint32 begin) (copy_at 0 (put_uint32 index) (replicate (8 + length data) 0)))"

section \<open>The life of a connection\<close>

definition StopKeepalive :: "peer \<Rightarrow> ('e, peer) go" where
  "StopKeepalive p =
     (if onceDone p then Inr p
      else if stopClosed p then Inl (Panic CloseOfClosedChannel)
      else Inr (p\<lparr>stopClosed := True, onceDone := True\<rparr>))"

definition Disconnect :: "peer \<Rightarrow> (peer_error, peer) go \<times> net_error option" where
  "Disconnect p =
     (case StopKeepalive p of
        Inl e \<Rightarrow> (Inl e, None)
      | Inr p1 \<Rightarrow>
          (case Conn p1 of
             None \<Rightarrow> (Inr p1, None)
           | Some c \<Rightarrow> (case Conn_Close c of (c', e) \<Rightarrow> (Inr (p1\<lparr>Conn := Some c'\<rparr>), e))))"

text \<open>
  \<open>Connect\<close>: what the other side will send (\<open>dialled\<close>) is the network's. The keep-alive sender is
  started at the end; a failed handshake closes the connection, a failed deadline does not.
\<close>

definition close_conn :: "peer \<Rightarrow> peer" where
  "close_conn p = (case Conn p of None \<Rightarrow> p | Some c \<Rightarrow> p\<lparr>Conn := Some (fst (Conn_Close c))\<rparr>)"

definition Connect :: "net_env \<Rightarrow> bytes \<Rightarrow> peer \<Rightarrow> peer \<times> (peer_error, unit) go" where
  "Connect env dialled p =
     (case env (DialCall (Addr p)) of
        Some k \<Rightarrow> (p, Inl (Error (NetErr NetFailure)))
      | None \<Rightarrow>
          let c = \<lparr>incoming = dialled, outgoing = [], closed = False\<rparr>; p1 = p\<lparr>Conn := Some c\<rparr> in
          (case SetDeadline env c of
             Some e \<Rightarrow> (p1, Inl (Error (DeadlineFailed e)))
           | None \<Rightarrow>
               (case sendHandshake env p1 of
                  (p2, Inl e) \<Rightarrow> (close_conn p2, Inl e)
                | (p2, Inr _) \<Rightarrow>
                    (case readHandshake env p2 of
                       (p3, Inl e) \<Rightarrow> (close_conn p3, Inl e)
                     | (p3, Inr _) \<Rightarrow>
                         (case SetDeadline env (the (Conn p3)) of
                            Some e \<Rightarrow> (p3, Inl (Error (DeadlineFailed e)))
                          | None \<Rightarrow> (p3, Inr ()))))))"

text \<open>
  The keep-alive sender: the events of its loop in the order they come, a tick being one
  more keep-alive; it ends on the context, on the closed channel, and on a failed write.
\<close>

datatype keepalive_event = ContextDone | StopClosed | Tick

fun keepAlive :: "net_env \<Rightarrow> keepalive_event list \<Rightarrow> peer \<Rightarrow> peer" where
  "keepAlive env [] p = p"
| "keepAlive env (ContextDone # es) p = p"
| "keepAlive env (StopClosed # es) p = p"
| "keepAlive env (Tick # es) p =
     (case SendMessage env p MsgKeepAlive [] of
        (p', Inl e) \<Rightarrow> p'
      | (p', Inr _) \<Rightarrow> keepAlive env es p')"

definition UpdateLastActiveTime :: "int \<Rightarrow> peer \<Rightarrow> peer" where
  "UpdateLastActiveTime now p = p\<lparr>LastActiveTime := now\<rparr>"

definition GetLastActiveTime :: "peer \<Rightarrow> int" where
  "GetLastActiveTime p = LastActiveTime p"

end
