(* ===== verification/Peer_Correct.thy ===== *)
theory Peer_Correct
  imports Peer
begin

text \<open>
  What the peer protocol promises: the frames form a stream codec for either reader, the handshake of
  one client is accepted by another exactly for the same torrent, and a bit field behaves as
  a set of piece numbers.
\<close>

section \<open>Frames\<close>

definition frame :: "int \<times> bytes \<Rightarrow> bytes" where
  "frame m = put_uint32 (of_nat (length (snd m) + 1)) @ [of_int (fst m)] @ snd m"

definition message_ok :: "int \<times> bytes \<Rightarrow> bool" where
  "message_ok m \<longleftrightarrow> 0 \<le> fst m \<and> fst m < 256 \<and> length (snd m) + 5 < 2 ^ 32"

lemma frame_bytes_ok:
  assumes "length payload + 5 < 2 ^ 32"
  shows "frame_bytes ty payload = Inr (frame (ty, payload))"
proof -
  have l: "unat (of_nat (length payload + 1) :: 32 word) = length payload + 1"
    using assms by (simp add: unat_of_nat take_bit_nat_eq_self del: of_nat_Suc of_nat_add)
  have "unat (4 + of_nat (length payload + 1) :: 32 word) = unat (of_nat (4 + (length payload + 1)) :: 32 word)"
    by simp
  also have "\<dots> = length payload + 5"
    using assms by (simp add: unat_of_nat take_bit_nat_eq_self del: of_nat_Suc of_nat_add)
  finally have b: "unat (4 + of_nat (length payload + 1) :: 32 word) = length payload + 5" .
  have "copy_at 0 (put_uint32 x) (replicate (length payload + 5) 0) =
      put_uint32 x @ 0 # replicate (length payload) 0" for x
    by (simp add: copy_at_def put_uint32_def numeral_eq_Suc)
  then have "copy_at 5 payload
        ((copy_at 0 (put_uint32 x) (replicate (length payload + 5) 0))[4 := y]) =
      put_uint32 x @ [y] @ payload" for x y
    by (simp add: list_update_append copy_at_def)
  then show ?thesis
    unfolding frame_bytes_def Let_def b by (simp add: frame_def)
qed

lemma ReadFull_quiet:
  "\<not> closed c \<Longrightarrow> incoming c = a @ rest \<Longrightarrow> length a = n \<Longrightarrow>
     ReadFull quiet c n = (c\<lparr>incoming := rest\<rparr>, Inr a)"
  by (simp add: ReadFull_def)

lemma frame_parts:
  assumes "message_ok (ty, pl)"
  obtains len :: "32 word" where "frame (ty, pl) = put_uint32 len @ (of_int ty # pl)"
    and "len \<noteq> 0" and "unat len = length pl + 1" and "uint (of_int ty :: byte) = ty"
proof (rule that)
  let ?len = "of_nat (length pl + 1) :: 32 word"
  show "unat ?len = length pl + 1"
    using assms by (simp add: message_ok_def unat_of_nat take_bit_nat_eq_self del: of_nat_Suc of_nat_add)
  then show "?len \<noteq> 0" by (metis Suc_eq_plus1 nat.distinct(1) unat_0)
  show "uint (of_int ty :: byte) = ty"
    using assms by (simp add: message_ok_def uint_word_of_int)
qed (simp add: frame_def)

text \<open>Either reader takes one frame off the connection.\<close>

lemma ReadMessage_frame:
  assumes "message_ok (ty, pl)" and "Conn p = Some c" and "\<not> closed c" and "incoming c = frame (ty, pl) @ rest"
  shows "ReadMessage quiet now p =
    (p\<lparr>Conn := Some (c\<lparr>incoming := rest\<rparr>), LastActiveTime := now\<rparr>, Inr (ty, pl))"
proof -
  obtain len :: "32 word" where f: "frame (ty, pl) = put_uint32 len @ (of_int ty # pl)"
    and l: "len \<noteq> 0" "unat len = length pl + 1" and ty: "uint (of_int ty :: byte) = ty"
    using frame_parts [OF assms(1)] .
  define c1 where "c1 = c\<lparr>incoming := (of_int ty # pl) @ rest\<rparr>"
  have "ReadFull quiet c 4 = (c1, Inr (put_uint32 len))"
    using assms(3,4) f by (simp add: ReadFull_quiet c1_def)
  moreover have "ReadFull quiet c1 (unat len) = (c1\<lparr>incoming := rest\<rparr>, Inr (of_int ty # pl))"
    using assms(3) l by (intro ReadFull_quiet) (simp_all add: c1_def)
  moreover have "SetDeadline quiet c = None" using assms(3) by (simp add: SetDeadline_def)
  ultimately show ?thesis
    using assms(2) l(1) ty by (simp add: ReadMessage_def c1_def)
qed

lemma ReceiveMessage_frame:
  assumes "message_ok (ty, pl)" and "Conn p = Some c" and "\<not> closed c" and "incoming c = frame (ty, pl) @ rest"
  shows "ReceiveMessage quiet now p =
    (p\<lparr>Conn := Some (c\<lparr>incoming := rest\<rparr>), LastActiveTime := now\<rparr>, Inr (of_int ty, pl))"
proof -
  obtain len :: "32 word" where f: "frame (ty, pl) = put_uint32 len @ (of_int ty # pl)"
    and l: "len \<noteq> 0" "unat len = length pl + 1"
    using frame_parts [OF assms(1)] by metis
  define c1 where "c1 = c\<lparr>incoming := (of_int ty # pl) @ rest\<rparr>"
  have "ReadFull quiet c 4 = (c1, Inr (put_uint32 len))"
    using assms(3,4) f by (simp add: ReadFull_quiet c1_def)
  moreover have "ReadFull quiet c1 (unat len) = (c1\<lparr>incoming := rest\<rparr>, Inr (of_int ty # pl))"
    using assms(3) l by (intro ReadFull_quiet) (simp_all add: c1_def)
  ultimately show ?thesis
    using assms(2) l(1) by (simp add: ReceiveMessage_def c1_def)
qed

text \<open>A peer connected to a given stream, and the two readers as decoders of it.\<close>

definition on_stream :: "bytes \<Rightarrow> peer" where
  "on_stream r = (NewPeer 0 [] [] [])\<lparr>Conn := Some \<lparr>incoming = r, outgoing = [], closed = False\<rparr>\<rparr>"

definition left_over :: "peer \<Rightarrow> bytes" where
  "left_over p = (case Conn p of None \<Rightarrow> [] | Some c \<Rightarrow> incoming c)"

definition read_frame :: "bytes \<Rightarrow> peer_error fault + (int \<times> bytes) \<times> bytes" where
  "read_frame r =
     (case ReadMessage quiet 0 (on_stream r) of
        (p, Inl e) \<Rightarrow> Inl e | (p, Inr m) \<Rightarrow> Inr (m, left_over p))"

definition receive_frame :: "bytes \<Rightarrow> peer_error fault + (int \<times> bytes) \<times> bytes" where
  "receive_frame r =
     (case ReceiveMessage quiet 0 (on_stream r) of
        (p, Inl e) \<Rightarrow> Inl e | (p, Inr (ty, pl)) \<Rightarrow> Inr ((uint ty, pl), left_over p))"

lemma frame_nonempty [simp]: "frame m \<noteq> []"
  by (simp add: frame_def)

interpretation read_codec: stream_codec frame read_frame message_ok
proof
  fix m rest
  assume "message_ok m"
  moreover obtain ty pl where m: "m = (ty, pl)" by (cases m)
  ultimately show "read_frame (frame m @ rest) = Inr (m, rest)"
    using ReadMessage_frame [of ty pl "on_stream (frame m @ rest)" _ rest 0]
    by (simp add: read_frame_def on_stream_def left_over_def)
qed simp

interpretation receive_codec: stream_codec frame receive_frame message_ok
proof
  fix m rest
  assume ok: "message_ok m"
  obtain ty pl where m: "m = (ty, pl)" by (cases m)
  have "uint (of_int ty :: byte) = ty" using frame_parts ok m by metis
  with ok m show "receive_frame (frame m @ rest) = Inr (m, rest)"
    using ReceiveMessage_frame [of ty pl "on_stream (frame m @ rest)" _ rest 0]
    by (simp add: receive_frame_def on_stream_def left_over_def)
qed simp

text \<open>Sending and reading several messages over one connection.\<close>

fun send_all :: "net_env \<Rightarrow> peer \<Rightarrow> (int \<times> bytes) list \<Rightarrow> peer \<times> (peer_error, unit) go" where
  "send_all env p [] = (p, Inr ())"
| "send_all env p ((ty, pl) # ms) =
     (case SendMessage env p ty pl of (p', Inl e) \<Rightarrow> (p', Inl e) | (p', Inr _) \<Rightarrow> send_all env p' ms)"

fun read_all :: "net_env \<Rightarrow> int \<Rightarrow> nat \<Rightarrow> peer \<Rightarrow> peer \<times> (peer_error, (int \<times> bytes) list) go" where
  "read_all env now 0 p = (p, Inr [])"
| "read_all env now (Suc n) p =
     (case ReadMessage env now p of
        (p', Inl e) \<Rightarrow> (p', Inl e)
      | (p', Inr m) \<Rightarrow>
          (case read_all env now n p' of (q, Inl e) \<Rightarrow> (q, Inl e) | (q, Inr ms) \<Rightarrow> (q, Inr (m # ms))))"

lemma SendMessage_quiet:
  assumes "message_ok (ty, pl)" and "Conn p = Some c" and "\<not> closed c"
  shows "SendMessage quiet p ty pl =
    (p\<lparr>Conn := Some (c\<lparr>outgoing := outgoing c @ frame (ty, pl)\<rparr>)\<rparr>, Inr ())"
  using assms
  by (simp add: frame_bytes_ok SendMessage_def message_ok_def MsgKeepAlive_def SetDeadline_def Conn_Write_def)

lemma send_all_quiet:
  assumes "list_all message_ok ms" and "Conn p = Some c" and "\<not> closed c"
  shows "send_all quiet p ms =
    (p\<lparr>Conn := Some (c\<lparr>outgoing := outgoing c @ concat (map frame ms)\<rparr>)\<rparr>, Inr ())"
  using assms
proof (induction ms arbitrary: p c)
  case (Cons m ms)
  then show ?case by (cases m) (simp add: SendMessage_quiet)
qed simp

lemma read_all_quiet:
  assumes "list_all message_ok ms" and "Conn p = Some c" and "\<not> closed c"
    and "incoming c = concat (map frame ms) @ rest"
  shows "\<exists>q. read_all quiet now (length ms) p = (q, Inr ms) \<and> left_over q = rest"
  using assms
proof (induction ms arbitrary: p c)
  case Nil
  then show ?case by (simp add: left_over_def)
next
  case (Cons m ms)
  obtain ty pl where m: "m = (ty, pl)" by (cases m)
  define c' where "c' = c\<lparr>incoming := concat (map frame ms) @ rest\<rparr>"
  have "ReadMessage quiet now p = (p\<lparr>Conn := Some c', LastActiveTime := now\<rparr>, Inr m)"
    using Cons.prems m by (simp add: ReadMessage_frame c'_def)
  moreover obtain q where "read_all quiet now (length ms) (p\<lparr>Conn := Some c', LastActiveTime := now\<rparr>) = (q, Inr ms)"
      and "left_over q = rest"
    using Cons.IH [of "p\<lparr>Conn := Some c', LastActiveTime := now\<rparr>" c'] Cons.prems by (auto simp: c'_def)
  ultimately show ?case by simp
qed

section \<open>Handshakes\<close>

lemma protocol_name_bytes: "length protocol_name = 19"
  by (simp add: protocol_name_def)

lemma handshake_shape:
  assumes "length (PInfoHash p) = 20" and "length (OwnID p) = 20"
  shows "handshake_bytes p = 19 # protocol_name @ [0, 0, 0, 1, 0, 0, 0, 0] @ PInfoHash p @ OwnID p"
proof -
  have r: "replicate 67 (0 :: byte) = replicate 19 0 @ replicate 48 0" "replicate 68 (0 :: byte) = 0 # replicate 67 0"
    by (simp_all add: numeral_eq_Suc)
  have 1: "copy_at 1 (take 19 protocol_name) ((replicate 68 0)[0 := 19]) = 19 # protocol_name @ replicate 48 0"
    using protocol_name_bytes by (simp add: r copy_at_def)
  have 2: "(19 # protocol_name @ replicate 48 0)[20 := 0, 21 := 0, 22 := 0, 23 := 1] =
      (19 # protocol_name @ [0, 0, 0, 1, 0, 0, 0, 0]) @ replicate 20 0 @ replicate 20 0"
    using protocol_name_bytes by (simp add: list_update_append numeral_eq_Suc)
  have 3: "copy_at 28 (PInfoHash p) ((19 # protocol_name @ [0, 0, 0, 1, 0, 0, 0, 0]) @ replicate 20 0 @ replicate 20 0) =
      (19 # protocol_name @ [0, 0, 0, 1, 0, 0, 0, 0]) @ PInfoHash p @ replicate 20 0"
    using assms protocol_name_bytes by (intro copy_at_middle) simp_all
  have "copy_at 48 (OwnID p) (((19 # protocol_name @ [0, 0, 0, 1, 0, 0, 0, 0]) @ PInfoHash p) @ replicate 20 0 @ []) =
      ((19 # protocol_name @ [0, 0, 0, 1, 0, 0, 0, 0]) @ PInfoHash p) @ OwnID p @ []"
    using assms protocol_name_bytes by (intro copy_at_middle) simp_all
  with 3 show ?thesis
    unfolding handshake_bytes_def 1 2 using assms by simp
qed

lemma readHandshake_shape:
  assumes "Conn q = Some c" and "\<not> closed c"
    and "incoming c = 19 # protocol_name @ reserved @ info_hash @ peer_id @ rest"
    and "length reserved = 8" and "length info_hash = 20" and "length peer_id = 20"
  shows "readHandshake quiet q =
    (q\<lparr>Conn := Some (c\<lparr>incoming := rest\<rparr>)\<rparr>,
     if info_hash = PInfoHash q then Inr () else Inl (Error InfoHashMismatch))"
proof -
  let ?h = "19 # protocol_name @ reserved @ info_hash @ peer_id"
  have "ReadFull quiet c 68 = (c\<lparr>incoming := rest\<rparr>, Inr ?h)"
    using assms protocol_name_bytes by (intro ReadFull_quiet) simp_all
  moreover have "take 20 (drop 28 ?h) = info_hash"
    using assms protocol_name_bytes by simp
  ultimately show ?thesis
    using assms(1) protocol_name_bytes by (simp add: readHandshake_def check_handshake_def)
qed

section \<open>Bit fields\<close>

lemma div_mod_8: "0 \<le> i \<Longrightarrow> i sdiv 8 = i div 8 \<and> i smod 8 = i mod (8 :: int)"
  by (simp add: signed_divide_int_def signed_modulo_int_def sgn_if)

lemma HasPiece_bit:
  assumes "0 \<le> i"
  shows "HasPiece bf i \<longleftrightarrow> nat (i div 8) < length bf \<and> bit (bf ! nat (i div 8)) (nat (7 - i mod 8))"
proof -
  have "(drop_bit k (x :: byte) AND 1 \<noteq> 0) = bit x k" for k x
    by (simp add: bit_iff_odd_drop_bit and_one_eq even_iff_mod_2_eq_zero)
  moreover have "0 \<le> i div 8" using assms by (simp add: pos_imp_zdiv_nonneg_iff)
  ultimately show ?thesis
    using div_mod_8 [OF assms] by (auto simp: HasPiece_def Let_def)
qed

lemma SetPiece_nonneg:
  assumes "0 \<le> i"
  shows "SetPiece bf i =
    (if nat (i div 8) < length bf
     then bf[nat (i div 8) := bf ! nat (i div 8) OR push_bit (nat (7 - i mod 8)) 1] else bf)"
proof -
  have "0 \<le> i div 8" using assms by (simp add: pos_imp_zdiv_nonneg_iff)
  then show ?thesis using div_mod_8 [OF assms] by (auto simp: SetPiece_def Let_def)
qed

lemma HasPiece_SetPiece:
  assumes "0 \<le> i" and "0 \<le> j"
  shows "HasPiece (SetPiece bf i) j \<longleftrightarrow> HasPiece bf j \<or> i = j \<and> i < 8 * int (length bf)"
proof -
  let ?bit = "\<lambda>k. nat (7 - k mod 8 :: int)"
  have same: "i = j" if "nat (i div 8) = nat (j div 8)" "?bit i = ?bit j"
  proof -
    have "i div 8 = j div 8" using that(1) assms by (simp add: pos_imp_zdiv_nonneg_iff)
    moreover have "i mod 8 = j mod 8" using that(2) pos_mod_bound [of 8 i] pos_mod_bound [of 8 j] by simp
    ultimately show ?thesis by (metis div_mult_mod_eq)
  qed
  have range: "i < 8 * int (length bf) \<longleftrightarrow> nat (i div 8) < length bf"
  proof -
    have "i < 8 * n \<longleftrightarrow> i div 8 < n" for n by presburger
    then show ?thesis using assms(1) by (simp add: nat_less_iff pos_imp_zdiv_nonneg_iff)
  qed
  have b: "bit (x OR push_bit (?bit i) (1 :: byte)) (?bit j) \<longleftrightarrow> bit x (?bit j) \<or> ?bit i = ?bit j" for x
    using pos_mod_sign [of 8 i] pos_mod_bound [of 8 i] by (auto simp: bit_simps)
  show ?thesis
  proof (cases "nat (i div 8) < length bf")
    case False
    with range show ?thesis using assms by (simp add: SetPiece_nonneg)
  next
    case True
    show ?thesis
    proof (cases "nat (i div 8) = nat (j div 8)")
      case eq: True
      with True range same show ?thesis
        using assms b [of "bf ! nat (i div 8)"] by (auto simp: HasPiece_bit SetPiece_nonneg)
    next
      case False
      then have "i \<noteq> j" by auto
      with False True show ?thesis using assms by (simp add: HasPiece_bit SetPiece_nonneg)
    qed
  qed
qed

lemma length_SetPiece [simp]: "length (SetPiece bf i) = length bf"
  by (simp add: SetPiece_def Let_def)

text \<open>A field of flags with room for some indices, seen as the set of those that are set.\<close>

locale flag_field =
  fixes has :: "'f \<Rightarrow> 'i \<Rightarrow> bool" and put :: "'f \<Rightarrow> 'i \<Rightarrow> 'f" and room :: "'f \<Rightarrow> 'i \<Rightarrow> bool"
    and ok :: "'i \<Rightarrow> bool"
  assumes has_put: "ok i \<Longrightarrow> ok j \<Longrightarrow> has (put f i) j \<longleftrightarrow> has f j \<or> i = j \<and> room f i"
    and room_put: "room (put f i) j = room f j"
begin

lemma has_put_all:
  "list_all ok is \<Longrightarrow> ok j \<Longrightarrow> has (foldl put f is) j \<longleftrightarrow> has f j \<or> j \<in> set is \<and> room f j"
  by (induction "is" arbitrary: f) (auto simp: has_put room_put)

end

interpretation bitfield: flag_field HasPiece SetPiece "\<lambda>bf i. i < 8 * int (length bf)" "\<lambda>i. 0 \<le> i"
  by unfold_locales (auto simp: HasPiece_SetPiece)

section \<open>Properties\<close>

text \<open>
  C11: messages sent one after the other over a connection are read back by \<open>ReadMessage\<close> in the
  same order with the same types and payloads, and nothing behind them is touched.
\<close>

theorem messages_arrive_in_order:
  assumes "list_all message_ok ms" and "Conn p = Some c" and "\<not> closed c" and "outgoing c = []"
    and "Conn q = Some d" and "\<not> closed d"
    and "send_all quiet p ms = (p', r)" and "incoming d = outgoing (the (Conn p')) @ rest"
  shows "r = Inr () \<and> (\<exists>q'. read_all quiet now (length ms) q = (q', Inr ms) \<and> left_over q' = rest)"
proof -
  have "p' = p\<lparr>Conn := Some (c\<lparr>outgoing := concat (map frame ms)\<rparr>)\<rparr>" and "r = Inr ()"
    using send_all_quiet [OF assms(1-3)] assms(4,7) by simp_all
  then show ?thesis using read_all_quiet [OF assms(1,5,6)] assms(8) by simp
qed

theorem messages_arrive_in_order_witness:
  "\<exists>p' q'. send_all quiet (on_stream []) [(MsgUnchoke, []), (MsgHave, [0, 0, 0, 7])] = (p', Inr ())
    \<and> read_all quiet 5 (length [(MsgUnchoke, []), (MsgHave, [0, 0, 0, 7 :: byte])])
        (on_stream (outgoing (the (Conn p')) @ [1, 2])) = (q', Inr [(MsgUnchoke, []), (MsgHave, [0, 0, 0, 7])])
    \<and> left_over q' = [1, 2]"
proof -
  let ?ms = "[(MsgUnchoke, []), (MsgHave, [0, 0, 0, 7 :: byte])]"
  have ok: "list_all message_ok ?ms" by (simp add: message_ok_def msg_types)
  obtain p' r where s: "send_all quiet (on_stream []) ?ms = (p', r)" by (cases "send_all quiet (on_stream []) ?ms")
  have "r = Inr () \<and> (\<exists>q'. read_all quiet 5 (length ?ms) (on_stream (outgoing (the (Conn p')) @ [1, 2])) = (q', Inr ?ms)
      \<and> left_over q' = [1, 2])"
    by (rule messages_arrive_in_order [OF ok _ _ _ _ _ s,
          where c = "\<lparr>incoming = [], outgoing = [], closed = False\<rparr>"
            and d = "\<lparr>incoming = outgoing (the (Conn p')) @ [1, 2], outgoing = [], closed = False\<rparr>"])
      (simp_all add: on_stream_def)
  with s show ?thesis by blast
qed

text \<open>
  C36: a keep-alive does not come through as one: the reader returns the type of a choke message for
  it, and never returns \<open>MsgKeepAlive\<close>, on any connection.
\<close>

theorem keep_alive_reads_as_choke:
  assumes "Conn p = Some c" and "\<not> closed c" and "SendMessage quiet p MsgKeepAlive payload = (p', r)"
    and "Conn q = Some d" and "\<not> closed d" and "incoming d = drop (length (outgoing c)) (outgoing (the (Conn p'))) @ rest"
  shows "ReadMessage quiet now q = (q\<lparr>Conn := Some (d\<lparr>incoming := rest\<rparr>)\<rparr>, Inr (MsgChoke, []))
    \<and> snd (ReadMessage env now' any) \<noteq> Inr (MsgKeepAlive, body)"
proof
  have "outgoing (the (Conn p')) = outgoing c @ [0, 0, 0, 0]"
    using assms(1-3) by (auto simp: SendMessage_def Conn_Write_def)
  then have "ReadFull quiet d 4 = (d\<lparr>incoming := rest\<rparr>, Inr [0, 0, 0, 0])"
    using assms(5,6) by (intro ReadFull_quiet) simp_all
  then show "ReadMessage quiet now q = (q\<lparr>Conn := Some (d\<lparr>incoming := rest\<rparr>)\<rparr>, Inr (MsgChoke, []))"
    using assms(4,5) by (simp add: ReadMessage_def SetDeadline_def get_uint32_def uint32_of_def MsgChoke_def)
  have "0 \<le> uint (x :: byte)" for x by simp
  then have "uint (x :: byte) \<noteq> - 1" for x by (metis neg_0_le_iff_le not_one_le_zero)
  then show "snd (ReadMessage env now' any) \<noteq> Inr (MsgKeepAlive, body)"
    by (auto simp: ReadMessage_def MsgKeepAlive_def split: option.splits prod.splits sum.splits net_error.splits if_splits)
qed

theorem keep_alive_reads_as_choke_witness:
  "snd (ReadMessage quiet 0 (on_stream [0, 0, 0, 0])) = Inr (MsgChoke, [])"
proof -
  have "SendMessage quiet (on_stream []) MsgKeepAlive [] =
      (on_stream []\<lparr>Conn := Some \<lparr>incoming = [], outgoing = [0, 0, 0, 0], closed = False\<rparr>\<rparr>, Inr ())"
    by (simp add: SendMessage_def Conn_Write_def on_stream_def)
  from keep_alive_reads_as_choke [OF _ _ this, where q = "on_stream [0, 0, 0, 0]" and rest = "[]" and now = 0]
  show ?thesis by (simp add: on_stream_def)
qed



text \<open>
  C35: a bit field is the set of the pieces set in it: after any sequence of \<open>SetPiece\<close> on a field, a
  piece is there when it was there before or is in the sequence and the field has room for it.
\<close>

theorem bitfield_is_set:
  assumes "list_all (\<lambda>i. 0 \<le> i) is" and "0 \<le> j"
  shows "HasPiece (foldl SetPiece bf is) j \<longleftrightarrow> HasPiece bf j \<or> j \<in> set is \<and> j < 8 * int (length bf)"
  using assms by (rule bitfield.has_put_all)

theorem bitfield_is_set_witness:
  "HasPiece (foldl SetPiece [0, 0] [3, 12, 99]) 12 \<and> \<not> HasPiece (foldl SetPiece [0, 0] [3, 12, 99]) 99"
proof -
  have "list_all (\<lambda>i. 0 \<le> i) [3, 12, 99 :: int]" by simp
  note set = bitfield_is_set [OF this, of _ "[0, 0]"]
  have "\<not> HasPiece [0, 0] 99" by (simp add: HasPiece_bit)
  then show ?thesis using set [of 12] set [of 99] by simp
qed

end
