(* ===== verification/TrackerDecode.thy ===== *)
theory TrackerDecode
  imports Bencode_Correct
begin

text \<open>
  The second bencode decoder, in \<open>internal/tracker/tracker.go\<close>: it works on slices and does not bound
  the length of a string. It returns exactly when the decoder of \<open>internal/bencode\<close> does, with the same
  value but for empty lists, which are nil slices here; and it can panic where the other reports an error.
\<close>

section \<open>The decoder\<close>

text \<open>
  The values it returns. A list starts as a nil slice (\<open>None\<close>) and is one that is not nil once a value was
  appended; the map of a dictionary is made and never nil.
\<close>

datatype slice_val =
  SInt int | SString bytes | SList "slice_val list option" | SDict "(bytes \<times> slice_val) list"

definition append_value :: "slice_val list option \<Rightarrow> slice_val \<Rightarrow> slice_val list option" where
  "append_value result v = Some ((case result of None \<Rightarrow> [] | Some vs \<Rightarrow> vs) @ [v])"

datatype slice_error = InvalidString | BadNumber num_error | StringTooShort | EmptyData
  | InvalidInteger | InvalidDictionary | InvalidList

text \<open>\<open>decodeString\<close>; the end of the string is a 64-bit sum, and the slice may be empty-handed or inverted.\<close>

definition tracker_decodeString :: "bytes \<Rightarrow> (slice_error, bytes \<times> bytes) go" where
  "tracker_decodeString data =
     (case read_until (asc (CHR '':'')) data of
        None \<Rightarrow> Inl (Error InvalidString)
      | Some (num, rest) \<Rightarrow>
          (case ParseInt num of
             Inl e \<Rightarrow> Inl (Error (BadNumber e))
           | Inr n \<Rightarrow>
               let start = int (length num) + 1; stop = i64 (start + n) in
                 if stop > int (length data) then Inl (Error StringTooShort)
                 else if stop < start then Inl (Panic SliceOutOfRange)
                 else Inr (take (nat (stop - start)) rest, drop (nat stop) data)))"

definition tracker_decodeInteger :: "bytes \<Rightarrow> (slice_error, int \<times> bytes) go" where
  "tracker_decodeInteger data =
     (case read_until (asc (CHR ''e'')) data of
        None \<Rightarrow> Inl (Error InvalidInteger)
      | Some (num, rest) \<Rightarrow>
          (case ParseInt num of Inl e \<Rightarrow> Inl (Error (BadNumber e)) | Inr n \<Rightarrow> Inr (n, rest)))"

lemma tracker_decodeString_shorter:
  "tracker_decodeString data = Inr (s, rest) \<Longrightarrow> length rest < length data"
  by (auto simp: tracker_decodeString_def Let_def dest: read_until_shorter split: option.splits sum.splits if_splits)

lemma tracker_decodeInteger_shorter:
  "tracker_decodeInteger data = Inr (n, rest) \<Longrightarrow> length rest < length data"
  by (auto simp: tracker_decodeInteger_def dest: read_until_shorter split: option.splits sum.splits)

function (domintros) tracker_decodeValue :: "bytes \<Rightarrow> (slice_error, slice_val \<times> bytes) go"
  and tracker_decodeList :: "slice_val list option \<Rightarrow> bytes \<Rightarrow> (slice_error, slice_val list option \<times> bytes) go"
  and tracker_decodeDictionary ::
    "(bytes \<times> slice_val) list \<Rightarrow> bytes \<Rightarrow> (slice_error, (bytes \<times> slice_val) list \<times> bytes) go"
where
  "tracker_decodeValue data =
     (case data of
        [] \<Rightarrow> Inl (Error EmptyData)
      | b # data' \<Rightarrow>
          if b = asc (CHR ''i'') then
            (case tracker_decodeInteger data' of Inl e \<Rightarrow> Inl e | Inr (n, rest) \<Rightarrow> Inr (SInt n, rest))
          else if b = asc (CHR ''l'') then
            (case tracker_decodeList None data' of Inl e \<Rightarrow> Inl e | Inr (vs, rest) \<Rightarrow> Inr (SList vs, rest))
          else if b = asc (CHR ''d'') then
            (case tracker_decodeDictionary [] data' of Inl e \<Rightarrow> Inl e | Inr (d, rest) \<Rightarrow> Inr (SDict d, rest))
          else
            (case tracker_decodeString (b # data') of
               Inl e \<Rightarrow> Inl e | Inr (s, rest) \<Rightarrow> Inr (SString s, rest)))"
| "tracker_decodeList result data =
     (case data of
        [] \<Rightarrow> Inl (Error InvalidList)
      | b # data' \<Rightarrow>
          if b = asc (CHR ''e'') then Inr (result, data')
          else
            (case tracker_decodeValue (b # data') of
               Inl e \<Rightarrow> Inl e
             | Inr (v, rest) \<Rightarrow> tracker_decodeList (append_value result v) rest))"
| "tracker_decodeDictionary result data =
     (case data of
        [] \<Rightarrow> Inl (Error InvalidDictionary)
      | b # data' \<Rightarrow>
          if b = asc (CHR ''e'') then Inr (result, data')
          else
            (case tracker_decodeString (b # data') of
               Inl e \<Rightarrow> Inl e
             | Inr (key, rest) \<Rightarrow>
                 (case tracker_decodeValue rest of
                    Inl e \<Rightarrow> Inl e
                  | Inr (v, rest') \<Rightarrow> tracker_decodeDictionary (AList.update key v result) rest')))"
  by pat_completeness auto

abbreviation tracker_dom where
  "tracker_dom \<equiv> tracker_decodeValue_tracker_decodeList_tracker_decodeDictionary_dom"

lemma tracker_shorter_partial:
  "tracker_dom (Inl r) \<Longrightarrow>
     \<forall>v rest. tracker_decodeValue r = Inr (v, rest) \<longrightarrow> length rest < length r"
  "tracker_dom (Inr (Inl (vs, r))) \<Longrightarrow>
     \<forall>v rest. tracker_decodeList vs r = Inr (v, rest) \<longrightarrow> length rest < length r"
  "tracker_dom (Inr (Inr (d, r))) \<Longrightarrow>
     \<forall>v rest. tracker_decodeDictionary d r = Inr (v, rest) \<longrightarrow> length rest < length r"
proof (induction r and vs r and d r
    rule: tracker_decodeValue_tracker_decodeList_tracker_decodeDictionary.pinduct)
  case (1 r)
  then show ?case
    by (fastforce simp: tracker_decodeValue.psimps
        dest: tracker_decodeString_shorter tracker_decodeInteger_shorter
        split: list.splits sum.splits if_splits)
next
  case (2 vs r)
  then show ?case
    by (fastforce simp: tracker_decodeList.psimps split: list.splits sum.splits if_splits)
next
  case (3 dict r)
  then show ?case
    by (fastforce simp: tracker_decodeDictionary.psimps dest: tracker_decodeString_shorter
        split: list.splits sum.splits if_splits)
qed

termination tracker_decodeValue
proof (relation "measure (\<lambda>x. case x of
      Inl r \<Rightarrow> 2 * length r
    | Inr (Inl (vs, r)) \<Rightarrow> 2 * length r + 1
    | Inr (Inr (d, r)) \<Rightarrow> 2 * length r + 1)", goal_cases)
qed (simp_all, (fastforce dest: tracker_shorter_partial(1) tracker_decodeString_shorter)+)

declare tracker_decodeValue.simps [simp del] tracker_decodeList.simps [simp del]
  tracker_decodeDictionary.simps [simp del]

section \<open>Agreement\<close>

lemma tracker_decodeInteger_agrees: "tracker_decodeInteger r = Inr x \<longleftrightarrow> decodeInt r = Inr x"
  by (auto simp: tracker_decodeInteger_def decodeInt_def split: option.splits sum.splits)

lemma tracker_decodeString_agrees:
  assumes "int (length r) \<le> MaxInt32"
  shows "tracker_decodeString r = Inr x \<longleftrightarrow> decodeString r = Inr x"
proof (cases "read_until (asc (CHR '':'')) r")
  case None
  then show ?thesis by (simp add: tracker_decodeString_def decodeString_def)
next
  case (Some p)
  then obtain num rest where p: "read_until (asc (CHR '':'')) r = Some (num, rest)" by (cases p) simp
  then have r: "r = num @ asc (CHR '':'') # rest" by (simp add: read_until_Some_iff)
  show ?thesis
  proof (cases "ParseInt num")
    case (Inl e)
    then show ?thesis by (simp add: tracker_decodeString_def decodeString_def p)
  next
    case (Inr n)
    then have n: "in_i64 n" by (rule ParseInt_in_i64)
    let ?start = "int (length num) + 1"
    have le: "?start + int (length rest) = int (length r)" by (simp add: r)
    show ?thesis
    proof (cases "0 \<le> n \<and> n \<le> int (length rest)")
      case True
      then have "i64 (?start + n) = ?start + n"
        using assms le by (intro in_i64_id) (auto simp: in_i64_def MaxInt32_def)
      moreover have "drop (nat (?start + n)) r = drop (nat n) rest"
        using True by (simp add: r nat_add_distrib Suc_nat_eq_nat_zadd1 [symmetric])
      ultimately show ?thesis
        using True assms le Inr p
        by (auto simp: tracker_decodeString_def decodeString_def Let_def read_full_def)
    next
      case False
      then have "\<not> (\<exists>x. decodeString r = Inr x)"
        by (auto simp: decodeString_def p Inr read_full_Inr_iff split: sum.splits if_splits)
      moreover have "\<not> (\<exists>x. tracker_decodeString r = Inr x)"
      proof (cases "?start + n < 2 ^ 63")
        case True
        then have "i64 (?start + n) = ?start + n"
          using n by (intro i64_id) (auto simp: in_i64_def)
        with False le show ?thesis by (auto simp: tracker_decodeString_def p Inr Let_def)
      next
        case big: False
        have "i64 (?start + n) = ?start + n - 2 ^ 64"
        proof -
          have "i64 (?start + n - 2 ^ 64) = ?start + n - 2 ^ 64"
            using big n assms le by (intro i64_id) (auto simp: in_i64_def MaxInt32_def)
          moreover have "i64 (?start + n - 2 ^ 64) = i64 (?start + n)"
            by (intro i64_cong) (simp only: minus_mod_self2)
          ultimately show ?thesis by simp
        qed
        moreover have "?start + n - 2 ^ 64 < ?start" using n by (simp add: in_i64_def)
        ultimately show ?thesis by (auto simp: tracker_decodeString_def p Inr Let_def)
      qed
      ultimately show ?thesis by blast
    qed
  qed
qed

text \<open>A string starts with a digit or a sign, never with the mark of another kind of value.\<close>

lemma decodeString_first:
  assumes "decodeString (c # r) = Inr x"
  shows "c \<notin> {asc (CHR ''i''), asc (CHR ''l''), asc (CHR ''d'')}"
proof -
  from assms obtain num rest n where r: "read_until (asc (CHR '':'')) (c # r) = Some (num, rest)" and n: "ParseInt num = Inr n"
    by (auto simp: decodeString_def split: option.splits sum.splits)
  from n obtain c' cs where num: "num = c' # cs"
      and first: "is_digit c' \<or> c' = asc (CHR ''-'') \<or> c' = asc (CHR ''+'')"
    by (rule ParseInt_first)
  from r num have "c' = c" unfolding read_until_Some_iff by simp
  with number_start_neq [OF first] show ?thesis by simp
qed

lemma key_string:
  "decodeValue (c # r) = Inr (BString k, rest) \<longleftrightarrow> decodeString (c # r) = Inr (k, rest)"
proof (cases "c \<in> {asc (CHR ''i''), asc (CHR ''l''), asc (CHR ''d'')}")
  case True
  then have "decodeString (c # r) \<noteq> Inr (k, rest)" using decodeString_first by blast
  with True show ?thesis
    by (auto simp: decodeValue_int decodeValue_list decodeValue_dict split: sum.splits)
next
  case False
  then show ?thesis by (auto simp: decodeValue_string split: sum.splits)
qed

lemma tracker_decodeValue_int: "tracker_decodeValue (asc (CHR ''i'') # r) =
    (case tracker_decodeInteger r of Inl e \<Rightarrow> Inl e | Inr (n, rest) \<Rightarrow> Inr (SInt n, rest))"
  by (simp add: tracker_decodeValue.simps)

lemma tracker_decodeValue_list: "tracker_decodeValue (asc (CHR ''l'') # r) =
    (case tracker_decodeList None r of Inl e \<Rightarrow> Inl e | Inr (vs, rest) \<Rightarrow> Inr (SList vs, rest))"
  by (simp add: tracker_decodeValue.simps ascii_simps)

lemma tracker_decodeValue_dict: "tracker_decodeValue (asc (CHR ''d'') # r) =
    (case tracker_decodeDictionary [] r of Inl e \<Rightarrow> Inl e | Inr (d, rest) \<Rightarrow> Inr (SDict d, rest))"
  by (simp add: tracker_decodeValue.simps ascii_simps)

lemma tracker_decodeValue_string:
  "c \<notin> {asc (CHR ''i''), asc (CHR ''l''), asc (CHR ''d'')} \<Longrightarrow> tracker_decodeValue (c # r) =
    (case tracker_decodeString (c # r) of Inl e \<Rightarrow> Inl e | Inr (s, rest) \<Rightarrow> Inr (SString s, rest))"
  by (subst tracker_decodeValue.simps) simp

text \<open>
  The value of this package for a value of the other: every empty list in it is a nil slice, every other
  list is not, and nothing else differs.
\<close>

fun with_nil :: "bval \<Rightarrow> slice_val" where
  "with_nil (BInt n) = SInt n"
| "with_nil (BString s) = SString s"
| "with_nil (BList vs) = SList (if vs = [] then None else Some (map with_nil vs))"
| "with_nil (BDict kvs) = SDict (map (\<lambda>(k, v). (k, with_nil v)) kvs)"

definition nil_list :: "bval list \<Rightarrow> slice_val list option" where
  "nil_list vs = (if vs = [] then None else Some (map with_nil vs))"

definition nil_dict :: "(bytes \<times> bval) list \<Rightarrow> (bytes \<times> slice_val) list" where
  "nil_dict kvs = map (\<lambda>(k, v). (k, with_nil v)) kvs"

lemma with_nil_collections: "with_nil (BList vs) = SList (nil_list vs)" "with_nil (BDict kvs) = SDict (nil_dict kvs)"
  by (simp_all add: nil_list_def nil_dict_def)

lemma nil_empty [simp]: "nil_list [] = None" "nil_dict [] = []"
  by (simp_all add: nil_list_def nil_dict_def)

lemma nil_list_append: "append_value (nil_list vs) (with_nil v) = nil_list (vs @ [v])"
  by (simp add: append_value_def nil_list_def)

lemma nil_dict_update: "AList.update k (with_nil v) (nil_dict kvs) = nil_dict (AList.update k v kvs)"
  by (induction kvs) (auto simp: nil_dict_def)

text \<open>The result of a call without its errors, and calls that agree up to a translation of the results.\<close>

definition result_of :: "'e + 'a \<Rightarrow> 'a option" where
  "result_of x = (case x of Inl e \<Rightarrow> None | Inr y \<Rightarrow> Some y)"

definition agree :: "('a \<Rightarrow> 'b) \<Rightarrow> 'e + 'a \<times> bytes \<Rightarrow> 'f + 'b \<times> bytes \<Rightarrow> bool" where
  "agree f a b \<longleftrightarrow> result_of b = map_option (apfst f) (result_of a)"

lemma agree_simps [simp]:
  "agree f (Inl e) (Inl e')" "agree f (Inr (x, r)) (Inr (y, r')) \<longleftrightarrow> y = f x \<and> r' = r"
  "\<not> agree f (Inl e) (Inr z)" "\<not> agree f (Inr w) (Inl e')"
  by (auto simp: agree_def result_of_def)

lemma agree_cases:
  assumes "agree f a b"
  obtains e e' where "a = Inl e" and "b = Inl e'" | x r where "a = Inr (x, r)" and "b = Inr (f x, r)"
  using assms that by (cases a; cases b) auto

lemma agreeI:
  assumes "\<And>x. b = Inr x \<longleftrightarrow> a = Inr x"
  shows "agree id a b"
  using assms by (cases a; cases b) auto

lemma agree_wrap:
  assumes "agree f a b" and "\<And>x. h (f x) = g (k x)"
  shows "agree g (case a of Inl e \<Rightarrow> Inl e | Inr (x, r) \<Rightarrow> Inr (k x, r))
    (case b of Inl e \<Rightarrow> Inl e | Inr (x, r) \<Rightarrow> Inr (h x, r))"
  using assms(1) by (cases rule: agree_cases) (simp_all add: assms(2))

text \<open>
  One step of each function, given that the recursive calls agree. The induction below only has to put
  the steps together.
\<close>

lemma value_step_agrees:
  assumes "int (length (b # r)) \<le> MaxInt32"
    and "b = asc (CHR ''l'') \<Longrightarrow> agree nil_list (decodeList [] r) (tracker_decodeList None r)"
    and "b = asc (CHR ''d'') \<Longrightarrow> agree nil_dict (decodeDict [] r) (tracker_decodeDictionary [] r)"
  shows "agree with_nil (decodeValue (b # r)) (tracker_decodeValue (b # r))"
proof -
  consider (i) "b = asc (CHR ''i'')" | (l) "b = asc (CHR ''l'')" | (d) "b = asc (CHR ''d'')"
    | (s) "b \<notin> {asc (CHR ''i''), asc (CHR ''l''), asc (CHR ''d'')}" by blast
  then show ?thesis
  proof cases
    case i
    show ?thesis
      unfolding i decodeValue_int tracker_decodeValue_int
      by (rule agree_wrap [OF agreeI [OF tracker_decodeInteger_agrees]]) simp
  next
    case l
    show ?thesis
      unfolding l decodeValue_list tracker_decodeValue_list
      by (rule agree_wrap [OF assms(2) [OF l]]) (simp only: with_nil_collections)
  next
    case d
    show ?thesis
      unfolding d decodeValue_dict tracker_decodeValue_dict
      by (rule agree_wrap [OF assms(3) [OF d]]) (simp only: with_nil_collections)
  next
    case s
    show ?thesis
      unfolding decodeValue_string [OF s] tracker_decodeValue_string [OF s]
      by (rule agree_wrap [OF agreeI [OF tracker_decodeString_agrees [OF assms(1)]]]) simp
  qed
qed

lemma list_step_agrees:
  assumes "b \<noteq> asc (CHR ''e'') \<Longrightarrow> agree with_nil (decodeValue (b # r)) (tracker_decodeValue (b # r))"
    and "\<And>v rest. b \<noteq> asc (CHR ''e'') \<Longrightarrow> decodeValue (b # r) = Inr (v, rest)
      \<Longrightarrow> agree nil_list (decodeList (vs @ [v]) rest) (tracker_decodeList (nil_list (vs @ [v])) rest)"
  shows "agree nil_list (decodeList vs (b # r)) (tracker_decodeList (nil_list vs) (b # r))"
proof (cases "b = asc (CHR ''e'')")
  case True
  then show ?thesis by (simp add: tracker_decodeList.simps decodeList.simps)
next
  case False
  from assms(1) [OF False] show ?thesis
  proof (cases rule: agree_cases)
    case (1 e e')
    with False show ?thesis
      by (simp add: tracker_decodeList.simps [of _ "b # r"] decodeList.simps [of _ "b # r"])
  next
    case (2 v rest)
    from assms(2) [OF False 2(1)] False 2 show ?thesis
      by (simp add: tracker_decodeList.simps [of "nil_list vs" "b # r"] decodeList_item nil_list_append)
  qed
qed

lemma dict_step_agrees:
  assumes small: "int (length (b # r)) \<le> MaxInt32"
    and val: "\<And>k rest. decodeValue (b # r) = Inr (BString k, rest)
      \<Longrightarrow> b \<noteq> asc (CHR ''e'') \<Longrightarrow> agree with_nil (decodeValue rest) (tracker_decodeValue rest)"
    and more: "\<And>k rest v rest'. decodeValue (b # r) = Inr (BString k, rest) \<Longrightarrow> decodeValue rest = Inr (v, rest')
      \<Longrightarrow> b \<noteq> asc (CHR ''e'') \<Longrightarrow> agree nil_dict (decodeDict (AList.update k v d) rest')
           (tracker_decodeDictionary (nil_dict (AList.update k v d)) rest')"
  shows "agree nil_dict (decodeDict d (b # r)) (tracker_decodeDictionary (nil_dict d) (b # r))"
proof (cases "b = asc (CHR ''e'')")
  case True
  then show ?thesis by (simp add: tracker_decodeDictionary.simps decodeDict.simps)
next
  case b: False
  have key: "tracker_decodeString (b # r) = Inr (k, rest) \<longleftrightarrow> decodeValue (b # r) = Inr (BString k, rest)" for k rest
    using tracker_decodeString_agrees [OF small] by (simp add: key_string)
  note step = tracker_decodeDictionary.simps [of "nil_dict d" "b # r"]
  show ?thesis
  proof (cases "tracker_decodeString (b # r)")
    case (Inl e)
    then have "\<nexists>k rest. decodeValue (b # r) = Inr (BString k, rest)" using key by auto
    then obtain e' where "decodeDict d (b # r) = Inl e'"
      by (cases rule: decodeDict_step_cases [OF b, where r = r and d = d]) auto
    with b Inl show ?thesis by (simp add: step)
  next
    case (Inr p)
    then obtain k rest where tk: "tracker_decodeString (b # r) = Inr (k, rest)" by (cases p) simp
    then have k: "decodeValue (b # r) = Inr (BString k, rest)" using key by blast
    from val [OF k b] show ?thesis
    proof (cases rule: agree_cases)
      case (1 e e')
      then show ?thesis using b tk k by (simp add: step decodeDict.simps [of d "b # r"])
    next
      case (2 v rest')
      from more [OF k 2(1) b] show ?thesis
        using b tk 2 decodeDict_entry [OF b k 2(1), of d] by (simp add: step nil_dict_update)
    qed
  qed
qed

lemma tracker_decode_agrees:
  "int (length r) \<le> MaxInt32 \<Longrightarrow> agree with_nil (decodeValue r) (tracker_decodeValue r)"
  "int (length r1) \<le> MaxInt32 \<Longrightarrow> agree nil_list (decodeList vs r1) (tracker_decodeList (nil_list vs) r1)"
  "int (length r2) \<le> MaxInt32 \<Longrightarrow> agree nil_dict (decodeDict d r2) (tracker_decodeDictionary (nil_dict d) r2)"
proof (induction r and vs r1 and d r2 rule: decodeValue_decodeList_decodeDict.induct)
  case (1 r)
  show ?case
  proof (cases r)
    case Nil
    then show ?thesis by (simp add: tracker_decodeValue.simps decodeValue_Nil)
  next
    case (Cons b r')
    then have "int (length r') \<le> MaxInt32" using 1(3) by simp
    then have "b = asc (CHR ''l'') \<Longrightarrow> agree nil_list (decodeList [] r') (tracker_decodeList None r')"
      and "b = asc (CHR ''d'') \<Longrightarrow> agree nil_dict (decodeDict [] r') (tracker_decodeDictionary [] r')"
      using "1.IH" [OF Cons] by (simp_all add: ascii_simps)
    then show ?thesis
      unfolding Cons using 1(3) [unfolded Cons] by (intro value_step_agrees)
  qed
next
  case (2 vs r)
  show ?case
  proof (cases r)
    case Nil
    then show ?thesis by (simp add: tracker_decodeList.simps decodeList.simps)
  next
    case (Cons b r')
    have "agree nil_list (decodeList (vs @ [v]) rest) (tracker_decodeList (nil_list (vs @ [v])) rest)"
      if "b \<noteq> asc (CHR ''e'')" and "decodeValue (b # r') = Inr (v, rest)" for v rest
      using decodeValue_shorter [OF that(2)] 2(3) Cons by (intro "2.IH"(2) [OF Cons that refl]) simp
    then show ?thesis
      unfolding Cons using 2(3) "2.IH"(1) [OF Cons] by (intro list_step_agrees) (simp_all add: Cons)
  qed
next
  case (3 d r)
  show ?case
  proof (cases r)
    case Nil
    then show ?thesis by (simp add: tracker_decodeDictionary.simps decodeDict.simps)
  next
    case (Cons b r')
    have val: "agree with_nil (decodeValue rest) (tracker_decodeValue rest)"
      if "decodeValue (b # r') = Inr (BString k, rest)" and "b \<noteq> asc (CHR ''e'')" for k rest
      using decodeValue_shorter [OF that(1)] 3(4) Cons by (intro "3.IH"(2) [OF Cons that(2,1) refl refl]) simp
    have more: "agree nil_dict (decodeDict (AList.update k v d) rest')
        (tracker_decodeDictionary (nil_dict (AList.update k v d)) rest')"
      if "decodeValue (b # r') = Inr (BString k, rest)" and "decodeValue rest = Inr (v, rest')" and "b \<noteq> asc (CHR ''e'')"
      for k rest v rest'
      using decodeValue_shorter [OF that(1)] decodeValue_shorter [OF that(2)] 3(4) Cons
      by (intro "3.IH"(3) [OF Cons that(3,1) refl refl that(2) refl]) simp
    show ?thesis
      unfolding Cons using 3(4) Cons by (intro dict_step_agrees val more) simp
  qed
qed

lemma tracker_decode_iff:
  assumes "int (length data) \<le> MaxInt32"
  shows "tracker_decodeValue data = Inr (v, rest) \<longleftrightarrow> (\<exists>w. decodeValue data = Inr (w, rest) \<and> v = with_nil w)"
  using tracker_decode_agrees(1) [OF assms] by (cases rule: agree_cases) auto

section \<open>Properties\<close>

text \<open>
  C18: the two bencode decoders of the program agree on any input of less than two gigabytes: one returns
  just when the other does, with the same rest and the same value, except that the decoder of the tracker
  returns every empty list as a nil slice where the other returns one that is empty and not nil.
\<close>

theorem tracker_decoder_agrees:
  assumes "int (length data) \<le> MaxInt32"
  shows "tracker_decodeValue data = Inr (v, rest) \<longleftrightarrow> (\<exists>w. decodeValue data = Inr (w, rest) \<and> v = with_nil w)"
  using assms by (rule tracker_decode_iff)

theorem tracker_decoder_agrees_witness:
  "tracker_decodeValue (str ''li3e3:abclee'') = Inr (SList (Some [SInt 3, SString (str ''abc''), SList None]), [])"
proof -
  have "decodeValue (str ''li3e3:abclee'') = Inr (BList [BInt 3, BString (str ''abc''), BList []], [])"
    by (simp add: bencode_eval)
  then show ?thesis
    by (intro tracker_decoder_agrees [THEN iffD2]) (simp_all add: MaxInt32_def)
qed

text \<open>
  The decoder of the tracker can be brought down by the answer of a tracker: on a string with a
  negative length it panics, where the other decoder reports an error.
\<close>

lemma tracker_decoder_panics:
  "tracker_decodeValue (str ''-3:abc'') = Inl (Panic SliceOutOfRange)
    \<and> decodeValue (str ''-3:abc'') = Inl (NegativeStringLength (- 3))"
proof
  have r: "read_until (asc (CHR '':'')) (str ''-3:abc'') = Some (str ''-3'', str ''abc'')"
    by (simp add: bencode_eval)
  have n: "ParseInt (str ''-3'') = Inr (- 3)" by (simp add: bencode_eval)
  have "tracker_decodeString (str ''-3:abc'') = Inl (Panic SliceOutOfRange)"
    by (simp add: tracker_decodeString_def r n Let_def i64_def)
  then show "tracker_decodeValue (str ''-3:abc'') = Inl (Panic SliceOutOfRange)"
    by (simp add: tracker_decodeValue.simps str_def asc_def)
  show "decodeValue (str ''-3:abc'') = Inl (NegativeStringLength (- 3))"
    by (simp add: bencode_eval)
qed

end
