(* ===== verification/Url.thy ===== *)
theory Url
  imports GoLib
begin

text \<open>
  Query strings as \<open>net/url\<close> reads and writes them: escaping, \<open>Values\<close>, \<open>Query\<close> and \<open>Encode\<close>; and
  \<open>encoding/hex\<close>. Splitting a URL into its parts (\<open>url.Parse\<close>) is left to a parameter of the
  operations that use it.
\<close>

section \<open>Hexadecimal digits\<close>

definition hex_val :: "byte \<Rightarrow> nat option" where
  "hex_val c =
     (if 48 \<le> c \<and> c \<le> 57 then Some (unat (c - 48))
      else if 97 \<le> c \<and> c \<le> 102 then Some (unat (c - 87))
      else if 65 \<le> c \<and> c \<le> 70 then Some (unat (c - 55))
      else None)"

definition upper_hex :: "nat \<Rightarrow> byte" where
  "upper_hex n = (if n < 10 then of_nat (48 + n) else of_nat (55 + n))"

datatype hex_error = InvalidByte byte | OddLength

fun hex_decode :: "bytes \<Rightarrow> hex_error + bytes" where
  "hex_decode [] = Inr []"
| "hex_decode [c] = (case hex_val c of None \<Rightarrow> Inl (InvalidByte c) | Some _ \<Rightarrow> Inl OddLength)"
| "hex_decode (c # d # r) =
     (case hex_val c of
        None \<Rightarrow> Inl (InvalidByte c)
      | Some h \<Rightarrow>
          (case hex_val d of
             None \<Rightarrow> Inl (InvalidByte d)
           | Some l \<Rightarrow>
               (case hex_decode r of Inl e \<Rightarrow> Inl e | Inr bs \<Rightarrow> Inr (of_nat (16 * h + l) # bs))))"

section \<open>Escaping\<close>

definition unreserved :: "byte \<Rightarrow> bool" where
  "unreserved c \<longleftrightarrow>
     (48 \<le> c \<and> c \<le> 57) \<or> (65 \<le> c \<and> c \<le> 90) \<or> (97 \<le> c \<and> c \<le> 122) \<or> c \<in> {45, 95, 46, 126}"

fun QueryEscape :: "bytes \<Rightarrow> bytes" where
  "QueryEscape [] = []"
| "QueryEscape (c # cs) =
     (if unreserved c then [c]
      else if c = 32 then [43]
      else [37, upper_hex (unat c div 16), upper_hex (unat c mod 16)]) @ QueryEscape cs"

text \<open>A percent sign must be followed by two hexadecimal digits.\<close>

definition hex_pair :: "byte \<Rightarrow> byte \<Rightarrow> byte option" where
  "hex_pair a b =
     (case hex_val a of
        None \<Rightarrow> None
      | Some h \<Rightarrow> (case hex_val b of None \<Rightarrow> None | Some l \<Rightarrow> Some (of_nat (16 * h + l))))"

fun QueryUnescape :: "bytes \<Rightarrow> bytes option" where
  "QueryUnescape [] = Some []"
| "QueryUnescape (c # cs) =
     (if c = 37 then
        (case cs of
           a # b # r \<Rightarrow>
             (case hex_pair a b of
                None \<Rightarrow> None
              | Some x \<Rightarrow> map_option (\<lambda>s. x # s) (QueryUnescape r))
         | _ \<Rightarrow> None)
      else map_option (\<lambda>s. (if c = 43 then 32 else c) # s) (QueryUnescape cs))"

section \<open>Values\<close>

type_synonym url_values = "(bytes \<times> bytes list) list"

definition Values_Get :: "url_values \<Rightarrow> bytes \<Rightarrow> bytes" where
  "Values_Get m k = (case map_of m k of Some (v # vs) \<Rightarrow> v | _ \<Rightarrow> [])"

definition Values_All :: "url_values \<Rightarrow> bytes \<Rightarrow> bytes list" where
  "Values_All m k = (case map_of m k of Some vs \<Rightarrow> vs | None \<Rightarrow> [])"

definition Values_Set :: "bytes \<Rightarrow> bytes \<Rightarrow> url_values \<Rightarrow> url_values" where
  "Values_Set k v m = AList.update k [v] m"

definition Values_Add :: "bytes \<Rightarrow> bytes \<Rightarrow> url_values \<Rightarrow> url_values" where
  "Values_Add k v m = AList.update k (Values_All m k @ [v]) m"

fun split_on :: "byte \<Rightarrow> bytes \<Rightarrow> bytes list" where
  "split_on d [] = [[]]"
| "split_on d (c # cs) =
     (if c = d then [] # split_on d cs
      else (case split_on d cs of [] \<Rightarrow> [[c]] | w # ws \<Rightarrow> (c # w) # ws))"

definition cut :: "byte \<Rightarrow> bytes \<Rightarrow> bytes \<times> bytes" where
  "cut d s = (case read_until d s of None \<Rightarrow> (s, []) | Some (a, b) \<Rightarrow> (a, b))"

text \<open>\<open>Query\<close> drops the settings it cannot decode, and those with a semicolon.\<close>

definition add_setting :: "url_values \<Rightarrow> bytes \<Rightarrow> url_values" where
  "add_setting m setting =
     (if 59 \<in> set setting \<or> setting = [] then m
      else
        (case cut 61 setting of (k, v) \<Rightarrow>
           (case QueryUnescape k of
              None \<Rightarrow> m
            | Some k' \<Rightarrow> (case QueryUnescape v of None \<Rightarrow> m | Some v' \<Rightarrow> Values_Add k' v' m))))"

definition ParseQuery :: "bytes \<Rightarrow> url_values" where
  "ParseQuery raw = foldl add_setting [] (split_on 38 raw)"

text \<open>\<open>Encode\<close> writes the settings by key.\<close>

fun join_settings :: "bytes list \<Rightarrow> bytes" where
  "join_settings [] = []"
| "join_settings [s] = s"
| "join_settings (s # ss) = s @ 38 # join_settings ss"

definition settings :: "url_values \<Rightarrow> (bytes \<times> bytes) list" where
  "settings m = concat (map (\<lambda>(k, vs). map (\<lambda>v. (k, v)) vs) (sort_key fst m))"

definition Values_Encode :: "url_values \<Rightarrow> bytes" where
  "Values_Encode m = join_settings (map (\<lambda>(k, v). QueryEscape k @ 61 # QueryEscape v) (settings m))"

text \<open>
  The parts of a \<open>url.URL\<close> the program uses, and \<open>Query\<close> of one.
\<close>

record url =
  Scheme :: bytes
  Host :: bytes
  RawQuery :: bytes

definition Query :: "url \<Rightarrow> url_values" where
  "Query u = ParseQuery (RawQuery u)"

section \<open>Round trips\<close>

lemma hex_val_upper: "n < 16 \<Longrightarrow> hex_val (upper_hex n) = Some n"
proof -
  assume "n < 16"
  then have "n \<in> set [0..<16]" by simp
  moreover have "list_all (\<lambda>n. hex_val (upper_hex n) = Some n) [0..<16]"
    by (simp add: upt_rec hex_val_def upper_hex_def)
  ultimately show ?thesis by (auto simp: list_all_iff)
qed

lemma byte_less: "unat (c :: byte) < 256"
  by (rule less_le_trans [OF unsigned_less]) simp

lemma hex_pair_upper: "hex_pair (upper_hex (unat c div 16)) (upper_hex (unat c mod 16)) = Some c"
proof -
  have "unat c div 16 < 16" using byte_less [of c] by (simp add: less_mult_imp_div_less)
  then have "hex_val (upper_hex (unat c div 16)) = Some (unat c div 16)"
    and "hex_val (upper_hex (unat c mod 16)) = Some (unat c mod 16)"
    by (simp_all add: hex_val_upper)
  moreover have "(of_nat (16 * (unat c div 16) + unat c mod 16) :: byte) = c"
    by (simp only: mult_div_mod_eq word_of_nat_eq_iff unsigned_of_nat of_nat_unat ucast_id)
  ultimately show ?thesis by (simp only: hex_pair_def option.case)
qed

lemma unescape_escape_append: "QueryUnescape (QueryEscape s @ r) = map_option ((@) s) (QueryUnescape r)"
proof (induction s)
  case (Cons c s)
  have "unreserved c \<Longrightarrow> c \<noteq> 37 \<and> c \<noteq> 43" by (auto simp: unreserved_def)
  with Cons show ?case
    by (auto simp: hex_pair_upper option.map_comp comp_def)
qed (simp add: option.map_id [unfolded id_def])

lemma unescape_escape: "QueryUnescape (QueryEscape s) = Some s"
  using unescape_escape_append [of s "[]"] by simp

lemma escape_safe: "set (QueryEscape s) \<inter> {38, 59, 61} = {}"
proof (induction s)
  case (Cons c s)
  have "upper_hex n \<notin> {38, 59, 61}" if "n < 16" for n
  proof -
    have "list_all (\<lambda>n. upper_hex n \<notin> {38, 59, 61}) [0..<16]" by (simp add: upt_rec upper_hex_def)
    with that show ?thesis by (auto simp: list_all_iff)
  qed
  moreover have "unat c div 16 < 16" using byte_less [of c] by (simp add: less_mult_imp_div_less)
  moreover have "unreserved c \<Longrightarrow> c \<notin> {38, 59, 61}" by (auto simp: unreserved_def)
  ultimately show ?case using Cons by auto
qed simp

text \<open>Splitting a joined query gives its settings back.\<close>

lemma split_on_plain: "d \<notin> set w \<Longrightarrow> split_on d w = [w]"
  by (induction w) auto

lemma split_on_append: "d \<notin> set w \<Longrightarrow> split_on d (w @ d # r) = w # split_on d r"
  by (induction w) auto

lemma split_on_join: "ss \<noteq> [] \<Longrightarrow> \<forall>s \<in> set ss. 38 \<notin> set s \<Longrightarrow> split_on 38 (join_settings ss) = ss"
proof (induction ss rule: join_settings.induct)
  case (3 s1 s2 ss)
  then show ?case by (simp add: split_on_append)
qed (simp_all add: split_on_plain)

lemma Values_All_Add: "Values_All (Values_Add k v m) k' = (if k = k' then Values_All m k @ [v] else Values_All m k')"
  by (simp add: Values_All_def Values_Add_def update_conv)

lemma Values_All_Set: "Values_All (Values_Set k v m) k' = (if k = k' then [v] else Values_All m k')"
  by (simp add: Values_All_def Values_Set_def update_conv)

lemma Values_keys: "distinct (map fst m) \<Longrightarrow> distinct (map fst (Values_Add k v m))"
  "distinct (map fst m) \<Longrightarrow> distinct (map fst (Values_Set k v m))"
  by (simp_all add: Values_Add_def Values_Set_def distinct_update)

lemma add_setting_written: "add_setting m (QueryEscape k @ 61 # QueryEscape v) = Values_Add k v m"
proof -
  have "cut 61 (QueryEscape k @ 61 # QueryEscape v) = (QueryEscape k, QueryEscape v)"
    using escape_safe [of k] by (simp add: cut_def)
  then show ?thesis
    using escape_safe [of k] escape_safe [of v] by (simp add: add_setting_def unescape_escape)
qed

lemma ParseQuery_Encode:
  "ParseQuery (Values_Encode m) = foldl (\<lambda>m (k, v). Values_Add k v m) [] (settings m)"
proof (cases "settings m = []")
  case True
  then show ?thesis by (simp add: ParseQuery_def Values_Encode_def add_setting_def)
next
  case False
  let ?ss = "map (\<lambda>(k, v). QueryEscape k @ 61 # QueryEscape v) (settings m)"
  have "38 \<notin> set s" if "s \<in> set ?ss" for s
    using that escape_safe by fastforce
  then have "split_on 38 (join_settings ?ss) = ?ss"
    using False by (intro split_on_join) auto
  then show ?thesis
    by (simp add: ParseQuery_def Values_Encode_def foldl_map case_prod_unfold add_setting_written)
qed

lemma Values_All_foldl:
  "Values_All (foldl (\<lambda>m (k, v). Values_Add k v m) m xs) k =
     Values_All m k @ map snd (filter (\<lambda>p. fst p = k) xs)"
  by (induction xs arbitrary: m) (auto simp: Values_All_Add)

lemma settings_of: "distinct (map fst m) \<Longrightarrow>
    map snd (filter (\<lambda>p. fst p = k) (concat (map (\<lambda>(k, vs). map (\<lambda>v. (k, v)) vs) m))) = Values_All m k"
proof (induction m)
  case (Cons e m)
  obtain k' vs where e: "e = (k', vs)" by (cases e)
  have "k' = k \<Longrightarrow> map_of m k = None" using Cons.prems by (simp add: e map_of_eq_None_iff)
  then show ?case using Cons by (auto simp: e Values_All_def filter_map comp_def)
qed (simp add: Values_All_def)

lemma sorted_keys: "distinct (map fst m) \<Longrightarrow> distinct (map fst (sort_key fst m))"
  using mset_eq_imp_distinct_iff [of "map fst (sort_key fst m)" "map fst m"] by (simp only: mset_map mset_sort)

lemma Values_All_sorted: "distinct (map fst m) \<Longrightarrow> Values_All (sort_key fst m) k = Values_All m k"
proof -
  assume d: "distinct (map fst m)"
  have "map_of (sort_key fst m) = map_of m" using d sorted_keys [OF d] by (subst map_of_inject_set) simp_all
  then show ?thesis by (simp add: Values_All_def)
qed

text \<open>The reader of an encoded query finds under every key the values that were written.\<close>

lemma query_roundtrip:
  assumes "distinct (map fst m)"
  shows "Values_All (ParseQuery (Values_Encode m)) k = Values_All m k"
proof -
  have "map snd (filter (\<lambda>p. fst p = k) (settings m)) = Values_All m k"
    using settings_of [OF sorted_keys [OF assms], of k] Values_All_sorted [OF assms, of k] by (simp add: settings_def)
  then show ?thesis
    using Values_All_foldl [of "[]" "settings m" k] by (simp add: ParseQuery_Encode Values_All_def)
qed

lemma ParseQuery_keys: "distinct (map fst (ParseQuery raw))"
proof -
  have "distinct (map fst (add_setting m x))" if "distinct (map fst m)" for m x
    using that Values_keys(1) by (auto simp: add_setting_def split: prod.splits option.splits)
  then have "distinct (map fst (foldl add_setting m xs))" if "distinct (map fst m)" for m xs
    using that by (induction xs arbitrary: m) simp_all
  then show ?thesis by (simp add: ParseQuery_def)
qed

end
