(* ===== verification/Tracker.thy ===== *)
theory Tracker
  imports Unmarshal Net Url
begin

text \<open>
  \<open>internal/tracker/tracker.go\<close>: announcing to HTTP and UDP trackers, the fallbacks, and the collection
  of peers over several trackers. What the network answers and the random numbers are
  parameters.
\<close>

section \<open>State\<close>

text \<open>
  A tracker: its URL, whether a UDP connection was opened, and its
  fallbacks, which are only ever asked directly (their own fallbacks are not).
\<close>

record tracker_core =
  URL :: url
  TPeerID :: bytes
  TInfoHash :: bytes
  udpConn :: bool

record tracker = tracker_core +
  fallbackTrackers :: "tracker_core list"

record multi_tracker =
  trackers :: "tracker list"
  mtPeerID :: bytes
  mtInfoHash :: bytes

datatype tracker_error =
    NetworkError net_error | UrlError | DecodeFailed populate_error | BadBencode decode_error
  | InvalidTrackerResponse | FailureReason goval | InvalidPeersData
  | UDPNotInitialized | InvalidConnectLength | ConnectRequestFailed | TransactionMismatch
  | InvalidAnnounceLength | AnnounceRequestFailed | AllAttemptsFailed | UnsupportedProtocol bytes
  | ContextDeadline

text \<open>
  \<open>NewTracker\<close>: \<open>parse\<close> is \<open>url.Parse\<close>, \<open>dial\<close> resolves the host and opens the UDP socket.
\<close>

definition NewTracker ::
  "(bytes \<Rightarrow> url option) \<Rightarrow> (bytes \<Rightarrow> net_error option) \<Rightarrow> bytes \<Rightarrow> bytes \<Rightarrow> bytes
     \<Rightarrow> tracker_error + tracker" where
  "NewTracker parse dial urlStr peer_id info_hash =
     (case parse urlStr of
        None \<Rightarrow> Inl UrlError
      | Some u \<Rightarrow>
          if Scheme u = str ''udp'' then
            (case dial (Host u) of
               Some e \<Rightarrow> Inl (NetworkError e)
             | None \<Rightarrow> Inr \<lparr>URL = u, TPeerID = peer_id, TInfoHash = info_hash, udpConn = True, fallbackTrackers = []\<rparr>)
          else Inr \<lparr>URL = u, TPeerID = peer_id, TInfoHash = info_hash, udpConn = False, fallbackTrackers = []\<rparr>)"

definition NewMultiTracker :: "bytes \<Rightarrow> bytes \<Rightarrow> multi_tracker" where
  "NewMultiTracker peer_id info_hash = \<lparr>trackers = [], mtPeerID = peer_id, mtInfoHash = info_hash\<rparr>"

definition AddTracker :: "multi_tracker \<Rightarrow> tracker \<Rightarrow> multi_tracker" where
  "AddTracker mt t = mt\<lparr>trackers := trackers mt @ [t]\<rparr>"

definition AddFallbackTracker :: "tracker \<Rightarrow> tracker_core \<Rightarrow> tracker" where
  "AddFallbackTracker t fallback = t\<lparr>fallbackTrackers := fallbackTrackers t @ [fallback]\<rparr>"

section \<open>Peers\<close>

text \<open>A \<open>net.TCPAddr\<close> with the four bytes of its address, and the text of it.\<close>

type_synonym peer_addr = "bytes \<times> int"

definition addr_string :: "peer_addr \<Rightarrow> bytes" where
  "addr_string a =
     (case map (\<lambda>b. FormatInt (uint b)) (fst a) of
        [] \<Rightarrow> []
      | w # ws \<Rightarrow> w @ concat (map (\<lambda>v. asc (CHR ''.'') # v) ws))
     @ asc (CHR '':'') # FormatInt (snd a)"

text \<open>The loop of \<open>parsePeers\<close>: six bytes a peer, what is left over is dropped.\<close>

fun parsePeers :: "bytes \<Rightarrow> peer_addr list" where
  "parsePeers (a # b # c # d # p # q # r) = ([a, b, c, d], uint (uint16_of p q)) # parsePeers r"
| "parsePeers _ = []"

fun unique_loop :: "bytes set \<Rightarrow> peer_addr list \<Rightarrow> peer_addr list" where
  "unique_loop seen [] = []"
| "unique_loop seen (p # ps) =
     (if addr_string p \<in> seen then unique_loop seen ps
      else p # unique_loop (insert (addr_string p) seen) ps)"

definition uniquePeers :: "peer_addr list \<Rightarrow> peer_addr list" where
  "uniquePeers ps = unique_loop {} ps"

section \<open>HTTP\<close>

definition announce_values :: "tracker_core \<Rightarrow> int \<Rightarrow> int \<Rightarrow> int \<Rightarrow> url_values" where
  "announce_values t downloaded uploaded left =
     Values_Set (str ''compact'') (str ''1'')
    (Values_Set (str ''left'') (FormatInt left)
    (Values_Set (str ''downloaded'') (FormatInt downloaded)
    (Values_Set (str ''uploaded'') (FormatInt uploaded)
    (Values_Set (str ''port'') (str ''6881'')
    (Values_Set (str ''peer_id'') (TPeerID t)
    (Values_Set (str ''info_hash'') (TInfoHash t)
      (Query (URL t))))))))"

definition decodeHttpResponse :: "bytes \<Rightarrow> (unmarshal_error, goval) go" where
  "decodeHttpResponse body = Unmarshal TInterface (GIface GNil) body"

text \<open>From the answer's body to the peers.\<close>

definition peers_of_response :: "bytes \<Rightarrow> (tracker_error, peer_addr list) go" where
  "peers_of_response body =
     (case decodeHttpResponse body of
        Inl (Panic p) \<Rightarrow> Inl (Panic p)
      | Inl (Error (DecodeErr e)) \<Rightarrow> Inl (Error (BadBencode e))
      | Inl (Error (PopulateErr e)) \<Rightarrow> Inl (Error (DecodeFailed e))
      | Inr decoded \<Rightarrow>
          (case decoded of
             GIface (GMap decodedMap) \<Rightarrow>
               (case map_of decodedMap (str ''failure reason'') of
                  Some reason \<Rightarrow> Inl (Error (FailureReason reason))
                | None \<Rightarrow>
                    (case map_of decodedMap (str ''peers'') of
                       Some (GIface (GString peersData)) \<Rightarrow> Inr (parsePeers peersData)
                     | _ \<Rightarrow> Inl (Error InvalidPeersData)))
           | _ \<Rightarrow> Inl (Error InvalidTrackerResponse)))"

text \<open>\<open>get\<close> is \<open>http.Get\<close> of the tracker's URL with the given query, up to the end of the body.\<close>

definition httpAnnounce ::
  "(tracker_core \<Rightarrow> bytes \<Rightarrow> net_error + bytes) \<Rightarrow> tracker_core \<Rightarrow> int \<Rightarrow> int \<Rightarrow> int
     \<Rightarrow> (tracker_error, peer_addr list) go" where
  "httpAnnounce get t downloaded uploaded left =
     (case get t (Values_Encode (announce_values t downloaded uploaded left)) of
        Inl e \<Rightarrow> Inl (Error (NetworkError e))
      | Inr body \<Rightarrow> peers_of_response body)"

section \<open>UDP\<close>

text \<open>
  One exchange: a datagram is written, and what comes back within the deadline is read, cut
  to the size of the buffer. \<open>Inl\<close> is a failed deadline, write or read.
\<close>

type_synonym exchange = "bytes \<Rightarrow> net_error + bytes"

definition connect_request :: "32 word \<Rightarrow> bytes" where
  "connect_request transaction =
     copy_at 12 (put_uint32 transaction)
       (copy_at 8 (put_uint32 0) (copy_at 0 (put_uint64 0x41727101980) (replicate 16 0)))"

definition udpConnect :: "tracker_core \<Rightarrow> 32 word \<Rightarrow> exchange \<Rightarrow> (tracker_error, 64 word) go" where
  "udpConnect t transaction ex =
     (if \<not> udpConn t then Inl (Error UDPNotInitialized)
      else
        (case ex (connect_request transaction) of
           Inl e \<Rightarrow> Inl (Error (NetworkError e))
         | Inr datagram \<Rightarrow>
             let respBuf = take 16 datagram in
             if length respBuf \<noteq> 16 then Inl (Error InvalidConnectLength)
             else
               (case get_uint32 respBuf of
                  Inl e \<Rightarrow> Inl e
                | Inr action \<Rightarrow>
                    if action \<noteq> 0 then Inl (Error ConnectRequestFailed)
                    else
                      (case get_uint32 (drop 4 respBuf) of
                         Inl e \<Rightarrow> Inl e
                       | Inr transactionID \<Rightarrow>
                           if transactionID \<noteq> transaction then Inl (Error TransactionMismatch)
                           else get_uint64 (drop 8 respBuf)))))"

text \<open>The 98 bytes of the announce request, written front to back.\<close>

definition announce_request ::
  "tracker_core \<Rightarrow> 64 word \<Rightarrow> 32 word \<Rightarrow> 32 word \<Rightarrow> int \<Rightarrow> int \<Rightarrow> int \<Rightarrow> bytes" where
  "announce_request t connectionID transactionID key downloaded uploaded left =
     copy_at 96 (put_uint16 6881)
    (copy_at 92 (put_uint32 (- 1))
    (copy_at 88 (put_uint32 key)
    (copy_at 84 (put_uint32 0)
    (copy_at 80 (put_uint32 0)
    (copy_at 72 (put_uint64 (of_int uploaded))
    (copy_at 64 (put_uint64 (of_int left))
    (copy_at 56 (put_uint64 (of_int downloaded))
    (copy_at 36 (take 20 (TPeerID t))
    (copy_at 16 (take 20 (TInfoHash t))
    (copy_at 12 (put_uint32 transactionID)
    (copy_at 8 (put_uint32 1)
    (copy_at 0 (put_uint64 connectionID) (replicate 98 0)))))))))))))"

definition udpAnnounceRequest ::
  "tracker_core \<Rightarrow> 64 word \<Rightarrow> 32 word \<Rightarrow> 32 word \<Rightarrow> exchange \<Rightarrow> int \<Rightarrow> int \<Rightarrow> int
     \<Rightarrow> (tracker_error, peer_addr list) go" where
  "udpAnnounceRequest t connectionID transactionID key ex downloaded uploaded left =
     (if \<not> udpConn t then Inl (Panic NilDereference) else
      case ex (announce_request t connectionID transactionID key downloaded uploaded left) of
        Inl e \<Rightarrow> Inl (Error (NetworkError e))
      | Inr datagram \<Rightarrow>
          let respBuf = take 1500 datagram in
          if length respBuf < 20 then Inl (Error InvalidAnnounceLength)
          else
            (case get_uint32 respBuf of
               Inl e \<Rightarrow> Inl e
             | Inr action \<Rightarrow>
                 (case get_uint32 (drop 4 respBuf) of
                    Inl e \<Rightarrow> Inl e
                  | Inr respTransactionID \<Rightarrow>
                      if action \<noteq> 1 then Inl (Error AnnounceRequestFailed)
                      else if respTransactionID \<noteq> transactionID then Inl (Error TransactionMismatch)
                      else Inr (parsePeers (drop 20 respBuf)))))"

text \<open>What one attempt meets: its random numbers and its two exchanges.\<close>

record udp_try =
  connectTransaction :: "32 word"
  connectExchange :: exchange
  announceTransaction :: "32 word"
  announceKey :: "32 word"
  announceExchange :: exchange

definition udp_attempt :: "tracker_core \<Rightarrow> udp_try \<Rightarrow> int \<Rightarrow> int \<Rightarrow> int \<Rightarrow> (tracker_error, peer_addr list) go" where
  "udp_attempt t u downloaded uploaded left =
     (case udpConnect t (connectTransaction u) (connectExchange u) of
        Inl e \<Rightarrow> Inl e
      | Inr connectionID \<Rightarrow>
          udpAnnounceRequest t connectionID (announceTransaction u) (announceKey u) (announceExchange u)
            downloaded uploaded left)"

definition maxRetries :: nat where
  "maxRetries = 3"

text \<open>The loop of \<open>udpAnnounce\<close> from attempt \<open>i\<close> on, with \<open>n\<close> attempts to go; an error is only logged.\<close>

fun udp_loop ::
  "tracker_core \<Rightarrow> (nat \<Rightarrow> udp_try) \<Rightarrow> int \<Rightarrow> int \<Rightarrow> int \<Rightarrow> nat \<Rightarrow> nat \<Rightarrow> (tracker_error, peer_addr list) go" where
  "udp_loop t tries downloaded uploaded left i 0 = Inl (Error AllAttemptsFailed)"
| "udp_loop t tries downloaded uploaded left i (Suc n) =
     (case udp_attempt t (tries i) downloaded uploaded left of
        Inl (Panic p) \<Rightarrow> Inl (Panic p)
      | Inl (Error e) \<Rightarrow> udp_loop t tries downloaded uploaded left (Suc i) n
      | Inr peers \<Rightarrow> Inr peers)"

definition udpAnnounce ::
  "tracker_core \<Rightarrow> (nat \<Rightarrow> udp_try) \<Rightarrow> int \<Rightarrow> int \<Rightarrow> int \<Rightarrow> (tracker_error, peer_addr list) go" where
  "udpAnnounce t tries downloaded uploaded left = udp_loop t tries downloaded uploaded left 0 maxRetries"

text \<open>\<open>udpAnnounceWithTimeout\<close>: one attempt against a deadline that may come first.\<close>

definition udpAnnounceWithTimeout ::
  "bool \<Rightarrow> tracker_core \<Rightarrow> udp_try \<Rightarrow> int \<Rightarrow> int \<Rightarrow> int \<Rightarrow> (tracker_error, peer_addr list) go" where
  "udpAnnounceWithTimeout deadline_first t u downloaded uploaded left =
     (if deadline_first then Inl (Error ContextDeadline)
      else udp_attempt t u downloaded uploaded left)"

section \<open>Announcing\<close>

record tracker_net =
  httpGet :: "tracker_core \<Rightarrow> bytes \<Rightarrow> net_error + bytes"
  udpTries :: "tracker_core \<Rightarrow> nat \<Rightarrow> udp_try"

definition announce ::
  "tracker_net \<Rightarrow> tracker_core \<Rightarrow> int \<Rightarrow> int \<Rightarrow> int \<Rightarrow> (tracker_error, peer_addr list) go" where
  "announce net t downloaded uploaded left =
     (if Scheme (URL t) = str ''http'' \<or> Scheme (URL t) = str ''https'' then
        httpAnnounce (httpGet net) t downloaded uploaded left
      else if Scheme (URL t) = str ''udp'' then
        udpAnnounce t (udpTries net t) downloaded uploaded left
      else Inl (Error (UnsupportedProtocol (Scheme (URL t)))))"

text \<open>The fallbacks in turn, starting from the error of the tracker itself.\<close>

fun fallback_loop ::
  "tracker_net \<Rightarrow> int \<Rightarrow> int \<Rightarrow> int \<Rightarrow> tracker_error \<Rightarrow> tracker_core list
     \<Rightarrow> (tracker_error, peer_addr list) go" where
  "fallback_loop net downloaded uploaded left e [] = Inl (Error e)"
| "fallback_loop net downloaded uploaded left e (f # fs) =
     (case announce net f downloaded uploaded left of
        Inl (Panic p) \<Rightarrow> Inl (Panic p)
      | Inl (Error e') \<Rightarrow> fallback_loop net downloaded uploaded left e' fs
      | Inr peers \<Rightarrow> Inr peers)"

definition Tracker_Announce ::
  "tracker_net \<Rightarrow> tracker \<Rightarrow> int \<Rightarrow> int \<Rightarrow> int \<Rightarrow> (tracker_error, peer_addr list) go" where
  "Tracker_Announce net t downloaded uploaded left =
     (case announce net (tracker_core.truncate t) downloaded uploaded left of
        Inl (Panic p) \<Rightarrow> Inl (Panic p)
      | Inl (Error e) \<Rightarrow> fallback_loop net downloaded uploaded left e (fallbackTrackers t)
      | Inr peers \<Rightarrow> Inr peers)"

text \<open>All trackers in turn: the peers collected, and the last error.\<close>

fun multi_loop ::
  "tracker_net \<Rightarrow> int \<Rightarrow> int \<Rightarrow> int \<Rightarrow> tracker list \<Rightarrow> peer_addr list \<Rightarrow> tracker_error option
     \<Rightarrow> ('e, peer_addr list \<times> tracker_error option) go" where
  "multi_loop net downloaded uploaded left [] allPeers lastErr = Inr (allPeers, lastErr)"
| "multi_loop net downloaded uploaded left (t # ts) allPeers lastErr =
     (case Tracker_Announce net t downloaded uploaded left of
        Inl (Panic p) \<Rightarrow> Inl (Panic p)
      | Inl (Error e) \<Rightarrow> multi_loop net downloaded uploaded left ts allPeers (Some e)
      | Inr peers \<Rightarrow> multi_loop net downloaded uploaded left ts (allPeers @ peers) lastErr)"

definition MultiTracker_Announce ::
  "tracker_net \<Rightarrow> multi_tracker \<Rightarrow> int \<Rightarrow> int \<Rightarrow> int \<Rightarrow> (tracker_error, peer_addr list) go" where
  "MultiTracker_Announce net mt downloaded uploaded left =
     (case multi_loop net downloaded uploaded left (trackers mt) [] None of
        Inl e \<Rightarrow> Inl e
      | Inr (allPeers, lastErr) \<Rightarrow>
          let unique = uniquePeers allPeers in
          (case lastErr of
             Some e \<Rightarrow> if length unique = 0 then Inl (Error e) else Inr unique
           | None \<Rightarrow> Inr unique))"

end
