(* ===== verification/Tracker_Correct.thy ===== *)
theory Tracker_Correct
  imports Tracker
begin

text \<open>
  What an announce returns: the UDP exchange with a tracker that follows the protocol, the query an
  HTTP tracker reads, the answers that are accepted, and the peers collected over all trackers.
\<close>

section \<open>Reading words\<close>

lemma get_uint32_iff: "get_uint32 bs = Inr v \<longleftrightarrow> 4 \<le> length bs \<and> take 4 bs = put_uint32 v"
proof
  assume "get_uint32 bs = Inr v"
  then show "4 \<le> length bs \<and> take 4 bs = put_uint32 v" using get_uint32_Inr by blast
next
  assume a: "4 \<le> length bs \<and> take 4 bs = put_uint32 v"
  then have "bs = put_uint32 v @ drop 4 bs" using append_take_drop_id [of 4 bs] by simp
  then show "get_uint32 bs = Inr v" using get_put_uint32 by metis
qed

lemma get_uint32_defined: "4 \<le> length bs \<Longrightarrow> \<exists>v. get_uint32 bs = Inr v"
  using get_uint32_panics [of bs] by (auto simp: get_uint32_def split: list.splits)

lemma get_uint64_defined: "8 \<le> length bs \<Longrightarrow> \<exists>v. get_uint64 bs = Inr v"
  by (auto simp: get_uint64_def numeral_eq_Suc Suc_le_length_iff)

section \<open>Buffers written front to back\<close>

lemma copy_at_fresh:
  assumes "length pre = off" and "length data \<le> n"
  shows "copy_at off data (pre @ replicate n 0) = (pre @ data) @ replicate (n - length data) 0"
  using assms by (simp add: copy_at_def)

lemma connect_request_shape:
  "connect_request transaction = put_uint64 0x41727101980 @ put_uint32 0 @ put_uint32 transaction"
proof -
  have "copy_at 0 (put_uint64 0x41727101980) (replicate 16 0) = put_uint64 0x41727101980 @ replicate 8 0"
    using copy_at_fresh [of "[]" 0 "put_uint64 0x41727101980" 16] by simp
  then show ?thesis
    unfolding connect_request_def by (simp add: copy_at_fresh del: append_assoc)
qed

lemma announce_request_shape:
  assumes "length (TInfoHash t) = 20" and "length (TPeerID t) = 20"
  shows "announce_request t connectionID transactionID key downloaded uploaded left =
    put_uint64 connectionID @ put_uint32 1 @ put_uint32 transactionID @ TInfoHash t @ TPeerID t
    @ put_uint64 (of_int downloaded) @ put_uint64 (of_int left) @ put_uint64 (of_int uploaded)
    @ put_uint32 0 @ put_uint32 0 @ put_uint32 key @ put_uint32 (- 1) @ put_uint16 6881"
proof -
  have "copy_at 0 (put_uint64 connectionID) (replicate 98 0) = put_uint64 connectionID @ replicate 90 0"
    using copy_at_fresh [of "[]" 0 "put_uint64 connectionID" 98] by simp
  then show ?thesis
    unfolding announce_request_def using assms
    by (simp add: copy_at_fresh del: append_assoc)
qed

section \<open>Compact peers\<close>

definition ipv4_addr :: "peer_addr \<Rightarrow> bool" where
  "ipv4_addr a \<longleftrightarrow> length (fst a) = 4 \<and> 0 \<le> snd a \<and> snd a < 2 ^ 16"

definition compact :: "peer_addr list \<Rightarrow> bytes" where
  "compact ps = concat (map (\<lambda>(ip, port). ip @ put_uint16 (of_int port)) ps)"

lemma length_compact: "list_all ipv4_addr ps \<Longrightarrow> length (compact ps) = 6 * length ps"
  by (induction ps) (auto simp: compact_def ipv4_addr_def)

lemma parsePeers_entry:
  assumes "ipv4_addr a"
  shows "parsePeers (fst a @ put_uint16 (of_int (snd a)) @ r) = a # parsePeers r"
proof -
  obtain ip port where a: "a = (ip, port)" by (cases a)
  with assms have "length ip = 4" and p: "0 \<le> port" "port < 2 ^ 16" by (simp_all add: ipv4_addr_def)
  then obtain b c d e where ip: "ip = [b, c, d, e]" by (auto simp: numeral_eq_Suc length_Suc_conv)
  have "uint (of_int port :: 16 word) = port" using p by (simp add: uint_word_of_int)
  then show ?thesis by (simp add: a ip put_uint16_def uint16_of_put)
qed

lemma parsePeers_short: "length r < 6 \<Longrightarrow> parsePeers r = []"
  by (cases r rule: parsePeers.cases) simp_all

lemma parsePeers_compact: "list_all ipv4_addr ps \<Longrightarrow> parsePeers (compact ps @ r) = ps @ parsePeers r"
  by (induction ps) (auto simp: compact_def parsePeers_entry [of "(a, b)" for a b, simplified])

text \<open>A datagram cut to a buffer loses the peers that do not fit whole.\<close>

lemma parsePeers_cut:
  assumes "list_all ipv4_addr ps"
  shows "parsePeers (take k (compact ps)) = take (k div 6) ps"
proof -
  let ?n = "k div 6"
  have split: "compact ps = compact (take ?n ps) @ compact (drop ?n ps)"
    unfolding compact_def by (simp flip: concat_append map_append)
  have ok: "list_all ipv4_addr (take ?n ps)" "list_all ipv4_addr (drop ?n ps)"
    using assms by (auto simp: list_all_iff dest: in_set_takeD in_set_dropD)
  show ?thesis
  proof (cases "?n \<le> length ps")
    case True
    then have len: "length (compact (take ?n ps)) = 6 * ?n" using length_compact [OF ok(1)] by simp
    have "k - 6 * ?n < 6" by presburger
    then have "length (take (k - 6 * ?n) (compact (drop ?n ps))) < 6" by simp
    then have "parsePeers (take (k - 6 * ?n) (compact (drop ?n ps))) = []" by (rule parsePeers_short)
    moreover have "take k (compact ps) = compact (take ?n ps) @ take (k - 6 * ?n) (compact (drop ?n ps))"
      by (subst split) (simp add: len)
    ultimately show ?thesis using parsePeers_compact [OF ok(1)] by simp
  next
    case False
    then have "length (compact ps) \<le> k" using length_compact [OF assms] by simp
    then show ?thesis using parsePeers_compact [OF assms, of "[]"] False by simp
  qed
qed

lemma parsePeers_ipv4: "list_all ipv4_addr (parsePeers bs)"
proof (induction bs rule: parsePeers.induct)
  case (1 a b c d p q r)
  have "uint (uint16_of p q) < 2 ^ 16" using uint_lt2p [of "uint16_of p q"] by simp
  with 1 show ?case by (simp add: ipv4_addr_def)
qed simp_all

section \<open>The UDP protocol\<close>

lemma udpConnect_no_panic: "udpConnect t tr ex \<noteq> Inl (Panic p)"
proof (cases "ex (connect_request tr)")
  case (Inr d)
  define buf where "buf = take 16 d"
  show ?thesis
  proof (cases "length buf = 16")
    case True
    then obtain a b c where "get_uint32 buf = (Inr a :: (tracker_error, 32 word) go)"
        and "get_uint32 (drop 4 buf) = (Inr b :: (tracker_error, 32 word) go)"
        and "get_uint64 (drop 8 buf) = (Inr c :: (tracker_error, 64 word) go)"
      using get_uint32_defined [of buf] get_uint32_defined [of "drop 4 buf"] get_uint64_defined [of "drop 8 buf"]
      by fastforce
    with Inr True show ?thesis by (simp add: udpConnect_def Let_def flip: buf_def)
  qed (simp add: udpConnect_def Inr Let_def flip: buf_def)
qed (simp add: udpConnect_def)

lemma udpAnnounceRequest_no_panic:
  assumes "udpConn t"
  shows "udpAnnounceRequest t cid tr key ex d u l \<noteq> Inl (Panic p)"
proof (cases "ex (announce_request t cid tr key d u l)")
  case (Inr dg)
  define buf where "buf = take 1500 dg"
  show ?thesis
  proof (cases "length buf < 20")
    case False
    then obtain a b where "get_uint32 buf = (Inr a :: (tracker_error, 32 word) go)"
        and "get_uint32 (drop 4 buf) = (Inr b :: (tracker_error, 32 word) go)"
      using get_uint32_defined [of buf] get_uint32_defined [of "drop 4 buf"] by fastforce
    with Inr False assms show ?thesis by (simp add: udpAnnounceRequest_def Let_def flip: buf_def)
  qed (simp add: udpAnnounceRequest_def Inr Let_def assms flip: buf_def)
qed (simp add: udpAnnounceRequest_def assms)

lemma udp_attempt_no_panic: "udp_attempt t u d ul l \<noteq> Inl (Panic p)"
proof (cases "udpConnect t (connectTransaction u) (connectExchange u)")
  case (Inl e)
  then show ?thesis
    using udpConnect_no_panic [of t "connectTransaction u" "connectExchange u" p] by (simp add: udp_attempt_def)
next
  case (Inr cid)
  then have "udpConn t" by (auto simp: udpConnect_def split: if_splits)
  with Inr show ?thesis by (simp add: udp_attempt_def udpAnnounceRequest_no_panic)
qed

text \<open>The loop returns the first attempt that succeeds.\<close>

lemma udp_loop_find:
  "udp_loop t tries d u l i n =
     (case find (\<lambda>k. \<not> isl (udp_attempt t (tries k) d u l)) [i..<i + n] of
        None \<Rightarrow> Inl (Error AllAttemptsFailed)
      | Some k \<Rightarrow> udp_attempt t (tries k) d u l)"
proof (induction n arbitrary: i)
  case (Suc n)
  have r: "[i..<Suc (i + n)] = i # [Suc i..<Suc (i + n)]" by (simp add: upt_rec [of i])
  show ?case
  proof (cases "udp_attempt t (tries i) d u l")
    case (Inl e)
    then obtain e' where "e = Error e'"
      using udp_attempt_no_panic [of t "tries i" d u l] by (cases e) auto
    with Inl Suc [of "Suc i"] show ?thesis by (simp add: r del: upt_Suc)
  qed (simp add: r del: upt_Suc)
qed simp

lemma udpAnnounce_no_panic: "udpAnnounce t tries d u l \<noteq> Inl (Panic p)"
  by (auto simp: udpAnnounce_def udp_loop_find udp_attempt_no_panic split: option.splits)

text \<open>
  A tracker as the protocol (BEP 15) asks for: it hands out a connection id, and answers an announce
  that carries this id and its torrent's info hash.
\<close>

definition udp_server :: "bytes \<Rightarrow> 64 word \<Rightarrow> peer_addr list \<Rightarrow> exchange" where
  "udp_server info_hash connectionID ps req =
     (if length req = 16 \<and> take 8 req = put_uint64 0x41727101980 \<and> take 4 (drop 8 req) = put_uint32 0 then
        Inr (put_uint32 0 @ drop 12 req @ put_uint64 connectionID)
      else if length req = 98 \<and> take 8 req = put_uint64 connectionID \<and> take 4 (drop 8 req) = put_uint32 1
        \<and> take 20 (drop 16 req) = info_hash then
        Inr (put_uint32 1 @ take 4 (drop 12 req) @ put_uint32 1800 @ put_uint32 0
          @ put_uint32 (of_nat (length ps)) @ compact ps)
      else Inr (put_uint32 3 @ take 4 (drop 12 req)))"

lemma udpConnect_server:
  assumes "udpConn t"
  shows "udpConnect t transaction (udp_server ih cid ps) = Inr cid"
proof -
  have "udp_server ih cid ps (connect_request transaction) =
      Inr (put_uint32 0 @ put_uint32 transaction @ put_uint64 cid)"
    by (simp add: udp_server_def connect_request_shape)
  with assms show ?thesis by (simp add: udpConnect_def Let_def)
qed

lemma udpAnnounceRequest_server:
  assumes "udpConn t" and "length (TInfoHash t) = 20" and "length (TPeerID t) = 20" and "list_all ipv4_addr ps"
  shows "udpAnnounceRequest t cid transaction key (udp_server (TInfoHash t) cid ps) d u l = Inr (take 246 ps)"
proof -
  let ?req = "announce_request t cid transaction key d u l"
  have req: "length ?req = 98" "take 8 ?req = put_uint64 cid" "take 4 (drop 8 ?req) = put_uint32 1"
      "take 4 (drop 12 ?req) = put_uint32 transaction" "take 20 (drop 16 ?req) = TInfoHash t"
    using assms by (simp_all add: announce_request_shape)
  have "udp_server (TInfoHash t) cid ps ?req =
      Inr (put_uint32 1 @ put_uint32 transaction @ put_uint32 1800 @ put_uint32 0
        @ put_uint32 (of_nat (length ps)) @ compact ps)"
    by (simp add: udp_server_def req)
  with assms show ?thesis
    by (simp add: udpAnnounceRequest_def Let_def parsePeers_cut)
qed

lemma udp_attempt_server:
  assumes "udpConn t" and "length (TInfoHash t) = 20" and "length (TPeerID t) = 20" and "list_all ipv4_addr ps"
    and "connectExchange a = udp_server (TInfoHash t) cid ps" and "announceExchange a = udp_server (TInfoHash t) cid ps"
  shows "udp_attempt t a d u l = Inr (take 246 ps)"
  using assms by (simp add: udp_attempt_def udpConnect_server udpAnnounceRequest_server)

section \<open>Distinct peers\<close>

lemma cut_inj: "(d :: byte) \<notin> set w \<Longrightarrow> d \<notin> set v \<Longrightarrow> w @ d # r = v @ d # s \<longleftrightarrow> w = v \<and> r = s"
  using read_until_append [of d w r] read_until_append [of d v s] by (metis Pair_inject option.inject)

lemma FormatInt_inj: "in_i64 a \<Longrightarrow> in_i64 b \<Longrightarrow> FormatInt a = FormatInt b \<longleftrightarrow> a = b"
  using ParseInt_FormatInt [of a] ParseInt_FormatInt [of b] by (metis sum.inject(2))

lemma FormatInt_separators: "46 \<notin> set (FormatInt n)" "58 \<notin> set (FormatInt n)"
  using FormatInt_chars [of 46 n] FormatInt_chars [of 58 n]
  by (auto simp: is_digit_def asc_def word_le_nat_alt)

lemma addr_string_4:
  "addr_string ([a, b, c, d], port) =
     FormatInt (uint a) @ 46 # FormatInt (uint b) @ 46 # FormatInt (uint c) @ 46 # FormatInt (uint d)
       @ 58 # FormatInt port"
  by (simp add: addr_string_def asc_def)

lemma byte_in_i64: "in_i64 (uint (a :: byte))"
proof -
  have "uint a < 256" using uint_lt2p [of a] by simp
  then have "uint a < 2 ^ 63" by (rule less_le_trans) simp
  moreover have "- (2 ^ 63) \<le> uint a" using uint_ge_0 [of a] by (rule order_trans [rotated]) simp
  ultimately show ?thesis by (simp only: in_i64_def)
qed

lemma addr_string_inj:
  assumes "ipv4_addr a" and "ipv4_addr b" and "addr_string a = addr_string b"
  shows "a = b"
proof -
  obtain a1 a2 a3 a4 p where a: "a = ([a1, a2, a3, a4], p)"
    using assms(1) by (cases a) (auto simp: ipv4_addr_def numeral_eq_Suc length_Suc_conv)
  obtain b1 b2 b3 b4 q where b: "b = ([b1, b2, b3, b4], q)"
    using assms(2) by (cases b) (auto simp: ipv4_addr_def numeral_eq_Suc length_Suc_conv)
  have "in_i64 p" "in_i64 q" using assms(1,2) by (auto simp: a b ipv4_addr_def in_i64_def)
  then show ?thesis
    using assms(3)
    by (simp add: a b addr_string_4 cut_inj FormatInt_separators FormatInt_inj byte_in_i64
        word_uint_eq_iff [symmetric])
qed

lemma unique_loop_set:
  "addr_string ` set (unique_loop seen ps) = addr_string ` set ps - seen"
  "set (unique_loop seen ps) \<subseteq> set ps"
  "distinct (map addr_string (unique_loop seen ps))"
  by (induction seen ps rule: unique_loop.induct) auto

lemma uniquePeers_ipv4:
  assumes "list_all ipv4_addr ps"
  shows "set (uniquePeers ps) = set ps" and "distinct (uniquePeers ps)"
proof -
  have inj: "inj_on addr_string (set ps)"
    using assms addr_string_inj by (auto simp: inj_on_def list_all_iff)
  have "addr_string ` set (uniquePeers ps) = addr_string ` set ps"
    by (simp add: uniquePeers_def unique_loop_set)
  with inj unique_loop_set(2) [of "{}" ps] show "set (uniquePeers ps) = set ps"
    by (simp add: uniquePeers_def inj_on_image_eq_iff)
  show "distinct (uniquePeers ps)"
    using unique_loop_set(3) [where ps = ps and seen = "{}"] by (simp add: uniquePeers_def distinct_map)
qed

section \<open>What an announce can return\<close>

lemma peers_of_response_no_panic: "peers_of_response body \<noteq> Inl (Panic p)"
  by (auto simp: peers_of_response_def decodeHttpResponse_def Unmarshal_def
      split: sum.splits fault.splits unmarshal_error.splits goval.splits option.splits)

lemma httpAnnounce_no_panic: "httpAnnounce get t d u l \<noteq> Inl (Panic p)"
  by (auto simp: httpAnnounce_def peers_of_response_no_panic split: sum.splits)

lemma announce_no_panic: "announce net t d u l \<noteq> Inl (Panic p)"
  by (simp add: announce_def httpAnnounce_no_panic udpAnnounce_no_panic)

lemma peers_of_response_ipv4: "peers_of_response body = Inr ps \<Longrightarrow> list_all ipv4_addr ps"
  by (auto simp: peers_of_response_def parsePeers_ipv4
      split: sum.splits fault.splits unmarshal_error.splits goval.splits option.splits)

lemma udp_attempt_ipv4: "udp_attempt t a d u l = Inr ps \<Longrightarrow> list_all ipv4_addr ps"
  by (auto simp: udp_attempt_def udpAnnounceRequest_def Let_def parsePeers_ipv4 split: sum.splits if_splits)

lemma announce_ipv4: "announce net t d u l = Inr ps \<Longrightarrow> list_all ipv4_addr ps"
  by (auto simp: announce_def httpAnnounce_def udpAnnounce_def udp_loop_find
      split: if_splits sum.splits option.splits dest: peers_of_response_ipv4 udp_attempt_ipv4)

text \<open>The tracker and its fallbacks, in turn.\<close>

definition asked :: "tracker \<Rightarrow> tracker_core list" where
  "asked t = tracker_core.truncate t # fallbackTrackers t"

lemma fallback_loop_find:
  "fallback_loop net d u l e fs =
     (case find (\<lambda>c. \<not> isl (announce net c d u l)) fs of
        Some c \<Rightarrow> announce net c d u l
      | None \<Rightarrow> (if fs = [] then Inl (Error e) else announce net (last fs) d u l))"
proof (induction fs arbitrary: e)
  case (Cons f fs)
  show ?case
  proof (cases "announce net f d u l")
    case (Inl e1)
    then obtain e' where "e1 = Error e'" using announce_no_panic [of net f d u l] by (cases e1) auto
    with Inl Cons show ?thesis by (simp add: last_ConsR cong: option.case_cong)
  qed simp
qed simp

lemma Tracker_Announce_no_panic: "Tracker_Announce net t d u l \<noteq> Inl (Panic p)"
  by (auto simp: Tracker_Announce_def announce_no_panic fallback_loop_find split: sum.splits fault.splits option.splits)

lemma Tracker_Announce_ipv4: "Tracker_Announce net t d u l = Inr ps \<Longrightarrow> list_all ipv4_addr ps"
  by (auto simp: Tracker_Announce_def fallback_loop_find
      split: sum.splits fault.splits option.splits if_splits dest: announce_ipv4)

section \<open>All trackers\<close>

definition answer :: "tracker_net \<Rightarrow> int \<Rightarrow> int \<Rightarrow> int \<Rightarrow> tracker \<Rightarrow> peer_addr list" where
  "answer net d u l t = (case Tracker_Announce net t d u l of Inr ps \<Rightarrow> ps | Inl _ \<Rightarrow> [])"

definition failures :: "tracker_net \<Rightarrow> int \<Rightarrow> int \<Rightarrow> int \<Rightarrow> tracker list \<Rightarrow> tracker_error list" where
  "failures net d u l ts =
     concat (map (\<lambda>t. case Tracker_Announce net t d u l of Inl (Error e) \<Rightarrow> [e] | _ \<Rightarrow> []) ts)"

lemma multi_loop_collects:
  "multi_loop net d u l ts ps err =
     Inr (ps @ concat (map (answer net d u l) ts),
       if failures net d u l ts = [] then err else Some (last (failures net d u l ts)))"
proof (induction ts arbitrary: ps err)
  case (Cons t ts)
  show ?case
  proof (cases "Tracker_Announce net t d u l")
    case (Inl e1)
    then obtain e where "e1 = Error e" using Tracker_Announce_no_panic [of net t d u l] by (cases e1) auto
    with Inl Cons show ?thesis by (simp add: answer_def failures_def)
  next
    case (Inr qs)
    with Cons show ?thesis by (simp add: answer_def failures_def)
  qed
qed (simp add: failures_def)

lemma answers_ipv4: "list_all ipv4_addr (concat (map (answer net d u l) ts))"
proof -
  have "list_all ipv4_addr (answer net d u l t)" for t
    using Tracker_Announce_ipv4 by (auto simp: answer_def split: sum.splits)
  then show ?thesis by (auto simp: list_all_iff)
qed

section \<open>Properties\<close>

text \<open>
  C13: a UDP tracker that follows the protocol is understood: if one of the three attempts reaches it
  and the earlier ones brought nothing, the announce returns the peers the tracker sent, in
  order, up to the 246 that fit into the buffer of 1500 bytes.
\<close>

theorem udp_tracker_understood:
  assumes "udpConn t" and "length (TInfoHash t) = 20" and "length (TPeerID t) = 20"
    and "list_all ipv4_addr ps" and "k < maxRetries"
    and "connectExchange (tries k) = udp_server (TInfoHash t) connectionID ps"
    and "announceExchange (tries k) = udp_server (TInfoHash t) connectionID ps"
    and "list_all (\<lambda>j. isl (udp_attempt t (tries j) downloaded uploaded left)) [0..<k]"
  shows "udpAnnounce t tries downloaded uploaded left = Inr (take 246 ps)"
proof -
  let ?P = "\<lambda>j. \<not> isl (udp_attempt t (tries j) downloaded uploaded left)"
  have k: "udp_attempt t (tries k) downloaded uploaded left = Inr (take 246 ps)"
    using assms(1-4,6,7) by (rule udp_attempt_server)
  have "[0..<maxRetries] = [0..<k] @ k # [Suc k..<maxRetries]"
    using assms(5) upt_add_eq_append [of 0 k "maxRetries - k"] by (simp add: upt_conv_Cons)
  moreover have "find ?P ([0..<k] @ k # xs) = Some k" for xs
    using assms(8) k by (induction "[0..<k]" arbitrary: k) (auto simp: list_all_iff find_Some_iff nth_append)
  ultimately show ?thesis using k by (simp add: udpAnnounce_def udp_loop_find)
qed

definition demo_core :: tracker_core where
  "demo_core = \<lparr>URL = \<lparr>Scheme = str ''udp'', Host = str ''t:80'', RawQuery = []\<rparr>,
     TPeerID = replicate 20 1, TInfoHash = replicate 20 2, udpConn = True\<rparr>"

definition demo_peers :: "peer_addr list" where
  "demo_peers = [([10, 0, 0, 1], 6881), ([10, 0, 0, 2], 51413)]"

definition demo_tries :: "nat \<Rightarrow> udp_try" where
  "demo_tries k =
     (let ex = if k = 0 then (\<lambda>_. Inl NetTimeout) else udp_server (replicate 20 2) 77 demo_peers in
      \<lparr>connectTransaction = of_nat k, connectExchange = ex, announceTransaction = 5, announceKey = 9,
       announceExchange = ex\<rparr>)"

theorem udp_tracker_understood_witness:
  "udpAnnounce demo_core demo_tries 0 0 1000 = Inr demo_peers"
proof -
  have "udpAnnounce demo_core demo_tries 0 0 1000 = Inr (take 246 demo_peers)"
    by (rule udp_tracker_understood [where k = 1 and connectionID = 77])
      (simp_all add: demo_core_def demo_peers_def demo_tries_def ipv4_addr_def maxRetries_def
        udp_attempt_def udpConnect_def Let_def)
  then show ?thesis by (simp add: demo_peers_def)
qed

text \<open>
  A UDP announce is the first success among at most three attempts, and the one error \<open>all UDP announce
  attempts failed\<close> without any; no datagram a tracker could send makes it panic.
\<close>

lemma udp_retries_bounded:
  "udpAnnounce t tries downloaded uploaded left =
     (case find (\<lambda>k. \<not> isl (udp_attempt t (tries k) downloaded uploaded left)) [0, 1, 2] of
        None \<Rightarrow> Inl (Error AllAttemptsFailed)
      | Some k \<Rightarrow> udp_attempt t (tries k) downloaded uploaded left)
   \<and> udp_attempt t a downloaded uploaded left \<noteq> Inl (Panic p)"
  by (simp add: udpAnnounce_def udp_loop_find udp_attempt_no_panic maxRetries_def numeral_3_eq_3 upt_rec
      numeral_2_eq_2)

text \<open>
  C23: an HTTP tracker that decodes the query it is sent finds the info hash and the peer id byte for
  byte, the counters in decimal, and every other setting of its own URL as it was.
\<close>

theorem http_query_roundtrip:
  "let q = ParseQuery (Values_Encode (announce_values t downloaded uploaded left)) in
     Values_All q (str ''info_hash'') = [TInfoHash t] \<and> Values_All q (str ''peer_id'') = [TPeerID t]
     \<and> Values_All q (str ''uploaded'') = [FormatInt uploaded]
     \<and> Values_All q (str ''downloaded'') = [FormatInt downloaded]
     \<and> Values_All q (str ''left'') = [FormatInt left]
     \<and> Values_All q (str ''port'') = [str ''6881''] \<and> Values_All q (str ''compact'') = [str ''1'']
     \<and> (k \<in> {str ''info_hash'', str ''peer_id'', str ''uploaded'', str ''downloaded'', str ''left'',
          str ''port'', str ''compact''}
        \<or> Values_All q k = Values_All (Query (URL t)) k)"
proof -
  have "distinct (map fst (announce_values t downloaded uploaded left))"
    by (simp add: announce_values_def Query_def Values_keys ParseQuery_keys)
  note q = query_roundtrip [OF this]
  show ?thesis
    unfolding Let_def q by (simp add: announce_values_def Values_All_Set str_def asc_def)
qed

text \<open>
  C24: an HTTP answer is accepted exactly when it starts with a dictionary that holds no failure reason
  and a string of peers; the peers are its groups of six bytes. No answer makes the client panic.
\<close>

theorem http_answer_accepted:
  "(peers_of_response body = Inr ps \<longleftrightarrow>
     (\<exists>d rest s. decodeValue body = Inr (BDict d, rest) \<and> map_of d (str ''failure reason'') = None
        \<and> map_of d (str ''peers'') = Some (BString s) \<and> ps = parsePeers s))
   \<and> peers_of_response body \<noteq> Inl (Panic p)"
proof -
  have m: "map_of (map (\<lambda>(k, v). (k, GIface (go_of v))) d) key = map_option (\<lambda>v. GIface (go_of v)) (map_of d key)"
    for d :: "(bytes \<times> bval) list" and key
    by (induction d) auto
  have s: "go_of v = GString s \<longleftrightarrow> v = BString s" for v s by (cases v) simp_all
  show ?thesis
  proof (cases "decodeValue body")
    case (Inl e)
    then show ?thesis by (simp add: peers_of_response_def decodeHttpResponse_def Unmarshal_def)
  next
    case (Inr r)
    obtain v rest where r: "r = (v, rest)" by (cases r)
    show ?thesis
    proof (cases v)
      case (BDict d)
      then show ?thesis
        using Inr r
        by (auto simp: peers_of_response_def decodeHttpResponse_def Unmarshal_def m s
            split: option.splits goval.splits)
    qed (simp_all add: Inr r peers_of_response_def decodeHttpResponse_def Unmarshal_def)
  qed
qed

text \<open>
  A tracker with fallbacks answers with the first success among itself and its fallbacks, asked in
  order; when all fail, with the error of the last one asked.
\<close>

lemma fallbacks_in_order:
  "Tracker_Announce net t downloaded uploaded left =
     (case find (\<lambda>c. \<not> isl (announce net c downloaded uploaded left)) (asked t) of
        Some c \<Rightarrow> announce net c downloaded uploaded left
      | None \<Rightarrow> announce net (last (asked t)) downloaded uploaded left)"
proof (cases "announce net (tracker_core.truncate t) downloaded uploaded left")
  case (Inl e1)
  then obtain e where "e1 = Error e"
    using announce_no_panic [of net "tracker_core.truncate t" downloaded uploaded left] by (cases e1) auto
  with Inl show ?thesis by (simp add: Tracker_Announce_def asked_def fallback_loop_find cong: option.case_cong)
qed (simp add: Tracker_Announce_def asked_def)

text \<open>
  C14: announcing to all trackers returns each peer any of them named, once; one tracker's failure does
  not lose the others' peers. It fails only if there is no peer at all and some tracker failed, with
  the last error, and never panics.
\<close>

theorem announce_collects_all:
  "case MultiTracker_Announce net mt downloaded uploaded left of
     Inr ps \<Rightarrow>
       set ps = (\<Union>t \<in> set (trackers mt). set (answer net downloaded uploaded left t)) \<and> distinct ps
       \<and> (0 < length ps \<or> failures net downloaded uploaded left (trackers mt) = [])
   | Inl (Error e) \<Rightarrow>
       (\<Union>t \<in> set (trackers mt). set (answer net downloaded uploaded left t)) = {}
       \<and> failures net downloaded uploaded left (trackers mt) \<noteq> []
       \<and> e = last (failures net downloaded uploaded left (trackers mt))
   | Inl (Panic p) \<Rightarrow> False"
proof -
  let ?all = "concat (map (answer net downloaded uploaded left) (trackers mt))"
  have "set (uniquePeers ?all) = set ?all" and "distinct (uniquePeers ?all)"
    by (rule uniquePeers_ipv4 [OF answers_ipv4])+
  then show ?thesis
    by (auto simp: MultiTracker_Announce_def multi_loop_collects Let_def)
qed

end
