(* ===== verification/PeerLoop.thy ===== *)
theory PeerLoop
  imports Torrent Peer
begin

text \<open>
  The conversation with one peer in \<open>internal/torrent/torrent.go\<close>: the loop of \<open>handlePeer\<close> with a case for
  each message type, the requests it sends for pieces, and the answers to the peer's requests. The
  goroutines a message starts are data (\<open>task\<close>), so that they can run at any later time.
\<close>

section \<open>Goroutines started by the loop\<close>

datatype task =
    RequestPieces
  | RequestPiece nat
  | HandlePieceRequest "32 word" "32 word" "32 word"

text \<open>\<open>requestPieces\<close> starts a goroutine for each piece that is missing here and that the peer has.\<close>

definition requestPieces :: "torrent \<Rightarrow> peer \<Rightarrow> task list" where
  "requestPieces t p =
     map RequestPiece
       (filter (\<lambda>i. \<not> PDownloaded (TPieces t ! i) \<and> HasPiece (Bitfield p) (int i)) [0..<length (TPieces t)])"

text \<open>
  The loop of \<open>requestPiece\<close> from an offset on; \<open>None\<close> stands for a loop that does not end. The
  numbers in a message are the low 32 bits.
\<close>

partial_function (option) request_loop ::
  "net_env \<Rightarrow> nat \<Rightarrow> int \<Rightarrow> int \<Rightarrow> int \<Rightarrow> peer \<Rightarrow> (peer \<times> (peer_error, unit) go) option" where
  "request_loop env index piece_size piece_length begin p =
     (if begin < piece_length then
        (case SendMessage env p MsgRequest
            (NewRequestMessage (of_nat index) (of_int begin)
              (of_int (min_int64 piece_size (i64 (piece_length - begin))))) of
           (p', Inl e) \<Rightarrow> Some (p', Inl e)
         | (p', Inr _) \<Rightarrow> request_loop env index piece_size piece_length (i64 (begin + piece_size)) p')
      else Some (p, Inr ()))"

definition requestPiece ::
  "net_env \<Rightarrow> torrent \<Rightarrow> nat \<Rightarrow> peer \<Rightarrow> (peer \<times> (peer_error, unit) go) option" where
  "requestPiece env t index p =
     (if index \<ge> length (TPieces t) then Some (p, Inl (Panic IndexOutOfRange))
      else if PDownloaded (TPieces t ! index) then Some (p, Inr ())
      else request_loop env index (PieceSize t) (PLength (TPieces t ! index)) 0 p)"

text \<open>
  \<open>handlePieceRequest\<close>: errors are logged only, so what is left of a failure is whether it was a panic.
\<close>

definition handlePieceRequest ::
  "os_env \<Rightarrow> net_env \<Rightarrow> fsys \<Rightarrow> torrent \<Rightarrow> peer \<Rightarrow> 32 word \<Rightarrow> 32 word \<Rightarrow> 32 word
     \<Rightarrow> peer \<times> go_panic option" where
  "handlePieceRequest env net fs t p index begin len =
     (case fileManager t of
        None \<Rightarrow> (p, Some NilDereference)
      | Some fm \<Rightarrow>
          (case ReadPiece env fs fm (uint index) (uint begin) (uint len) of
             Inl (Panic q) \<Rightarrow> (p, Some q)
           | Inl (Error e) \<Rightarrow> (p, None)
           | Inr data \<Rightarrow>
               (case SendMessage net p MsgPiece (NewPieceMessage index begin data) of
                  (p', Inl (Panic q)) \<Rightarrow> (p', Some q)
                | (p', _) \<Rightarrow> (p', None))))"

section \<open>One message\<close>

abbreviation message_uint32 :: "bytes \<Rightarrow> (peer_error, 32 word) go" where
  "message_uint32 \<equiv> get_uint32"

abbreviation message_bitfield :: "int \<Rightarrow> (peer_error, bytes) go" where
  "message_bitfield \<equiv> NewBitfield"

text \<open>
  The cases of the \<open>switch\<close>: the new state, the goroutines started, and a panic where there is one. A
  message that is too short for its fields is skipped, except for \<open>MsgHave\<close>, whose index is read without
  a check. \<open>MsgCancel\<close> and \<open>MsgKeepAlive\<close> have no effect.
\<close>

definition handle_message ::
  "os_env \<Rightarrow> fsys \<Rightarrow> torrent \<Rightarrow> peer \<Rightarrow> int \<Rightarrow> bytes
     \<Rightarrow> fsys \<times> torrent \<times> peer \<times> task list \<times> go_panic option" where
  "handle_message env fs t p msgType payload =
     (if msgType = MsgChoke then (fs, t, p\<lparr>Choked := True\<rparr>, [], None)
      else if msgType = MsgUnchoke then (fs, t, p\<lparr>Choked := False\<rparr>, [RequestPieces], None)
      else if msgType = MsgInterested then (fs, t, p\<lparr>Interested := True\<rparr>, [], None)
      else if msgType = MsgNotInterested then (fs, t, p\<lparr>Interested := False\<rparr>, [], None)
      else if msgType = MsgHave then
        (case message_uint32 payload of
           Inl (Panic q) \<Rightarrow> (fs, t, p, [], Some q)
         | Inl (Error e) \<Rightarrow> (fs, t, p, [], None)
         | Inr pieceIndex \<Rightarrow> (fs, t, p\<lparr>Bitfield := SetPiece (Bitfield p) (uint pieceIndex)\<rparr>, [], None))
      else if msgType = MsgBitfield then
        (case message_bitfield (i64 (int (length payload) * 8)) of
           Inl (Panic q) \<Rightarrow> (fs, t, p, [], Some q)
         | Inl (Error e) \<Rightarrow> (fs, t, p, [], None)
         | Inr bf \<Rightarrow> (fs, t, p\<lparr>Bitfield := copy_at 0 payload bf\<rparr>, [], None))
      else if msgType = MsgRequest then
        (if length payload < 12 then (fs, t, p, [], None)
         else
           (case (message_uint32 payload, message_uint32 (drop 4 payload), message_uint32 (drop 8 payload)) of
              (Inr index, Inr begin, Inr len) \<Rightarrow> (fs, t, p, [HandlePieceRequest index begin len], None)
            | _ \<Rightarrow> (fs, t, p, [], Some IndexOutOfRange)))
      else if msgType = MsgPiece then
        (if length payload < 8 then (fs, t, p, [], None)
         else
           (case (message_uint32 payload, message_uint32 (drop 4 payload)) of
              (Inr index, Inr begin) \<Rightarrow>
                if unat index \<ge> length (TPieces t) then (fs, t, p, [], None)
                else
                  (case processPiece env fs t (unat index) (uint begin) (drop 8 payload) of
                     (fs', t', Inl (Panic q)) \<Rightarrow> (fs', t', p, [], Some q)
                   | (fs', t', _) \<Rightarrow> (fs', t', p, [], None))
            | _ \<Rightarrow> (fs, t, p, [], Some IndexOutOfRange)))
      else (fs, t, p, [], None))"

section \<open>The loop\<close>

text \<open>
  The rounds of the loop until the context is done (the end of the list): the idle timer fires, or the
  next message is read at the given time. An error in reading ends the loop.
\<close>

datatype peer_round = IdleTimeout | Receive int

fun peer_loop ::
  "os_env \<Rightarrow> net_env \<Rightarrow> peer_round list \<Rightarrow> fsys \<Rightarrow> torrent \<Rightarrow> peer
     \<Rightarrow> fsys \<times> torrent \<times> peer \<times> task list \<times> go_panic option" where
  "peer_loop env net [] fs t p = (fs, t, p, [], None)"
| "peer_loop env net (IdleTimeout # rs) fs t p = (fs, t, p, [], None)"
| "peer_loop env net (Receive now # rs) fs t p =
     (case ReadMessage net now p of
        (p1, Inl (Panic q)) \<Rightarrow> (fs, t, p1, [], Some q)
      | (p1, Inl (Error e)) \<Rightarrow> (fs, t, p1, [], None)
      | (p1, Inr (msgType, payload)) \<Rightarrow>
          (case handle_message env fs t p1 msgType payload of
             (fs2, t2, p2, tasks, Some q) \<Rightarrow> (fs2, t2, p2, tasks, Some q)
           | (fs2, t2, p2, tasks, None) \<Rightarrow>
               (case peer_loop env net rs fs2 t2 p2 of
                  (fs3, t3, p3, tasks', q) \<Rightarrow> (fs3, t3, p3, tasks @ tasks', q))))"

definition add_active :: "int \<Rightarrow> torrent \<Rightarrow> torrent" where
  "add_active n t = t\<lparr>ActivePeers := i64 (ActivePeers t + n)\<rparr>"

text \<open>A deferred \<open>Disconnect\<close>; its error is dropped.\<close>

definition defer_disconnect :: "peer \<Rightarrow> peer \<times> go_panic option" where
  "defer_disconnect p =
     (case Disconnect p of
        (Inl (Panic q), _) \<Rightarrow> (p, Some q)
      | (Inl (Error e), _) \<Rightarrow> (p, None)
      | (Inr p', _) \<Rightarrow> (p', None))"

definition handlePeer ::
  "os_env \<Rightarrow> net_env \<Rightarrow> peer_round list \<Rightarrow> fsys \<Rightarrow> torrent \<Rightarrow> peer
     \<Rightarrow> fsys \<times> torrent \<times> peer \<times> task list \<times> go_panic option" where
  "handlePeer env net rounds fs t p =
     (case peer_loop env net rounds fs t p of
        (fs1, t1, p1, tasks, q) \<Rightarrow>
          (case defer_disconnect p1 of
             (p2, Some q') \<Rightarrow> (fs1, t1, p2, tasks, Some q')
           | (p2, None) \<Rightarrow> (fs1, add_active (- 1) t1, p2, tasks, q)))"

end
