(* ===== verification/Connections.thy ===== *)
theory Connections
  imports PeerLoop Tracker
begin

text \<open>
  How \<open>internal/torrent/torrent.go\<close> finds and keeps its peers: announcing with retries, connecting with
  retries, the peers that failed lately, the clean-ups, and the main loop of \<open>Download\<close>. Times are
  nanoseconds; what the clock, the timers, the network and the DHT do is given by parameters.
\<close>

definition time_second :: int where "time_second = 10 ^ 9"
definition time_minute :: int where "time_minute = 60 * time_second"

lemmas times = time_minute_def time_second_def

section \<open>Peers that failed lately\<close>

definition isFailed :: "int \<Rightarrow> bytes \<Rightarrow> torrent \<Rightarrow> bool" where
  "isFailed now addr t =
     (case failedPeers t addr of None \<Rightarrow> False | Some failTime \<Rightarrow> now - failTime < 5 * time_minute)"

definition markFailed :: "int \<Rightarrow> bytes \<Rightarrow> torrent \<Rightarrow> torrent" where
  "markFailed now addr t = t\<lparr>failedPeers := (failedPeers t)(addr \<mapsto> now)\<rparr>"

definition cleanupFailedPeers :: "int \<Rightarrow> torrent \<Rightarrow> torrent" where
  "cleanupFailedPeers now t =
     t\<lparr>failedPeers := (\<lambda>addr.
         case failedPeers t addr of
           None \<Rightarrow> None
         | Some failTime \<Rightarrow> if now - failTime > 5 * time_minute then None else Some failTime)\<rparr>"

section \<open>Connecting\<close>

text \<open>
  What one attempt of \<open>connectToPeers\<close> meets: whether the rate limiter let it through, the network, the
  bytes the peer will send, and whether the context ended during the wait for the next attempt.
\<close>

record attempt =
  limiterOk :: bool
  connectNet :: net_env
  dialledBytes :: bytes
  cancelledWait :: bool

text \<open>
  One round of the loop of \<open>connectToPeers\<close>, with \<open>n\<close> more to go: the torrent, the outcome, and the delays
  waited. A peer that failed before is skipped however long ago that was.
\<close>

datatype dial_outcome =
    DialStopped "int list" | DialConnected peer | DialCrashed go_panic | DialAgain int "int list"

definition connect_attempt ::
  "attempt \<Rightarrow> int \<Rightarrow> bytes \<Rightarrow> nat \<Rightarrow> int \<Rightarrow> torrent \<Rightarrow> torrent \<times> dial_outcome" where
  "connect_attempt a now addr n retryDelay t =
     (if \<not> limiterOk a then (t, DialStopped [])
      else if failedPeers t addr \<noteq> None then (t, DialStopped [])
      else
        (case InfoHash (metaInfo t) of
           Inl e \<Rightarrow> (t, DialStopped [])
         | Inr infoHash \<Rightarrow>
             (case Connect (connectNet a) (dialledBytes a) (NewPeer now addr (peerID t) infoHash) of
                (p, Inl (Panic q)) \<Rightarrow> (t, DialCrashed q)
              | (p, Inl (Error e)) \<Rightarrow>
                  if n = 0 then (t, DialAgain retryDelay [])
                  else if cancelledWait a then (t, DialStopped [retryDelay])
                  else (t, DialAgain (i64 (retryDelay * 2)) [retryDelay])
              | (p, Inr _) \<Rightarrow> (add_active 1 t, DialConnected p))))"

text \<open>
  The loop from attempt \<open>i\<close> on with \<open>n\<close> attempts to go, when no other goroutine interferes. The clock is
  read anew by each attempt, and once more when the peer is marked: \<open>now i\<close> is the time of the reading \<open>i\<close>.
\<close>

datatype connect_result = Connected peer | GaveUp | Crashed go_panic

fun connect_loop ::
  "(nat \<Rightarrow> attempt) \<Rightarrow> (nat \<Rightarrow> int) \<Rightarrow> bytes \<Rightarrow> nat \<Rightarrow> nat \<Rightarrow> int \<Rightarrow> torrent \<Rightarrow> torrent \<times> connect_result \<times> int list" where
  "connect_loop at now addr i 0 retryDelay t = (markFailed (now i) addr t, GaveUp, [])"
| "connect_loop at now addr i (Suc n) retryDelay t =
     (case connect_attempt (at i) (now i) addr n retryDelay t of
        (t1, DialStopped ds) \<Rightarrow> (t1, GaveUp, ds)
      | (t1, DialConnected p) \<Rightarrow> (t1, Connected p, [])
      | (t1, DialCrashed q) \<Rightarrow> (t1, Crashed q, [])
      | (t1, DialAgain delay ds) \<Rightarrow>
          (case connect_loop at now addr (Suc i) n delay t1 of (t2, r, ds') \<Rightarrow> (t2, r, ds @ ds')))"

definition connectToPeers ::
  "(nat \<Rightarrow> attempt) \<Rightarrow> (nat \<Rightarrow> int) \<Rightarrow> bytes \<Rightarrow> torrent \<Rightarrow> torrent \<times> connect_result \<times> int list" where
  "connectToPeers at now addr t = connect_loop at now addr 0 5 time_second t"

text \<open>
  \<open>connectAndHandlePeer\<close>, for the peers of the DHT: \<open>rounds\<close> are those of the loop until its context, which
  here ends 30 seconds after the start of the connection; \<open>later\<close> is when the dialling failed. Both deferred functions run, the one of
  \<open>handlePeer\<close> first.
\<close>

definition connectAndHandlePeer ::
  "os_env \<Rightarrow> net_env \<Rightarrow> bytes \<Rightarrow> int \<Rightarrow> int \<Rightarrow> peer_round list \<Rightarrow> peer_ref \<Rightarrow> fsys \<Rightarrow> torrent \<Rightarrow> peer
     \<Rightarrow> fsys \<times> torrent \<times> peer \<times> task list \<times> go_panic option" where
  "connectAndHandlePeer env net dialled now later rounds ref fs t p =
     (if isFailed now (Addr p) t then (fs, t, p, [], None)
      else
        (case Connect net dialled p of
           (p1, Inl (Panic q)) \<Rightarrow> (fs, t, p1, [], Some q)
         | (p1, Inl (Error e)) \<Rightarrow> (fs, markFailed later (Addr p) t, p1, [], None)
         | (p1, Inr _) \<Rightarrow>
             (case handlePeer env net rounds fs
                 (add_active 1 t\<lparr>activePeers := (activePeers t)(Addr p \<mapsto> ref)\<rparr>) p1 of
                (fs2, t2, p2, tasks, q) \<Rightarrow>
                  (case defer_disconnect p2 of
                     (p3, q') \<Rightarrow>
                       (fs2, add_active (- 1) (t2\<lparr>activePeers := (activePeers t2)(Addr p := None)\<rparr>), p3, tasks,
                        (case q' of Some x \<Rightarrow> Some x | None \<Rightarrow> q))))))"

section \<open>Clean-ups\<close>

text \<open>
  The loop of \<open>cleanupDisconnectedPeers\<close> over the map of active peers, in whatever order Go visits it;
  \<open>peers\<close> resolves the references.
\<close>

fun cleanup_loop ::
  "int \<Rightarrow> bytes list \<Rightarrow> (peer_ref \<Rightarrow> peer) \<Rightarrow> torrent \<Rightarrow> (peer_ref \<Rightarrow> peer) \<times> torrent" where
  "cleanup_loop now [] peers t = (peers, t)"
| "cleanup_loop now (addr # order) peers t =
     (case activePeers t addr of
        None \<Rightarrow> cleanup_loop now order peers t
      | Some ref \<Rightarrow>
          if now - GetLastActiveTime (peers ref) > 2 * time_minute then
            cleanup_loop now order (peers(ref := fst (defer_disconnect (peers ref))))
              (add_active (- 1) (t\<lparr>activePeers := (activePeers t)(addr := None)\<rparr>))
          else cleanup_loop now order peers t)"

definition cleanupDisconnectedPeers ::
  "int \<Rightarrow> bytes list \<Rightarrow> (peer_ref \<Rightarrow> peer) \<Rightarrow> torrent \<Rightarrow> (peer_ref \<Rightarrow> peer) \<times> torrent" where
  "cleanupDisconnectedPeers now order peers t = cleanup_loop now order peers t"

text \<open>One tick of \<open>managePeerConnections\<close>; the first component says whether more peers are requested.\<close>

definition manage_tick ::
  "int \<Rightarrow> bytes list \<Rightarrow> (peer_ref \<Rightarrow> peer) \<Rightarrow> torrent \<Rightarrow> bool \<times> (peer_ref \<Rightarrow> peer) \<times> torrent" where
  "manage_tick now order peers t =
     (case cleanupDisconnectedPeers now order peers t of
        (peers', t') \<Rightarrow> (ActivePeers t < 10, peers', cleanupFailedPeers now t'))"

section \<open>Finding peers\<close>

text \<open>The peers to connect to after one announce.\<close>

definition requestMorePeers :: "tracker_net \<Rightarrow> multi_tracker \<Rightarrow> torrent \<Rightarrow> go_panic + peer_addr list" where
  "requestMorePeers net mt t =
     (case MultiTracker_Announce net mt (Downloaded t) (Uploaded t) (Left t) of
        Inl (Panic q) \<Rightarrow> Inl q
      | Inl (Error e) \<Rightarrow> Inr []
      | Inr peers \<Rightarrow> Inr peers)"

text \<open>
  The loop of \<open>announceWithRetry\<close>: the peers to connect to, and the delays waited. Attempt \<open>i\<close> sees the
  network \<open>net i\<close> and the torrent \<open>seen i\<close>; \<open>cancelled i\<close> ends the wait after it, and the loop.
\<close>

fun announce_loop ::
  "(nat \<Rightarrow> tracker_net) \<Rightarrow> (nat \<Rightarrow> torrent) \<Rightarrow> (nat \<Rightarrow> bool) \<Rightarrow> multi_tracker \<Rightarrow> nat \<Rightarrow> nat
     \<Rightarrow> (go_panic + peer_addr list) \<times> int list" where
  "announce_loop net seen cancelled mt i 0 = (Inr [], [])"
| "announce_loop net seen cancelled mt i (Suc n) =
     (case MultiTracker_Announce (net i) mt (Downloaded (seen i)) (Uploaded (seen i)) (Left (seen i)) of
        Inl (Panic q) \<Rightarrow> (Inl q, [])
      | Inr peers \<Rightarrow> (Inr peers, [])
      | Inl (Error e) \<Rightarrow>
          let delay = i64 (2 ^ i * time_second) in
          if cancelled i then (Inr [], [delay])
          else (case announce_loop net seen cancelled mt (Suc i) n of (r, ds) \<Rightarrow> (r, delay # ds)))"

definition announceWithRetry ::
  "(nat \<Rightarrow> tracker_net) \<Rightarrow> (nat \<Rightarrow> torrent) \<Rightarrow> (nat \<Rightarrow> bool) \<Rightarrow> multi_tracker
     \<Rightarrow> (go_panic + peer_addr list) \<times> int list" where
  "announceWithRetry net seen cancelled mt = announce_loop net seen cancelled mt 0 5"

text \<open>
  The DHT is a library; what the program does with it is to look for \<open>HashBytes\<close> (of that library) of the
  info hash, and to connect to each address it is told once. The peers' handshakes carry that hash too.
\<close>

definition dht_hash :: "(bytes \<Rightarrow> bytes) \<Rightarrow> meta_info \<Rightarrow> encode_error + bytes" where
  "dht_hash HashBytes m = (case InfoHash m of Inl e \<Rightarrow> Inl e | Inr infoHash \<Rightarrow> Inr (HashBytes infoHash))"

fun discover_loop :: "bytes set \<Rightarrow> peer_addr list \<Rightarrow> peer_addr list" where
  "discover_loop unique [] = []"
| "discover_loop unique (r # rs) =
     (if addr_string r \<in> unique then discover_loop unique rs
      else r # discover_loop (insert (addr_string r) unique) rs)"

definition discoverPeers :: "int \<Rightarrow> torrent \<Rightarrow> bytes \<Rightarrow> peer_addr list \<Rightarrow> peer list" where
  "discoverPeers now t hash found =
     map (\<lambda>a. NewPeer now (addr_string a) (peerID t) (to_array 20 hash)) (discover_loop {} found)"

text \<open>
  \<open>UseDHT\<close>: with the server and an info hash, the DHT is used with the hash returned; \<open>started\<close> says whether the
  server could be created.
\<close>

datatype dht_failure = ServerNotCreated | HashNotKnown encode_error

definition UseDHT :: "bool \<Rightarrow> (bytes \<Rightarrow> bytes) \<Rightarrow> torrent \<Rightarrow> dht_failure + bytes" where
  "UseDHT started HashBytes t =
     (if \<not> started then Inl ServerNotCreated
      else (case dht_hash HashBytes (metaInfo t) of Inl e \<Rightarrow> Inl (HashNotKnown e) | Inr hash \<Rightarrow> Inr hash))"

text \<open>
  The loop of \<open>dhtAnnounceAndDiscover\<close> until its context is done: the hashes announced, and the peers to
  connect to. A tick that discovers comes with what the DHT told (nothing if the search could not start).
\<close>

datatype dht_tick = DhtAnnounceTick | DhtDiscoverTick int "peer_addr list"

fun dhtAnnounceAndDiscover :: "torrent \<Rightarrow> bytes \<Rightarrow> dht_tick list \<Rightarrow> bytes list \<times> peer list" where
  "dhtAnnounceAndDiscover t hash [] = ([], [])"
| "dhtAnnounceAndDiscover t hash (DhtAnnounceTick # ticks) =
     (case dhtAnnounceAndDiscover t hash ticks of (announced, found) \<Rightarrow> (hash # announced, found))"
| "dhtAnnounceAndDiscover t hash (DhtDiscoverTick now told # ticks) =
     (case dhtAnnounceAndDiscover t hash ticks of
        (announced, found) \<Rightarrow> (announced, discoverPeers now t hash told @ found))"

section \<open>The main loop\<close>

text \<open>
  What the \<open>select\<close> of \<open>Download\<close> receives; a tick sees the files and the torrent of that moment. The
  second component of the result counts the announces started. \<open>None\<close>: the loop is still waiting.
\<close>

datatype download_event = DownloadCancelled | LastPieceTimeout | DownloadTick int fsys torrent

datatype download_failure =
    ContextError | LastPieceTimedOut | VerificationFailed download_error | ErrDownloadTimeout
  | NoInfoHash encode_error

fun download_loop ::
  "os_env \<Rightarrow> download_event list \<Rightarrow> (download_failure, torrent) go option \<times> nat" where
  "download_loop env [] = (None, 0)"
| "download_loop env (DownloadCancelled # es) = (Some (Inl (Error ContextError)), 0)"
| "download_loop env (LastPieceTimeout # es) = (Some (Inl (Error LastPieceTimedOut)), 0)"
| "download_loop env (DownloadTick now fs t # es) =
     (if isComplete t then
        (case verifyDownload env fs t of
           (t', Inl (Panic q)) \<Rightarrow> (Some (Inl (Panic q)), 0)
         | (t', Inl (Error e)) \<Rightarrow> (Some (Inl (Error (VerificationFailed e))), 0)
         | (t', Inr _) \<Rightarrow> (Some (Inr t'), 0))
      else
        let more = (if ActivePeers t < 10 then 1 else 0) in
        if Downloaded t = 0 \<and> now - startTime t > 5 * time_minute then (Some (Inl (Error ErrDownloadTimeout)), more)
        else (case download_loop env es of (r, n) \<Rightarrow> (r, more + n)))"

text \<open>
  \<open>Download\<close>: without an info hash it returns at once; otherwise the channel that stops the progress reports
  is closed at the end, which panics if it is closed already.
\<close>

definition Download_run ::
  "os_env \<Rightarrow> torrent \<Rightarrow> download_event list \<Rightarrow> (download_failure, torrent) go option \<times> nat" where
  "Download_run env t events =
     (case InfoHash (metaInfo t) of
        Inl e \<Rightarrow> (Some (Inl (Error (NoInfoHash e))), 0)
      | Inr _ \<Rightarrow>
          (case download_loop env events of
             (None, n) \<Rightarrow> (None, n)
           | (Some r, n) \<Rightarrow> (Some (if progressClosed t then Inl (Panic CloseOfClosedChannel) else r), n)))"

text \<open>\<open>progressReporter\<close>: a report for each tick until the channel is closed.\<close>

definition progressReporter :: "torrent list \<Rightarrow> (nat \<times> nat \<times> int \<times> int) list" where
  "progressReporter ticks = map reportProgress ticks"

end
