(* ===== verification/Connections_Correct.thy ===== *)
theory Connections_Correct
  imports Connections Tracker_Correct Peer_Correct Download
begin

text \<open>
  How often and how long the client tries to reach trackers and peers, how long a failed peer is
  remembered, and how the number of active peers is kept.
\<close>

section \<open>Connections\<close>

lemma Connect_no_panic: "snd (Connect env dialled p) \<noteq> Inl (Panic q)"
  by (auto simp: Connect_def sendHandshake_def readHandshake_def check_handshake_def Let_def
      split: option.splits sum.splits prod.splits if_splits)

text \<open>A peer that answers with the right handshake is accepted, and what it sends next stays to be read.\<close>

lemma Connect_greeted:
  assumes "length h = 20"
  shows "Connect quiet (19 # protocol_name @ replicate 8 0 @ h @ replicate 20 5 @ rest) (NewPeer now addr pid h) =
    ((NewPeer now addr pid h)\<lparr>Conn := Some \<lparr>incoming = rest,
       outgoing = handshake_bytes (NewPeer now addr pid h), closed = False\<rparr>\<rparr>, Inr ())"
proof -
  let ?in = "19 # protocol_name @ replicate 8 0 @ h @ replicate 20 5 @ rest"
  define q where "q = (NewPeer now addr pid h)\<lparr>Conn := Some \<lparr>incoming = ?in,
    outgoing = handshake_bytes (NewPeer now addr pid h), closed = False\<rparr>\<rparr>"
  have "readHandshake quiet q = (q\<lparr>Conn := Some \<lparr>incoming = rest, outgoing = outgoing (the (Conn q)), closed = False\<rparr>\<rparr>, Inr ())"
    using readHandshake_shape [of q _ "replicate 8 0" h "replicate 20 5" rest] assms by (simp add: q_def NewPeer_def)
  then show ?thesis
    by (simp add: Connect_def Let_def SetDeadline_def sendHandshake_def Conn_Write_def q_def handshake_bytes_def NewPeer_def)
qed

text \<open>The channel of the keep-alive sender is closed at most once: reading and handling leave it alone.\<close>

definition sane :: "peer \<Rightarrow> bool" where
  "sane p \<longleftrightarrow> (stopClosed p \<longrightarrow> onceDone p)"

lemma sane_new: "sane (NewPeer now a pid ih)"
  by (simp add: sane_def NewPeer_def)

lemma sane_updates [simp]:
  "sane (p\<lparr>Conn := c\<rparr>) = sane p" "sane (p\<lparr>Choked := b\<rparr>) = sane p" "sane (p\<lparr>Interested := b\<rparr>) = sane p"
  "sane (p\<lparr>Bitfield := bf\<rparr>) = sane p" "sane (p\<lparr>LastActiveTime := n\<rparr>) = sane p"
  by (simp_all add: sane_def)

lemma sane_Connect: "sane p \<Longrightarrow> sane (fst (Connect env dialled p))"
  by (auto simp: Connect_def sendHandshake_def readHandshake_def close_conn_def Let_def
      split: option.splits sum.splits prod.splits)

lemma sane_ReadMessage: "sane p \<Longrightarrow> sane (fst (ReadMessage env now p))"
  by (auto simp: ReadMessage_def split: option.splits sum.splits prod.splits net_error.splits)

lemma sane_handle: "handle_message env fs t p ty pl = (fs', t', p', tasks, q) \<Longrightarrow> sane p \<Longrightarrow> sane p'"
  by (auto simp: handle_message_def split: if_splits sum.splits fault.splits prod.splits)

lemma sane_disconnect: "sane p \<Longrightarrow> \<exists>p'. defer_disconnect p = (p', None) \<and> sane p'"
  by (auto simp: sane_def defer_disconnect_def Disconnect_def StopKeepalive_def split: option.splits prod.splits)

section \<open>The number of active peers\<close>

lemma processPiece_active:
  "processPiece env fs t i b d = (fs', t', r) \<Longrightarrow> ActivePeers t' = ActivePeers t"
  by (auto simp: processPiece_def verifyPiece_def Let_def count_bytes_def set_downloaded_def
      split: if_splits option.splits sum.splits fault.splits prod.splits)

lemma handle_message_active:
  "handle_message env fs t p ty pl = (fs', t', p', tasks, q) \<Longrightarrow> ActivePeers t' = ActivePeers t"
  by (auto simp: handle_message_def dest: processPiece_active
      split: if_splits sum.splits fault.splits prod.splits)

lemma peer_loop_active:
  "peer_loop env net rounds fs t p = (fs', t', p', tasks, q) \<Longrightarrow> sane p \<Longrightarrow>
     ActivePeers t' = ActivePeers t \<and> sane p'"
proof (induction env net rounds fs t p arbitrary: fs' t' p' tasks q rule: peer_loop.induct)
  case (3 env net now rs fs t p)
  obtain p1 r where rd: "ReadMessage net now p = (p1, r)" by (cases "ReadMessage net now p")
  then have s1: "sane p1" using sane_ReadMessage [OF "3.prems"(2), of net now] by simp
  show ?case
  proof (cases r)
    case (Inl e)
    then show ?thesis using "3.prems" rd s1 by (auto split: fault.splits)
  next
    case (Inr m)
    obtain ty pl where m: "m = (ty, pl)" by (cases m)
    obtain fs2 t2 p2 ts q2 where h: "handle_message env fs t p1 ty pl = (fs2, t2, p2, ts, q2)"
      by (cases "handle_message env fs t p1 ty pl") auto
    note a = handle_message_active [OF h] sane_handle [OF h s1]
    show ?thesis
    proof (cases q2)
      case None
      obtain fs3 t3 p3 ts3 q3 where l: "peer_loop env net rs fs2 t2 p2 = (fs3, t3, p3, ts3, q3)"
        by (cases "peer_loop env net rs fs2 t2 p2") auto
      have "ActivePeers t3 = ActivePeers t2 \<and> sane p3"
        using "3.IH" [OF rd [symmetric] Inr m [symmetric] h [symmetric] refl refl refl None l] a(2) by simp
      with "3.prems"(1) rd Inr m h None l a show ?thesis by auto
    qed (use "3.prems"(1) rd Inr m h a in auto)
  qed
qed auto

lemma handlePeer_active:
  assumes "handlePeer env net rounds fs t p = (fs', t', p', tasks, q)" and "sane p"
  shows "ActivePeers t' = i64 (ActivePeers t - 1) \<and> sane p'"
proof -
  obtain fs1 t1 p1 ts q1 where l: "peer_loop env net rounds fs t p = (fs1, t1, p1, ts, q1)"
    by (cases "peer_loop env net rounds fs t p") auto
  note a = peer_loop_active [OF l assms(2)]
  obtain p2 where "defer_disconnect p1 = (p2, None)" "sane p2" using sane_disconnect a by blast
  with assms(1) l a show ?thesis by (auto simp: handlePeer_def add_active_def)
qed

section \<open>Retries\<close>

fun doubling :: "int \<Rightarrow> nat \<Rightarrow> int list" where
  "doubling d 0 = []"
| "doubling d (Suc n) = d # doubling (i64 (d * 2)) n"

lemma length_doubling [simp]: "length (doubling d n) = n"
  by (induction d n rule: doubling.induct) simp_all

lemma doubling_seconds: "doubling time_second 4 = map (\<lambda>k. 2 ^ k * time_second) [0..<4]"
  by (simp add: numeral_eq_Suc times i64_def)

abbreviation reached :: "(nat \<Rightarrow> attempt) \<Rightarrow> (nat \<Rightarrow> int) \<Rightarrow> bytes \<Rightarrow> torrent \<Rightarrow> bytes \<Rightarrow> nat \<Rightarrow> bool" where
  "reached at now addr t infoHash i \<equiv>
     \<not> isl (snd (Connect (connectNet (at i)) (dialledBytes (at i)) (NewPeer (now i) addr (peerID t) infoHash)))"

lemma connect_loop_result:
  assumes "connect_loop at now addr i n d t = (t', r, ds)"
  shows "ds = take (length ds) (doubling d (n - 1))
    \<and> (case r of
         Connected p \<Rightarrow> t' = add_active 1 t \<and> sane p \<and> failedPeers t addr = None
       | GaveUp \<Rightarrow> t' = t \<or> t' = markFailed (now (i + n)) addr t \<and> length ds = n - 1
           \<and> (n = 0 \<or> (\<exists>h. InfoHash (metaInfo t) = Inr h \<and> list_all (\<lambda>k. \<not> reached at now addr t h k) [i..<i + n]))
       | Crashed q \<Rightarrow> False)"
  using assms
proof (induction n arbitrary: i d t' r ds)
  case (Suc n)
  show ?case
  proof (cases "limiterOk (at i) \<and> failedPeers t addr = None \<and> (\<exists>h. InfoHash (metaInfo t) = Inr h)")
    case False
    then have "t' = t \<and> r = GaveUp \<and> ds = []" using Suc.prems by (auto simp: connect_attempt_def split: sum.splits if_splits)
    then show ?thesis by simp
  next
    case True
    then obtain h where h: "InfoHash (metaInfo t) = Inr h" by blast
    let ?p = "NewPeer (now i) addr (peerID t) h"
    obtain p c where c: "Connect (connectNet (at i)) (dialledBytes (at i)) ?p = (p, c)"
      by (cases "Connect (connectNet (at i)) (dialledBytes (at i)) ?p")
    show ?thesis
    proof (cases c)
      case (Inr u)
      then have "t' = add_active 1 t \<and> r = Connected p \<and> ds = []" using Suc.prems True h c by (simp add: connect_attempt_def)
      moreover have "sane p" using sane_Connect [OF sane_new, of "connectNet (at i)" "dialledBytes (at i)" "now i" addr "peerID t" h] c by simp
      ultimately show ?thesis using True by simp
    next
      case (Inl x)
      then obtain e where e: "x = Error e"
        using Connect_no_panic [of "connectNet (at i)" "dialledBytes (at i)" ?p] c by (cases x) auto
      have un: "\<not> reached at now addr t h i" using c Inl by simp
      have upt: "[i..<i + Suc n] = i # [Suc i..<Suc i + n]" by (simp add: upt_rec [of i])
      show ?thesis
      proof (cases "n = 0")
        case True': True
        then have "t' = markFailed (now (Suc i)) addr t \<and> r = GaveUp \<and> ds = []" using Suc.prems True h c Inl e by (simp add: connect_attempt_def)
        then show ?thesis using h un True' by simp
      next
        case False
        then obtain m where m: "n = Suc m" by (cases n) auto
        show ?thesis
        proof (cases "cancelledWait (at i)")
          case True': True
          then have "t' = t \<and> r = GaveUp \<and> ds = [d]" using Suc.prems True h c Inl e False by (simp add: connect_attempt_def)
          then show ?thesis using m by simp
        next
          case go_on: False
          obtain t1 r1 ds1 where l: "connect_loop at now addr (Suc i) n (i64 (d * 2)) t = (t1, r1, ds1)"
            by (cases "connect_loop at now addr (Suc i) n (i64 (d * 2)) t") auto
          then have "t' = t1 \<and> r = r1 \<and> ds = d # ds1" using Suc.prems True h c Inl e False go_on by (simp add: connect_attempt_def)
          with Suc.IH [OF l] m h un show ?thesis
            unfolding upt by (auto split: connect_result.splits)
        qed
      qed
    qed
  qed
qed simp

text \<open>
  \<open>TrackerInterface\<close>, through which the torrent announces: it never panics, and names no address twice, so
  that the torrent starts one connection for each.
\<close>

locale tracker_interface =
  fixes Announce :: "int \<Rightarrow> int \<Rightarrow> int \<Rightarrow> ('e, peer_addr list) go"
  assumes no_panic: "Announce d u l \<noteq> Inl (Panic q)"
    and no_duplicates: "Announce d u l = Inr ps \<Longrightarrow> distinct (map addr_string ps)"
begin

lemma outcomes:
  obtains (failed) e where "Announce d u l = Inl (Error e)"
    | (peers) ps where "Announce d u l = Inr ps" and "distinct (map addr_string ps)"
proof (cases "Announce d u l")
  case (Inl x)
  then show thesis using that(1) no_panic [of d u l] by (cases x) auto
next
  case (Inr ps)
  with that(2) no_duplicates show thesis by blast
qed

end

interpretation announcing: tracker_interface "MultiTracker_Announce net mt" for net mt
proof
  show "MultiTracker_Announce net mt d u l \<noteq> Inl (Panic q)" for d u l q
    by (simp add: MultiTracker_Announce_def multi_loop_collects Let_def)
  show "distinct (map addr_string ps)" if "MultiTracker_Announce net mt d u l = Inr ps" for d u l ps
    using that unique_loop_set(3)
    by (auto simp: MultiTracker_Announce_def multi_loop_collects uniquePeers_def Let_def split: if_splits option.splits)
qed

lemma requestMorePeers_once: "\<exists>ps. requestMorePeers net mt t = Inr ps \<and> distinct (map addr_string ps)"
  by (rule announcing.outcomes [of net mt "Downloaded t" "Uploaded t" "Left t"]) (auto simp: requestMorePeers_def)

lemma find_mem: "find P xs = Some x \<Longrightarrow> x \<in> set xs"
  by (induction xs) (auto split: if_splits)

lemma announce_loop_find:
  "announce_loop net seen (\<lambda>_. False) mt i n =
     (case find (\<lambda>k. \<not> isl (MultiTracker_Announce (net k) mt (Downloaded (seen k)) (Uploaded (seen k)) (Left (seen k))))
             [i..<i + n] of
        None \<Rightarrow> (Inr [], map (\<lambda>k. i64 (2 ^ k * time_second)) [i..<i + n])
      | Some k \<Rightarrow>
          (Inr (projr (MultiTracker_Announce (net k) mt (Downloaded (seen k)) (Uploaded (seen k)) (Left (seen k)))),
           map (\<lambda>k. i64 (2 ^ k * time_second)) [i..<k]))"
proof (induction n arbitrary: i)
  case (Suc n)
  have upt: "[i..<Suc (i + n)] = i # [Suc i..<Suc (i + n)]" by (simp add: upt_rec [of i])
  let ?a = "\<lambda>k. MultiTracker_Announce (net k) mt (Downloaded (seen k)) (Uploaded (seen k)) (Left (seen k))"
  show ?case
  proof (cases "?a i")
    case (Inl x)
    then obtain e where x: "x = Error e" using announcing.no_panic by (cases x) auto
    obtain r ds where l: "announce_loop net seen (\<lambda>_. False) mt (Suc i) n = (r, ds)"
      by (cases "announce_loop net seen (\<lambda>_. False) mt (Suc i) n")
    have step: "announce_loop net seen (\<lambda>_. False) mt i (Suc n) = (r, i64 (2 ^ i * time_second) # ds)"
      by (simp add: Inl x l Let_def)
    show ?thesis
    proof (cases "find (\<lambda>k. \<not> isl (?a k)) [Suc i..<Suc (i + n)]")
      case None
      with Suc [of "Suc i"] l have "r = Inr []" "ds = map (\<lambda>k. i64 (2 ^ k * time_second)) [Suc i..<Suc (i + n)]"
        by simp_all
      with None Inl step show ?thesis by (simp add: upt del: upt_Suc)
    next
      case (Some k)
      with Suc [of "Suc i"] l have r: "r = Inr (projr (?a k))" "ds = map (\<lambda>k. i64 (2 ^ k * time_second)) [Suc i..<k]"
        by simp_all
      have "k \<in> set [Suc i..<Suc (i + n)]" using Some by (rule find_mem)
      then have "i < k" by auto
      then have "[i..<k] = i # [Suc i..<k]" by (simp add: upt_rec [of i])
      with r Some Inl step show ?thesis by (simp add: upt del: upt_Suc)
    qed
  next
    case (Inr ps)
    then show ?thesis by (simp add: upt del: upt_Suc)
  qed
qed simp

section \<open>Properties\<close>

text \<open>
  C29: every peer that the DHT named is asked for the hash of the info hash. One that has the torrent, and
  says so in its handshake, is accepted only if hashing the info hash changes nothing.
\<close>

theorem dht_peers_refused:
  assumes "UseDHT True HashBytes t = Inr hash" and "InfoHash (metaInfo t) = Inr h"
    and "length (HashBytes h) = 20" and "p \<in> set (snd (dhtAnnounceAndDiscover t hash ticks))"
    and "length reserved = 8" and "length h = 20" and "length pid = 20"
  shows "snd (Connect quiet (19 # protocol_name @ reserved @ h @ pid @ rest) p) = Inr () \<longleftrightarrow> HashBytes h = h"
proof -
  have hash: "hash = HashBytes h" using assms(1,2) by (simp add: UseDHT_def dht_hash_def)
  then have "to_array 20 hash = hash" using assms(3) by simp
  with assms(4) obtain now a where p: "p = NewPeer now (addr_string a) (peerID t) hash"
    by (induction t hash ticks rule: dhtAnnounceAndDiscover.induct)
      (auto simp: discoverPeers_def split: prod.splits)
  let ?in = "19 # protocol_name @ reserved @ h @ pid @ rest"
  define q where "q = p\<lparr>Conn := Some \<lparr>incoming = ?in, outgoing = handshake_bytes p, closed = False\<rparr>\<rparr>"
  have "readHandshake quiet q = (q\<lparr>Conn := Some \<lparr>incoming = rest, outgoing = handshake_bytes p, closed = False\<rparr>\<rparr>,
      if h = hash then Inr () else Inl (Error InfoHashMismatch))"
    using readHandshake_shape [of q _ reserved h pid rest] assms(5-7) by (simp add: q_def p NewPeer_def)
  then show ?thesis
    unfolding hash [symmetric]
    by (auto simp: Connect_def Let_def SetDeadline_def sendHandshake_def Conn_Write_def q_def p NewPeer_def handshake_bytes_def)
qed

theorem dht_peers_refused_witness:
  "\<exists>h p. InfoHash one_meta = Inr h \<and> UseDHT True sha1_Sum one_torrent = Inr (sha1_Sum h)
    \<and> snd (dhtAnnounceAndDiscover one_torrent (sha1_Sum h) [DhtAnnounceTick, DhtDiscoverTick 0 [(str ''a'', 80)]]) = [p]
    \<and> (snd (Connect quiet (19 # protocol_name @ replicate 8 0 @ h @ replicate 20 5) p) = Inr () \<longleftrightarrow> sha1_Sum h = h)"
proof -
  obtain h where h: "InfoHash (metaInfo one_torrent) = Inr h"
    using InfoHash_Inr_iff [of one_meta] by (auto simp: one_meta_def one_torrent_def)
  then have l: "length h = 20" by (auto simp: InfoHash_def split: sum.splits)
  have u: "UseDHT True sha1_Sum one_torrent = Inr (sha1_Sum h)" using h by (simp add: UseDHT_def dht_hash_def)
  let ?p = "NewPeer 0 (addr_string (str ''a'', 80)) (peerID one_torrent) (to_array 20 (sha1_Sum h))"
  have d: "snd (dhtAnnounceAndDiscover one_torrent (sha1_Sum h) [DhtAnnounceTick, DhtDiscoverTick 0 [(str ''a'', 80)]]) = [?p]"
    by (simp add: discoverPeers_def)
  have "?p \<in> set (snd (dhtAnnounceAndDiscover one_torrent (sha1_Sum h) [DhtAnnounceTick, DhtDiscoverTick 0 [(str ''a'', 80)]]))"
    unfolding d by simp
  from dht_peers_refused [OF u h _ this, of "replicate 8 0" "replicate 20 5" "[]"] l
  have "snd (Connect quiet (19 # protocol_name @ replicate 8 0 @ h @ replicate 20 5) ?p) = Inr () \<longleftrightarrow> sha1_Sum h = h"
    by simp
  moreover have "metaInfo one_torrent = one_meta" by (simp add: one_torrent_def)
  ultimately show ?thesis using h u d by metis
qed

text \<open>
  Announcing is tried five times at most, after delays of 1, 2, 4, 8 and 16 seconds; the peers to
  connect to are those of the first announce that succeeds, and none if all fail.
\<close>

lemma announce_attempts:
  "announceWithRetry net seen (\<lambda>_. False) mt =
     (let outcome = (\<lambda>k. MultiTracker_Announce (net k) mt (Downloaded (seen k)) (Uploaded (seen k)) (Left (seen k))) in
      case find (\<lambda>k. \<not> isl (outcome k)) [0, 1, 2, 3, 4] of
        None \<Rightarrow> (Inr [], map (\<lambda>n. n * 10 ^ 9) [1, 2, 4, 8, 16])
      | Some k \<Rightarrow> (Inr (projr (outcome k)), map (\<lambda>n. n * 10 ^ 9) (take k [1, 2, 4, 8, 16])))"
proof -
  have five: "[0..<0 + 5] = [0, 1, 2, 3, 4 :: nat]" by (simp add: upt_rec numeral_eq_Suc)
  have d: "map (\<lambda>k. i64 (2 ^ k * time_second)) [0..<k] = map (\<lambda>n. n * 10 ^ 9) (take k [1, 2, 4, 8, 16])"
    if "k \<in> {0, 1, 2, 3, 4, 5}" for k :: nat
    using that by (auto simp: upt_rec numeral_eq_Suc times i64_def)
  define outcome where "outcome k =
    MultiTracker_Announce (net k) mt (Downloaded (seen k)) (Uploaded (seen k)) (Left (seen k))" for k
  show ?thesis
  proof (cases "find (\<lambda>k. \<not> isl (outcome k)) [0, 1, 2, 3, 4]")
    case None
    then show ?thesis
      unfolding announceWithRetry_def announce_loop_find five Let_def outcome_def [symmetric]
      using d [of 5] five by simp
  next
    case (Some k)
    then have "k \<in> set [0, 1, 2, 3, 4]" by (rule find_mem)
    then have "k \<in> {0, 1, 2, 3, 4, 5}" by auto
    from d [OF this] Some show ?thesis
      unfolding announceWithRetry_def announce_loop_find five Let_def outcome_def [symmetric] by simp
  qed
qed

text \<open>
  C28: connecting to a peer is tried five times at most, with doubling delays from one second. The result
  is a connected peer, counted as active once, or none; only when all five attempts failed is the
  peer marked as failed, from the time after the last of them on. No answer of the peer makes it panic.
\<close>

theorem connect_attempts:
  assumes "connectToPeers at now addr t = (t', r, ds)"
  shows "ds = take (length ds) (map (\<lambda>n. n * 10 ^ 9) [1, 2, 4, 8])
    \<and> (case r of
         Connected p \<Rightarrow> t' = add_active 1 t \<and> failedPeers t addr = None
       | GaveUp \<Rightarrow> t' = t \<or> t' = markFailed (now 5) addr t \<and> length ds = 4
           \<and> (\<exists>h. InfoHash (metaInfo t) = Inr h \<and> list_all (\<lambda>k. \<not> reached at now addr t h k) [0..<5])
       | Crashed q \<Rightarrow> False)"
proof -
  have "doubling time_second 4 = map (\<lambda>n. n * 10 ^ 9) [1, 2, 4, 8]"
    by (simp add: numeral_eq_Suc times i64_def)
  with connect_loop_result [OF assms [unfolded connectToPeers_def]] show ?thesis
    by (auto split: connect_result.splits)
qed

definition dead_peer :: "nat \<Rightarrow> attempt" where
  "dead_peer i = \<lparr>limiterOk = True, connectNet = (\<lambda>_. Some 0), dialledBytes = [], cancelledWait = False\<rparr>"

theorem connect_attempts_witness:
  "\<exists>ds. connectToPeers dead_peer int (str ''a'') one_torrent = (markFailed 5 (str ''a'') one_torrent, GaveUp, ds)
    \<and> ds = [10 ^ 9, 2 * 10 ^ 9, 4 * 10 ^ 9, 8 * 10 ^ 9]"
proof -
  obtain h where h: "InfoHash (metaInfo one_torrent) = Inr h"
    using InfoHash_Inr_iff [of one_meta] by (auto simp: one_torrent_def one_meta_def)
  have c: "Connect (\<lambda>_. Some 0) [] p = (p, Inl (Error (NetErr NetFailure)))" for p by (simp add: Connect_def)
  have f: "failedPeers one_torrent (str ''a'') = None" by (simp add: one_torrent_def)
  have "\<exists>ds. connectToPeers dead_peer int (str ''a'') one_torrent = (markFailed 5 (str ''a'') one_torrent, GaveUp, ds)
      \<and> length ds = 4"
    by (simp add: connectToPeers_def numeral_eq_Suc connect_attempt_def dead_peer_def h c f)
  then obtain ds where r: "connectToPeers dead_peer int (str ''a'') one_torrent =
      (markFailed 5 (str ''a'') one_torrent, GaveUp, ds)" "length ds = 4" by blast
  from connect_attempts [OF r(1)] have "ds = [10 ^ 9, 2 * 10 ^ 9, 4 * 10 ^ 9, 8 * 10 ^ 9]"
    using r(2) by simp
  with r(1) show ?thesis by blast
qed

text \<open>
  A peer marked as failed counts as failed for exactly five minutes, and the clean-up never forgets a
  peer that still counts as failed, nor changes the answer for any other.
\<close>

lemma failed_for_five_minutes:
  assumes "earlier \<le> now"
  shows "(isFailed now addr (markFailed start addr t) \<longleftrightarrow> now - start < 300 * 10 ^ 9)
    \<and> isFailed now addr (cleanupFailedPeers earlier t) = isFailed now addr t"
  using assms
  by (auto simp: isFailed_def markFailed_def cleanupFailedPeers_def times split: option.splits)

lemma failed_for_five_minutes_example:
  "isFailed (299 * 10 ^ 9) (str ''a'') (cleanupFailedPeers (200 * 10 ^ 9) (markFailed 0 (str ''a'') one_torrent))"
proof -
  have "(200 * 10 ^ 9 :: int) \<le> 299 * 10 ^ 9" by simp
  note f = failed_for_five_minutes [OF this, of "str ''a''"]
  from f [of 0 one_torrent] have "isFailed (299 * 10 ^ 9) (str ''a'') (markFailed 0 (str ''a'') one_torrent)" by simp
  with f [of 0 "markFailed 0 (str ''a'') one_torrent"] show ?thesis by simp
qed

text \<open>
  C30: the number of active peers. A peer that a tracker named is counted when its connection opens and
  uncounted when its loop ends. A peer that the DHT named is uncounted twice, by \<open>handlePeer\<close> and by
  \<open>connectAndHandlePeer\<close>: each of them leaves the number one lower than before, down to below zero.
\<close>

theorem dht_peer_uncounted_twice:
  assumes "in_i64 (ActivePeers t)"
    and "connectToPeers at now addr t = (t1, Connected p1, ds)"
    and "handlePeer env net rounds fs t1 p1 = (fs1, t1', p1', tasks1, q1)"
    and "\<not> isFailed start addr t"
    and "snd (Connect dial dialled (NewPeer born addr pid ih)) = Inr ()"
    and "connectAndHandlePeer env dial dialled start later rounds ref fs t (NewPeer born addr pid ih)
      = (fs2, t2', p2', tasks2, q2)"
  shows "ActivePeers t1' = ActivePeers t \<and> ActivePeers t2' = i64 (ActivePeers t - 1)"
proof
  from connect_loop_result [OF assms(2) [unfolded connectToPeers_def]]
  have "t1 = add_active 1 t" "sane p1" by simp_all
  with handlePeer_active [OF assms(3)] show "ActivePeers t1' = ActivePeers t"
    using in_i64_id [OF assms(1)] by (simp add: add_active_def i64_diff_left)
next
  let ?p = "NewPeer born addr pid ih"
  let ?t = "add_active 1 t\<lparr>activePeers := (activePeers t)(addr \<mapsto> ref)\<rparr>"
  obtain p1 where c: "Connect dial dialled ?p = (p1, Inr ())" using assms(5) by (cases "Connect dial dialled ?p") simp
  have "sane p1" using sane_Connect [OF sane_new, of dial dialled born addr pid ih] c by simp
  moreover obtain fs3 t3 p3 ts3 q3 where h: "handlePeer env dial rounds fs ?t p1 = (fs3, t3, p3, ts3, q3)"
    by (cases "handlePeer env dial rounds fs ?t p1") auto
  ultimately have a: "ActivePeers t3 = i64 (i64 (ActivePeers t + 1) - 1)"
    using handlePeer_active [OF h] by (simp add: add_active_def)
  have addr: "Addr ?p = addr" by (simp add: NewPeer_def)
  have "t2' = add_active (- 1) (t3\<lparr>activePeers := (activePeers t3)(addr := None)\<rparr>)"
    using assms(4,6) c h by (auto simp: connectAndHandlePeer_def addr split: prod.splits)
  then show "ActivePeers t2' = i64 (ActivePeers t - 1)"
    by (simp add: add_active_def a i64_diff_left)
qed

text \<open>A peer that answers the handshake and says nothing more.\<close>

definition greeting :: bytes where
  "greeting = 19 # protocol_name @ replicate 8 0 @ projr (InfoHash one_meta) @ replicate 20 5"

definition live_peer :: "nat \<Rightarrow> attempt" where
  "live_peer i = \<lparr>limiterOk = True, connectNet = quiet, dialledBytes = greeting, cancelledWait = False\<rparr>"

lemma greeting_accepted:
  "\<exists>p. Connect quiet greeting (NewPeer 0 (str ''a'') [] (projr (InfoHash one_meta))) = (p, Inr ())"
proof -
  obtain h where h: "InfoHash one_meta = Inr h" using InfoHash_Inr_iff [of one_meta] by (auto simp: one_meta_def)
  then have "length h = 20" by (auto simp: InfoHash_def split: sum.splits)
  from Connect_greeted [OF this, of "[]"] h show ?thesis by (simp add: greeting_def)
qed

theorem dht_peer_uncounted_twice_witness:
  "\<exists>t' p' ts q. connectAndHandlePeer healthy quiet greeting 0 0 [] 0 one_file one_torrent
      (NewPeer 0 (str ''a'') [] (projr (InfoHash one_meta))) = (one_file, t', p', ts, q) \<and> ActivePeers t' = - 1"
proof -
  let ?ih = "projr (InfoHash one_meta)"
  obtain h where h: "InfoHash one_meta = Inr h" using InfoHash_Inr_iff [of one_meta] by (auto simp: one_meta_def)
  obtain p where c: "Connect quiet greeting (NewPeer 0 (str ''a'') [] ?ih) = (p, Inr ())"
    using greeting_accepted by blast
  have 1: "connectToPeers live_peer int (str ''a'') one_torrent = (add_active 1 one_torrent, Connected p, [])"
  proof -
    have five: "(5 :: nat) = Suc 4" by simp
    have "limiterOk (live_peer 0)" "connectNet (live_peer 0) = quiet" "dialledBytes (live_peer 0) = greeting"
      "failedPeers one_torrent (str ''a'') = None" "metaInfo one_torrent = one_meta" "peerID one_torrent = []"
      by (simp_all add: live_peer_def one_torrent_def)
    with c h show ?thesis unfolding connectToPeers_def five connect_loop.simps by (simp add: connect_attempt_def)
  qed
  obtain fs1 t1 p1 ts1 q1 where 2: "handlePeer healthy quiet [] one_file (add_active 1 one_torrent) p = (fs1, t1, p1, ts1, q1)"
    by (cases "handlePeer healthy quiet [] one_file (add_active 1 one_torrent) p") auto
  obtain fs2 t2 p2 ts2 q2 where 3: "connectAndHandlePeer healthy quiet greeting 0 0 [] 0 one_file one_torrent
      (NewPeer 0 (str ''a'') [] ?ih) = (fs2, t2, p2, ts2, q2)"
    by (cases "connectAndHandlePeer healthy quiet greeting 0 0 [] 0 one_file one_torrent (NewPeer 0 (str ''a'') [] ?ih)") auto
  have "fs2 = one_file"
    using 3 c by (auto simp: connectAndHandlePeer_def handlePeer_def split: if_splits prod.splits option.splits)
  moreover have "ActivePeers t2 = - 1"
    using dht_peer_uncounted_twice [OF _ 1 2 _ _ 3] c
    by (simp add: in_i64_def isFailed_def i64_def one_torrent_def)
  ultimately show ?thesis using 3 by blast
qed

end
