(* ===== verification/LogUtil.thy ===== *)
theory LogUtil
  imports Sha1
begin

text \<open>
  \<open>pkg/logger\<close> and \<open>internal/util\<close>: the log levels and which messages are printed, and the small helper
  functions. What is printed is the list of the lines with the name of their logger.
\<close>

section \<open>The logger\<close>

definition LevelDebug :: int where "LevelDebug = 0"
definition LevelInfo :: int where "LevelInfo = 1"
definition LevelWarn :: int where "LevelWarn = 2"
definition LevelError :: int where "LevelError = 3"

lemmas levels = LevelDebug_def LevelInfo_def LevelWarn_def LevelError_def

datatype log_name = debugLogger | infoLogger | warnLogger | errorLogger

record log_state =
  currentLevel :: int
  printed :: "(log_name \<times> bytes) list"

definition initial_log :: log_state where
  "initial_log = \<lparr>currentLevel = LevelDebug, printed = []\<rparr>"

definition SetLevel :: "int \<Rightarrow> log_state \<Rightarrow> log_state" where
  "SetLevel level s = s\<lparr>currentLevel := level\<rparr>"

definition log_at :: "int \<Rightarrow> log_name \<Rightarrow> bytes \<Rightarrow> log_state \<Rightarrow> log_state" where
  "log_at level name line s =
     (if currentLevel s \<le> level then s\<lparr>printed := printed s @ [(name, line)]\<rparr> else s)"

definition log_Debug :: "bytes \<Rightarrow> log_state \<Rightarrow> log_state" where "log_Debug = log_at LevelDebug debugLogger"
definition log_Info :: "bytes \<Rightarrow> log_state \<Rightarrow> log_state" where "log_Info = log_at LevelInfo infoLogger"
definition log_Warn :: "bytes \<Rightarrow> log_state \<Rightarrow> log_state" where "log_Warn = log_at LevelWarn warnLogger"
definition log_Error :: "bytes \<Rightarrow> log_state \<Rightarrow> log_state" where "log_Error = log_at LevelError errorLogger"

section \<open>Helpers\<close>

definition util_Min :: "int \<Rightarrow> int \<Rightarrow> int" where "util_Min a b = (if a < b then a else b)"
definition util_Max :: "int \<Rightarrow> int \<Rightarrow> int" where "util_Max a b = (if a > b then a else b)"

definition HashInfoDict :: "bytes \<Rightarrow> bytes" where "HashInfoDict info = sha1_Sum info"

text \<open>
  \<open>RandomDuration\<close>: \<open>rand.Int63n\<close> panics unless its argument is positive, and otherwise returns a number
  below it, here \<open>choice\<close> reduced. Durations are 64-bit numbers.
\<close>

definition Int63n :: "nat \<Rightarrow> int \<Rightarrow> ('e, int) go" where
  "Int63n choice n = (if n \<le> 0 then Inl (Panic InvalidArgument) else Inr (int choice mod n))"

definition RandomDuration :: "nat \<Rightarrow> int \<Rightarrow> int \<Rightarrow> ('e, int) go" where
  "RandomDuration choice lo hi =
     (case Int63n choice (i64 (hi - lo)) of Inl e \<Rightarrow> Inl e | Inr r \<Rightarrow> Inr (i64 (lo + r)))"

definition util_GeneratePeerID :: "random \<Rightarrow> bytes \<times> random" where
  "util_GeneratePeerID src = rand_Read 20 src"

section \<open>Properties\<close>

text \<open>
  For two durations that are not negative, \<open>RandomDuration\<close> panics exactly if the second is not the
  greater one, and otherwise returns a duration from the first up to the second, for every random number.
\<close>

lemma random_duration_bounds:
  assumes "0 \<le> lo" and "in_i64 lo" and "0 \<le> hi" and "in_i64 hi"
  shows "case RandomDuration choice lo hi of
      Inr d \<Rightarrow> lo \<le> d \<and> d < hi
    | Inl e \<Rightarrow> e = Panic InvalidArgument \<and> hi \<le> lo"
proof (cases "lo < hi")
  case True
  have d: "i64 (hi - lo) = hi - lo" using assms by (intro i64_id) (auto simp: in_i64_def)
  have r: "0 \<le> int choice mod (hi - lo)" "int choice mod (hi - lo) < hi - lo" using True by simp_all
  then have "i64 (lo + int choice mod (hi - lo)) = lo + int choice mod (hi - lo)"
    using assms by (intro i64_id) (auto simp: in_i64_def)
  moreover have "lo + int choice mod (hi - lo) < hi" using r(2) by linarith
  ultimately show ?thesis using d True by (simp add: RandomDuration_def Int63n_def)
next
  case False
  then have "i64 (hi - lo) \<le> 0" using assms by (subst i64_id) (auto simp: in_i64_def)
  with False show ?thesis by (simp add: RandomDuration_def Int63n_def)
qed

lemma random_duration_bounds_example:
  "case RandomDuration 12345 10 20 of Inr d \<Rightarrow> 10 \<le> d \<and> d < 20 | Inl (e :: unit fault) \<Rightarrow> False"
proof -
  have "case RandomDuration 12345 10 20 of Inr d \<Rightarrow> 10 \<le> d \<and> d < 20
      | Inl (e :: unit fault) \<Rightarrow> e = Panic InvalidArgument \<and> (20 :: int) \<le> 10"
    by (rule random_duration_bounds) (simp_all add: in_i64_def)
  then show ?thesis by (simp split: sum.splits)
qed

end
