(* ===== verification/Magnet.thy ===== *)
theory Magnet
  imports Url Download
begin

text \<open>
  Magnet links of \<open>internal/torrent/torrent.go\<close>: reading one, and the torrent it stands for until the
  real one is known (which this program never asks for).
\<close>

section \<open>Reading a link\<close>

record magnet_info =
  MInfoHash :: bytes
  DisplayName :: bytes
  MTrackers :: "bytes list"

datatype magnet_error = UrlParse | HexInfoHash hex_error | EscapedName

definition TrimPrefix :: "bytes \<Rightarrow> bytes \<Rightarrow> bytes" where
  "TrimPrefix s pre = (if take (length pre) s = pre then drop (length pre) s else s)"

text \<open>
  \<open>parse\<close> is \<open>url.Parse\<close>. The info hash is copied into an array of 20 bytes, whatever its length; the
  name is unescaped once more after \<open>Query\<close> has done so.
\<close>

definition ParseMagnetLink :: "(bytes \<Rightarrow> url option) \<Rightarrow> bytes \<Rightarrow> magnet_error + magnet_info" where
  "ParseMagnetLink parse magnet =
     (case parse magnet of
        None \<Rightarrow> Inl UrlParse
      | Some u \<Rightarrow>
          let params = Query u in
          (case hex_decode (TrimPrefix (Values_Get params (str ''xt'')) (str ''urn:btih:'')) of
             Inl e \<Rightarrow> Inl (HexInfoHash e)
           | Inr infoHash \<Rightarrow>
               (case QueryUnescape (Values_Get params (str ''dn'')) of
                  None \<Rightarrow> Inl EscapedName
                | Some displayName \<Rightarrow>
                    Inr \<lparr>MInfoHash = to_array 20 infoHash, DisplayName = displayName,
                         MTrackers = Values_All params (str ''tr'')\<rparr>)))"

definition ConvertToMetaInfo :: "magnet_info \<Rightarrow> meta_info" where
  "ConvertToMetaInfo m =
     \<lparr>Announce = (case MTrackers m of [] \<Rightarrow> [] | t # ts \<Rightarrow> t),
      Info = \<lparr>PieceLength = 256 * 1024, Pieces = MInfoHash m, Name = DisplayName m, Length = 0, Files = []\<rparr>\<rparr>"

section \<open>Hexadecimal info hashes\<close>

definition hex_encode :: "bytes \<Rightarrow> bytes" where
  "hex_encode bs = concat (map (\<lambda>b. [upper_hex (unat b div 16), upper_hex (unat b mod 16)]) bs)"

lemma hex_decode_encode: "hex_decode (hex_encode bs) = Inr bs"
proof (induction bs)
  case (Cons b bs)
  have "unat b div 16 < 16" using byte_less [of b] by (simp add: less_mult_imp_div_less)
  then have "hex_val (upper_hex (unat b div 16)) = Some (unat b div 16)"
    and "hex_val (upper_hex (unat b mod 16)) = Some (unat b mod 16)"
    by (simp_all add: hex_val_upper)
  moreover have "(of_nat (16 * (unat b div 16) + unat b mod 16) :: byte) = b"
    by (simp only: mult_div_mod_eq word_of_nat_eq_iff unsigned_of_nat of_nat_unat ucast_id)
  ultimately show ?case using Cons by (simp add: hex_encode_def)
qed (simp add: hex_encode_def)

lemma TrimPrefix_append: "TrimPrefix (p @ s) p = s"
  by (simp add: TrimPrefix_def)

lemma ParseMagnetLink_length: "ParseMagnetLink parse link = Inr mi \<Longrightarrow> length (MInfoHash mi) = 20"
  by (auto simp: ParseMagnetLink_def Let_def split: option.splits sum.splits)

text \<open>
  A setting of a query as it is written, and the key and the value it stands for: any bytes may be written
  as themselves or as a percent sign with two digits in either case, a space also as a plus sign.
\<close>

definition spells :: "bytes \<times> bytes \<Rightarrow> bytes \<times> bytes \<Rightarrow> bool" where
  "spells raw setting \<longleftrightarrow>
     61 \<notin> set (fst raw) \<and> set (fst raw) \<inter> {38, 59} = {} \<and> set (snd raw) \<inter> {38, 59} = {}
     \<and> QueryUnescape (fst raw) = Some (fst setting) \<and> QueryUnescape (snd raw) = Some (snd setting)"

definition written :: "(bytes \<times> bytes) list \<Rightarrow> bytes" where
  "written raws = join_settings (map (\<lambda>raw. fst raw @ 61 # snd raw) raws)"

definition under :: "bytes \<Rightarrow> (bytes \<times> bytes) list \<Rightarrow> bytes list" where
  "under k query = map snd (filter (\<lambda>s. fst s = k) query)"

lemma add_setting_spelled:
  assumes "spells raw setting"
  shows "add_setting m (fst raw @ 61 # snd raw) = Values_Add (fst setting) (snd setting) m"
proof -
  have "cut 61 (fst raw @ 61 # snd raw) = (fst raw, snd raw)"
    using assms by (simp add: cut_def spells_def)
  then show ?thesis
    using assms unfolding add_setting_def by (cases raw) (auto simp: spells_def)
qed

lemma foldl_add_setting:
  "list_all2 spells raws query \<Longrightarrow>
     foldl add_setting m (map (\<lambda>raw. fst raw @ 61 # snd raw) raws) =
     foldl (\<lambda>m (k, v). Values_Add k v m) m query"
  by (induction raws query arbitrary: m rule: list_all2_induct) (simp_all add: add_setting_spelled case_prod_unfold)

lemma ParseQuery_written:
  assumes "list_all2 spells raws query"
  shows "Values_All (ParseQuery (written raws)) k = under k query"
proof (cases "raws = []")
  case True
  with assms show ?thesis
    by (simp add: written_def ParseQuery_def add_setting_def Values_All_def under_def)
next
  case False
  have "38 \<notin> set w" if "w \<in> set (map (\<lambda>raw. fst raw @ 61 # snd raw) raws)" for w
  proof -
    from that obtain raw where "raw \<in> set raws" and w: "w = fst raw @ 61 # snd raw" by auto
    then obtain setting where "spells raw setting" using assms by (metis list_all2_conv_all_nth in_set_conv_nth)
    then show ?thesis by (auto simp: w spells_def)
  qed
  then have "split_on 38 (written raws) = map (\<lambda>raw. fst raw @ 61 # snd raw) raws"
    unfolding written_def using False by (intro split_on_join) auto
  then show ?thesis
    using Values_All_foldl [of "[]" query k] foldl_add_setting [OF assms]
    by (simp add: ParseQuery_def Values_All_def under_def)
qed

lemma ParseMagnetLink_written:
  assumes "parse link = Some u" and "RawQuery u = written raws" and "list_all2 spells raws query"
    and "under (str ''xt'') query = (str ''urn:btih:'' @ hex) # others" and "hex_decode hex = Inr h" and "length h = 20"
  shows "ParseMagnetLink parse link =
    (case QueryUnescape (case under (str ''dn'') query of [] \<Rightarrow> [] | name # names \<Rightarrow> name) of
       None \<Rightarrow> Inl EscapedName
     | Some s \<Rightarrow> Inr \<lparr>MInfoHash = h, DisplayName = s, MTrackers = under (str ''tr'') query\<rparr>)"
proof -
  have all: "Values_All (Query u) k = under k query" for k
    unfolding Query_def assms(2) by (rule ParseQuery_written [OF assms(3)])
  have "Values_Get m k = (case Values_All m k of [] \<Rightarrow> [] | v # vs \<Rightarrow> v)" for m k
    by (auto simp: Values_Get_def Values_All_def split: option.splits list.splits)
  then have get: "Values_Get (Query u) k = (case under k query of [] \<Rightarrow> [] | v # vs \<Rightarrow> v)" for k
    by (simp add: all)
  show ?thesis
    using assms(1,4-6) by (simp add: ParseMagnetLink_def Let_def get all TrimPrefix_append split: option.splits)
qed

text \<open>A link as the README shows it: a hash in lower case, a name with a plus sign, and a key nobody reads.\<close>

definition demo_raws :: "bytes \<Rightarrow> (bytes \<times> bytes) list" where
  "demo_raws name =
     [(str ''dn'', name), (str ''xt'', str ''urn:btih:0707070707070707070707070707070707070a0A''), (str ''x.pe'', str ''h:1''),
      (str ''tr'', str ''udp://t:80''), (str ''tr'', str ''http%3a%2F%2Ft'')]"

definition demo_query :: "bytes \<Rightarrow> (bytes \<times> bytes) list" where
  "demo_query name =
     [(str ''dn'', name), (str ''xt'', str ''urn:btih:0707070707070707070707070707070707070a0A''), (str ''x.pe'', str ''h:1''),
      (str ''tr'', str ''udp://t:80''), (str ''tr'', str ''http://t'')]"

definition demo_parse :: "bytes \<Rightarrow> bytes \<Rightarrow> url option" where
  "demo_parse name link = Some \<lparr>Scheme = str ''magnet'', Host = [], RawQuery = written (demo_raws name)\<rparr>"

lemma demo_spells:
  assumes "QueryUnescape raw = Some name" and "set raw \<inter> {38, 59} = {}"
  shows "list_all2 spells (demo_raws raw) (demo_query name)"
  using assms by (simp add: demo_raws_def demo_query_def spells_def) (simp add: str_def asc_def hex_pair_def hex_val_def)

lemma demo_under:
  "under (str ''dn'') (demo_query name) = [name]"
  "under (str ''xt'') (demo_query name) = [str ''urn:btih:'' @ str ''0707070707070707070707070707070707070a0A'']"
  "under (str ''tr'') (demo_query name) = [str ''udp://t:80'', str ''http://t'']"
proof -
  have "str ''dn'' \<noteq> str ''xt''" "str ''dn'' \<noteq> str ''tr''" "str ''xt'' \<noteq> str ''tr''"
    "str ''x.pe'' \<noteq> str ''dn''" "str ''x.pe'' \<noteq> str ''xt''" "str ''x.pe'' \<noteq> str ''tr''"
    by (simp_all add: str_def asc_def)
  then have "distinct [str ''dn'', str ''xt'', str ''tr'', str ''x.pe'']" by auto
  moreover have "str ''urn:btih:'' @ str ''0707070707070707070707070707070707070a0A'' =
      str ''urn:btih:0707070707070707070707070707070707070a0A''" by (simp add: str_def)
  ultimately show "under (str ''dn'') (demo_query name) = [name]"
    "under (str ''xt'') (demo_query name) = [str ''urn:btih:'' @ str ''0707070707070707070707070707070707070a0A'']"
    "under (str ''tr'') (demo_query name) = [str ''udp://t:80'', str ''http://t'']"
    by (auto simp: under_def demo_query_def)
qed

definition demo_id :: bytes where
  "demo_id = [7, 7, 7, 7, 7, 7, 7, 7, 7, 7, 7, 7, 7, 7, 7, 7, 7, 7, 10, 10]"

lemma demo_hash: "hex_decode (str ''0707070707070707070707070707070707070a0A'') = Inr (demo_id)"
  by (simp add: demo_id_def str_def asc_def hex_val_def)

lemma demo_parse_reads:
  assumes "QueryUnescape raw = Some name" and "set raw \<inter> {38, 59} = {}"
  shows "ParseMagnetLink (demo_parse raw) link =
     (case QueryUnescape name of
        None \<Rightarrow> Inl EscapedName
      | Some s \<Rightarrow> Inr \<lparr>MInfoHash = demo_id, DisplayName = s,
                       MTrackers = [str ''udp://t:80'', str ''http://t'']\<rparr>)"
  using ParseMagnetLink_written [where parse = "demo_parse raw" and link = link,
    OF demo_parse_def _ demo_spells [OF assms] demo_under(2) demo_hash]
  by (simp add: demo_under demo_id_def split: option.splits)

section \<open>The torrent of a link\<close>

lemma magnet_meta:
  assumes "length (MInfoHash mi) = 20"
  shows "NumPieces (ConvertToMetaInfo mi) = 1" and "TotalLength (ConvertToMetaInfo mi) = 0"
    and "PieceHash (ConvertToMetaInfo mi) 0 = Inr (MInfoHash mi)"
    and "calculatePieceLength (ConvertToMetaInfo mi) 0 = 0"
    and "PieceLength (Info (ConvertToMetaInfo mi)) = 262144"
proof -
  show n: "NumPieces (ConvertToMetaInfo mi) = 1"
    using assms by (simp add: NumPieces_div) (simp add: ConvertToMetaInfo_def)
  show t: "TotalLength (ConvertToMetaInfo mi) = 0"
    by (simp add: TotalLength_def ConvertToMetaInfo_def)
  show "PieceHash (ConvertToMetaInfo mi) 0 = Inr (MInfoHash mi)"
    using n assms by (simp add: PieceHash_def Let_def) (simp add: ConvertToMetaInfo_def)
  show "calculatePieceLength (ConvertToMetaInfo mi) 0 = 0"
    using n t by (simp add: calculatePieceLength_def)
  show "PieceLength (Info (ConvertToMetaInfo mi)) = 262144"
    by (simp add: ConvertToMetaInfo_def)
qed

definition magnet_torrent :: "bytes \<Rightarrow> int \<Rightarrow> magnet_info \<Rightarrow> torrent" where
  "magnet_torrent pid now mi =
     \<lparr>metaInfo = ConvertToMetaInfo mi, peerID = pid,
      TPieces = [\<lparr>Index = 0, Hash = MInfoHash mi, PLength = 0, PData = [], PDownloaded = False\<rparr>],
      Downloaded = 0, Uploaded = 0, Left = 0, ActivePeers = 0, failedPeers = Map.empty,
      fileManager = None, startTime = now, progressClosed = False, PieceSize = 262144,
      activePeers = Map.empty\<rparr>"

lemma NewTorrent_magnet:
  assumes "length (MInfoHash mi) = 20"
  shows "NewTorrent pid now (ConvertToMetaInfo mi) = Inr (magnet_torrent pid now mi)"
proof -
  obtain h where "InfoHash (ConvertToMetaInfo mi) = Inr h"
    using InfoHash_Inr_iff [of "ConvertToMetaInfo mi"] by (auto simp: ConvertToMetaInfo_def)
  then show ?thesis
    by (simp add: NewTorrent_def magnet_meta [OF assms] magnet_torrent_def)
qed

text \<open>The dictionary whose hash such a torrent announces.\<close>

definition magnet_info_bval :: "magnet_info \<Rightarrow> bval" where
  "magnet_info_bval mi = BDict
     [(str ''piece length'', BInt 262144), (str ''pieces'', BString (MInfoHash mi)),
      (str ''name'', BString (DisplayName mi)), (str ''files'', BList [])]"

lemma InfoHash_magnet:
  "InfoHash (ConvertToMetaInfo mi) = Inr (sha1_Sum (benc (magnet_info_bval mi)))"
proof -
  have "infoDict (ConvertToMetaInfo mi) = go_of (magnet_info_bval mi)"
    by (simp add: infoDict_def ConvertToMetaInfo_def magnet_info_bval_def)
  then have "Encode (infoDict (ConvertToMetaInfo mi)) = Inr (benc (magnet_info_bval mi))"
    by (simp add: Encode_def encodeValue_go_of) (simp add: magnet_info_bval_def)
  then show ?thesis by (simp add: InfoHash_def)
qed

section \<open>Properties\<close>

text \<open>
  C39: reading a magnet link whose query consists of settings \<open>key=value\<close>, in any order and with any other
  keys among them, written in any of the spellings of a query. If the first \<open>xt\<close> is \<open>urn:btih:\<close> and 40 hexadecimal
  digits in either case, the info hash and all the trackers come out. The name is unescaped twice: a
  name with a percent sign in it is refused or altered.
\<close>

theorem magnet_link_read:
  assumes "parse link = Some u" and "RawQuery u = written raws" and "list_all2 spells raws query"
    and "under (str ''xt'') query = (str ''urn:btih:'' @ hex) # others" and "hex_decode hex = Inr h" and "length h = 20"
  shows "ParseMagnetLink parse link =
    (case QueryUnescape (case under (str ''dn'') query of [] \<Rightarrow> [] | name # names \<Rightarrow> name) of
       None \<Rightarrow> Inl EscapedName
     | Some s \<Rightarrow> Inr \<lparr>MInfoHash = h, DisplayName = s, MTrackers = under (str ''tr'') query\<rparr>)"
  using assms by (rule ParseMagnetLink_written)

theorem magnet_link_read_witness:
  "ParseMagnetLink (demo_parse (str ''Ubuntu+ISO'')) [] =
     Inr \<lparr>MInfoHash = demo_id, DisplayName = str ''Ubuntu ISO'',
          MTrackers = [str ''udp://t:80'', str ''http://t'']\<rparr>
   \<and> ParseMagnetLink (demo_parse (str ''100%25'')) [] = Inl EscapedName"
proof
  have n: "QueryUnescape (str ''Ubuntu+ISO'') = Some (str ''Ubuntu ISO'')" "set (str ''Ubuntu+ISO'') \<inter> {38, 59} = {}"
    and "QueryUnescape (str ''Ubuntu ISO'') = Some (str ''Ubuntu ISO'')" by (simp_all add: str_def asc_def)
  with magnet_link_read [where parse = "demo_parse (str ''Ubuntu+ISO'')" and link = "[]",
    OF demo_parse_def _ demo_spells [OF n] demo_under(2) demo_hash]
  show "ParseMagnetLink (demo_parse (str ''Ubuntu+ISO'')) [] =
     Inr \<lparr>MInfoHash = demo_id, DisplayName = str ''Ubuntu ISO'',
          MTrackers = [str ''udp://t:80'', str ''http://t'']\<rparr>"
    by (simp add: demo_under demo_id_def)
  have p: "QueryUnescape (str ''100%25'') = Some (str ''100%'')" "set (str ''100%25'') \<inter> {38, 59} = {}"
    and "QueryUnescape (str ''100%'') = None" by (simp_all add: str_def asc_def hex_pair_def hex_val_def)
  with magnet_link_read [where parse = "demo_parse (str ''100%25'')" and link = "[]",
    OF demo_parse_def _ demo_spells [OF p] demo_under(2) demo_hash]
  show "ParseMagnetLink (demo_parse (str ''100%25'')) [] = Inl EscapedName" by (simp add: demo_under demo_id_def)
qed

text \<open>
  The torrent made from a magnet link cannot download what the link names. It announces the hash of a
  dictionary of its own making, not the link's info hash; that info hash stands in for the hash of its
  only piece, whose length is zero; and the download completes, whatever peers and disk do, only if the
  info hash is the SHA-1 of no bytes.
\<close>

lemma magnet_never_downloads:
  assumes "ParseMagnetLink parse link = Inr mi"
  shows "InfoHash (ConvertToMetaInfo mi) = Inr (sha1_Sum (benc (magnet_info_bval mi)))
    \<and> NewTorrent pid now (ConvertToMetaInfo mi) = Inr (magnet_torrent pid now mi)
    \<and> (reaches env anything (fs, (magnet_torrent pid now mi)\<lparr>fileManager := Some fm\<rparr>) (fs', t')
        \<and> isComplete t' \<longrightarrow> MInfoHash mi = sha1_Sum [])"
proof -
  note m = magnet_meta [OF ParseMagnetLink_length [OF assms]]
  note new = NewTorrent_magnet [OF ParseMagnetLink_length [OF assms]]
  have "MInfoHash mi = sha1_Sum []"
    if "reaches env anything (fs, (magnet_torrent pid now mi)\<lparr>fileManager := Some fm\<rparr>) (fs', t')" "isComplete t'"
    using last_piece_empty [OF new _ that] m by simp
  then show ?thesis using new InfoHash_magnet by blast
qed

lemma magnet_never_downloads_example:
  "\<exists>mi. ParseMagnetLink (demo_parse (str ''x'')) [] = Inr mi
     \<and> NewTorrent [] 0 (ConvertToMetaInfo mi) = Inr (magnet_torrent [] 0 mi)"
proof -
  have "QueryUnescape (str ''x'') = Some (str ''x'')" "set (str ''x'') \<inter> {38, 59} = {}" by (simp_all add: str_def asc_def)
  then obtain mi where "ParseMagnetLink (demo_parse (str ''x'')) [] = Inr mi"
    by (simp add: demo_parse_reads [where name = "str ''x''"])
  with magnet_never_downloads [OF this] show ?thesis by blast
qed

end
