(* ===== verification/PeerLoop_Correct.thy ===== *)
theory PeerLoop_Correct
  imports PeerLoop Download Peer_Correct
begin

text \<open>
  Which messages of a peer can bring the client down, that requesting a piece ends and what it asks for,
  and that a piece gets from one client to another whole.
\<close>

section \<open>Payloads\<close>

lemma NewRequestMessage_shape:
  "NewRequestMessage i b n = put_uint32 i @ put_uint32 b @ put_uint32 n"
proof -
  have r: "replicate 12 (0 :: byte) = replicate 4 0 @ replicate 4 0 @ replicate 4 0" by (simp add: numeral_eq_Suc)
  show ?thesis unfolding NewRequestMessage_def r by (simp add: copy_at_def)
qed

lemma NewPieceMessage_shape:
  "NewPieceMessage i b d = put_uint32 i @ put_uint32 b @ d"
proof -
  have r: "replicate (8 + length d) (0 :: byte) = replicate 4 0 @ replicate 4 0 @ replicate (length d) 0"
    by (simp add: numeral_eq_Suc)
  show ?thesis unfolding NewPieceMessage_def r by (simp add: copy_at_def)
qed

lemma message_uint32_cases: "4 \<le> length bs \<Longrightarrow> \<exists>v. message_uint32 bs = Inr v"
  by (auto simp: get_uint32_def numeral_eq_Suc Suc_le_length_iff)

lemma message_uint32_short: "length bs < 4 \<Longrightarrow> message_uint32 bs = Inl (Panic IndexOutOfRange)"
  by (simp add: get_uint32_panics)

lemma handle_request:
  "handle_message env fs t p MsgRequest (NewRequestMessage i b n) = (fs, t, p, [HandlePieceRequest i b n], None)"
  by (simp add: handle_message_def msg_types NewRequestMessage_shape)

lemma handle_piece:
  assumes "unat i < length (TPieces t)" and "processPiece env fs t (unat i) (uint b) d = (fs', t', r)"
    and "\<And>q. r \<noteq> Inl (Panic q)"
  shows "handle_message env fs t p MsgPiece (NewPieceMessage i b d) = (fs', t', p, [], None)"
  using assms(1,2) assms(3)
  by (cases r rule: sum.exhaust [case_product fault.exhaust])
    (auto simp: handle_message_def msg_types NewPieceMessage_shape split: sum.splits fault.splits)

section \<open>Panics\<close>

lemma processPiece_no_panic:
  assumes "layout fs t fm" and "i < length (TPieces t)" and "0 \<le> begin" and "begin < 2 ^ 32"
    and "int (length (disk fs fm)) < 2 ^ 62"
    and p: "processPiece healthy fs t i begin data = (fs', t', r)"
  shows "r \<noteq> Inl (Panic q)"
proof (cases "PDownloaded (TPieces t ! i)")
  case True
  then show ?thesis using p assms(2) by (auto simp: processPiece_def)
next
  case False
  from assms(1) have fm: "fileManager t = Some fm" and al: "allocated fs fm" and ps: "0 \<le> pieceSize fm"
    by (auto simp: layout_def allocated_def)
  have "int i * pieceSize fm + PLength (TPieces t ! i) \<le> int (length (disk fs fm))" and "0 \<le> PLength (TPieces t ! i)"
    using assms(1,2) by (auto simp: layout_def)
  moreover have "0 \<le> int i * pieceSize fm" using ps by simp
  ultimately have "addr_ok fm (int i, begin)"
    using assms(3-5) by (auto simp: addr_ok_def in_i64_def)
  from WritePiece_flat [OF al this, of data] obtain fs1 where
      w: "WritePiece healthy fs fm (int i) begin data = (fs1, Inr ())" and al1: "allocated fs1 fm"
      and d1: "disk fs1 fm = copy_at (addr_pos fm (int i, begin)) data (disk fs fm)" by metis
  let ?t1 = "count_bytes (int (length data)) t"
  have "layout fs1 ?t1 fm"
    by (rule layout_frame [OF assms(1) _ al1]) (simp_all add: d1 length_copy_at_any)
  from verifyPiece_layout [OF this, of i] have "snd (verifyPiece healthy fs1 ?t1 i) \<noteq> Inl (Panic q)" for q
    using assms(2) by (simp split: if_splits)
  with False assms(2) p show ?thesis
    by (auto simp: processPiece_def fm w Let_def split: if_splits prod.splits sum.splits fault.splits)
qed

lemma NewBitfield_defined: "length pl < 2 ^ 32 \<Longrightarrow> \<exists>bf. message_bitfield (i64 (int (length pl) * 8)) = Inr bf"
  by (simp add: NewBitfield_def i64_id Let_def signed_divide_int_def)

text \<open>
  Sending panics only where the length of the frame, a 32-bit number, wraps around to less than the five
  bytes of its head.
\<close>

lemma frame_bytes_panics:
  "(\<exists>q. frame_bytes ty payload = Inl (Panic q)) \<longleftrightarrow> (length payload + 5) mod 2 ^ 32 < 5"
proof -
  have "unat (4 + of_nat (length payload + 1) :: 32 word) = unat (of_nat (length payload + 5) :: 32 word)"
    by (simp add: add.commute)
  also have "\<dots> = (length payload + 5) mod 2 ^ 32" by (simp add: unsigned_of_nat take_bit_eq_mod del: of_nat_add)
  finally show ?thesis by (simp add: frame_bytes_def Let_def del: of_nat_add)
qed

lemma SendMessage_panics:
  assumes "Conn p \<noteq> None" and "ty \<noteq> MsgKeepAlive"
  shows "(\<exists>p' q. SendMessage env p ty payload = (p', Inl (Panic q))) \<longleftrightarrow> (length payload + 5) mod 2 ^ 32 < 5"
proof -
  have "(\<exists>p' q. SendMessage env p ty payload = (p', Inl (Panic q))) \<longleftrightarrow>
      (\<exists>q. (frame_bytes ty payload :: (peer_error, bytes) go) = Inl (Panic q))"
    using assms by (auto simp: SendMessage_def split: sum.splits option.splits prod.splits)
  then show ?thesis by (simp only: frame_bytes_panics)
qed

lemma SendMessage_conn: "SendMessage env p ty payload = (p', r) \<Longrightarrow> Conn p \<noteq> None \<Longrightarrow> Conn p' \<noteq> None"
  by (auto simp: SendMessage_def split: if_splits sum.splits option.splits prod.splits)

lemma request_loop_result:
  assumes "request_loop env i n len b p = Some x"
  shows "Conn p \<noteq> None \<longrightarrow> snd x \<noteq> Inl (Panic q)"
proof (rule request_loop.raw_induct
    [where P = "\<lambda>env i n len b p x. Conn p \<noteq> None \<longrightarrow> snd x \<noteq> Inl (Panic q)", OF _ assms], rule impI)
  fix loop env i n len b p y
  let ?m = "NewRequestMessage (of_nat i) (of_int b) (of_int (min_int64 n (i64 (len - b))))"
  assume IH: "\<And>env i n len b p y. loop env i n len b p = Some y \<Longrightarrow> Conn p \<noteq> None \<longrightarrow> snd y \<noteq> Inl (Panic q)"
    and y: "(if b < len then case SendMessage env p MsgRequest ?m of
        (p', Inl e) \<Rightarrow> Some (p', Inl e) | (p', Inr x) \<Rightarrow> loop env i n len (i64 (b + n)) p'
      else Some (p, Inr ())) = Some y"
    and c: "Conn p \<noteq> None"
  obtain p1 r where s: "SendMessage env p MsgRequest ?m = (p1, r)" by (cases "SendMessage env p MsgRequest ?m")
  have "r \<noteq> Inl (Panic q)"
    using SendMessage_panics [OF c, of MsgRequest env ?m] s
    by (auto simp: msg_types MsgKeepAlive_def NewRequestMessage_shape)
  moreover have "y = (p1, r) \<or> loop env i n len (i64 (b + n)) p1 = Some y \<or> y = (p, Inr ())"
    using y [unfolded s] by (cases r) (auto split: if_splits)
  ultimately show "snd y \<noteq> Inl (Panic q)"
    using IH [of env i n len "i64 (b + n)" p1 y] SendMessage_conn [OF s c] by auto
qed

section \<open>Goroutines\<close>

text \<open>
  Whether a goroutine that a message started panics when it runs, with the files, the torrent and the peer
  of that moment; and the goroutines a message starts, those of \<open>requestPieces\<close> included.
\<close>

fun task_panics :: "os_env \<Rightarrow> net_env \<Rightarrow> fsys \<Rightarrow> torrent \<Rightarrow> peer \<Rightarrow> task \<Rightarrow> bool" where
  "task_panics env net fs t p RequestPieces = False"
| "task_panics env net fs t p (RequestPiece i) =
     (case requestPiece net t i p of Some (p', Inl (Panic q)) \<Rightarrow> True | _ \<Rightarrow> False)"
| "task_panics env net fs t p (HandlePieceRequest i b n) = (snd (handlePieceRequest env net fs t p i b n) \<noteq> None)"

definition goroutines :: "torrent \<Rightarrow> peer \<Rightarrow> task list \<Rightarrow> task list" where
  "goroutines t p tasks = tasks @ (if RequestPieces \<in> set tasks then requestPieces t p else [])"

lemma request_no_panic:
  assumes "i < length (TPieces t)" and "Conn p \<noteq> None"
  shows "\<not> task_panics env net fs t p (RequestPiece i)"
proof -
  have "request_loop net i n len 0 p \<noteq> Some (p', Inl (Panic q))" for n len p' q
    using request_loop_result [of net i n len 0 p _ q] assms(2) by force
  then show ?thesis
    using assms(1) by (auto simp: requestPiece_def split: option.splits sum.splits fault.splits)
qed

lemma read_loop_no_panic: "None \<notin> set fis \<Longrightarrow> read_loop env fs fis off n data \<noteq> Inl (Panic q)"
proof (induction env fs fis off n data rule: read_loop.induct)
  case (3 env fs f fis off n data)
  then show ?case by (auto simp: Let_def split: sum.splits option.splits)
qed simp_all

lemma serving_panics:
  assumes "fileManager t = Some fm" and "None \<notin> set (files fm)" and "Conn p \<noteq> None"
  shows "task_panics env net fs t p (HandlePieceRequest i b n) \<longleftrightarrow>
    (\<exists>d. ReadPiece env fs fm (uint i) (uint b) (uint n) = Inr d \<and> (length d + 13) mod 2 ^ 32 < 5)"
proof -
  have "uint n < 2 ^ 32" using uint_lt2p [of n] by simp
  then have "ReadPiece env fs fm (uint i) (uint b) (uint n) \<noteq> Inl (Panic q)" for q
    using read_loop_no_panic [OF assms(2)] by (simp add: ReadPiece_def max_alloc_def)
  then consider e where "ReadPiece env fs fm (uint i) (uint b) (uint n) = Inl (Error e)"
    | d where "ReadPiece env fs fm (uint i) (uint b) (uint n) = Inr d"
    by (metis fault.exhaust sum.exhaust)
  then show ?thesis
  proof cases
    case 1
    then show ?thesis by (simp add: handlePieceRequest_def assms(1))
  next
    case (2 d)
    have "length (NewPieceMessage i b d) + 5 = length d + 13" by (simp add: NewPieceMessage_shape)
    with SendMessage_panics [OF assms(3), of MsgPiece net "NewPieceMessage i b d"] 2 show ?thesis
      by (auto simp: handlePieceRequest_def assms(1) msg_types MsgKeepAlive_def split: prod.splits sum.splits fault.splits)
  qed
qed

section \<open>Requests\<close>

lemma request_loop_ends:
  assumes "0 < n" and "0 \<le> b" and "b \<le> len + n" and "len + n < 2 ^ 63"
  shows "\<exists>p' r. request_loop env i n len b p = Some (p', r)"
  using assms(2-)
proof (induction "nat (len - b)" arbitrary: b p rule: less_induct)
  case less
  show ?case
  proof (cases "b < len")
    case True
    obtain p' r where s: "SendMessage env p MsgRequest
        (NewRequestMessage (of_nat i) (of_int b) (of_int (min_int64 n (i64 (len - b))))) = (p', r)"
      by (cases "SendMessage env p MsgRequest
        (NewRequestMessage (of_nat i) (of_int b) (of_int (min_int64 n (i64 (len - b)))))")
    have "i64 (b + n) = b + n" using True assms(1) less.prems by (intro i64_id) auto
    moreover have "\<exists>q r. request_loop env i n len (b + n) p' = Some (q, r)"
      using True assms(1) less.prems by (intro less.hyps) auto
    ultimately show ?thesis
      using True s by (cases r) (simp_all add: request_loop.simps [of env i n len b p])
  qed (simp add: request_loop.simps)
qed

lemma request_loop_once:
  assumes "0 < len" and "len \<le> n" and "in_i64 n"
    and "SendMessage env p MsgRequest (NewRequestMessage (of_nat i) 0 (of_int len)) = (p', Inr ())"
  shows "request_loop env i n len 0 p = Some (p', Inr ())"
proof -
  have "i64 len = len" "i64 n = n" using assms(1-3) by (auto simp: in_i64_def i64_id)
  moreover have "min_int64 n len = len" using assms(2) by (simp add: min_int64_def)
  ultimately show ?thesis
    using assms by (subst request_loop.simps) (simp add: request_loop.simps [of _ _ _ _ n])
qed

lemma calculatePieceLength_le:
  assumes "0 < PieceLength (Info m)"
  shows "calculatePieceLength m i \<le> PieceLength (Info m)"
proof -
  have "TotalLength m smod PieceLength (Info m) \<le> PieceLength (Info m) - 1"
    using smod_int_range [of "PieceLength (Info m)" "TotalLength m"] assms by simp
  with assms show ?thesis by (simp add: calculatePieceLength_def)
qed

text \<open>No piece is longer than the unit in which it is requested.\<close>

lemma pieces_fit:
  assumes "NewTorrent pid now m = Inr t0" and "Torrent_Correct.frame t = Torrent_Correct.frame (t0\<lparr>fileManager := fm\<rparr>)"
    and "0 < PieceLength (Info m)" and "i < length (TPieces t)"
  shows "PieceSize t = PieceLength (Info m)" and "PLength (TPieces t ! i) \<le> PieceLength (Info m)"
proof -
  show "PieceSize t = PieceLength (Info m)"
    using assms(2) NewTorrent_Inr(7) [OF assms(1)] by (simp add: Torrent_Correct.frame_def)
  show "PLength (TPieces t ! i) \<le> PieceLength (Info m)"
    using frame_pieces(1) [OF assms(2)] frame_pieces(3) [OF assms(2), of i] assms(4)
      NewTorrent_Inr(4) [OF assms(1), of i] calculatePieceLength_le [OF assms(3)]
    by simp
qed

definition connected :: "peer \<Rightarrow> conn \<Rightarrow> bool" where
  "connected p c \<longleftrightarrow> Conn p = Some c \<and> \<not> closed c"

definition sent :: "peer \<Rightarrow> bytes" where
  "sent p = (case Conn p of None \<Rightarrow> [] | Some c \<Rightarrow> outgoing c)"

lemma requestPiece_quiet:
  assumes "i < length (TPieces t)" and "\<not> PDownloaded (TPieces t ! i)" and "0 < PLength (TPieces t ! i)"
    and "PLength (TPieces t ! i) \<le> PieceSize t" and "in_i64 (PieceSize t)" and "connected p c"
  shows "requestPiece quiet t i p =
    Some (p\<lparr>Conn := Some (c\<lparr>outgoing := outgoing c @
        Peer_Correct.frame (MsgRequest, NewRequestMessage (of_nat i) 0 (of_int (PLength (TPieces t ! i))))\<rparr>)\<rparr>, Inr ())"
proof -
  let ?m = "NewRequestMessage (of_nat i) 0 (of_int (PLength (TPieces t ! i)))"
  have "message_ok (MsgRequest, ?m)"
    by (simp add: message_ok_def MsgRequest_def NewRequestMessage_shape)
  then have "SendMessage quiet p MsgRequest ?m =
      (p\<lparr>Conn := Some (c\<lparr>outgoing := outgoing c @ Peer_Correct.frame (MsgRequest, ?m)\<rparr>)\<rparr>, Inr ())"
    using assms(6) by (simp add: SendMessage_quiet connected_def)
  from request_loop_once [OF assms(3-5) this] show ?thesis
    using assms(1,2) by (simp add: requestPiece_def)
qed

section \<open>Serving a block\<close>

lemma handlePieceRequest_quiet:
  assumes "layout fs t fm" and "unat i < length (TPieces t)" and "connected p c"
    and "uint b + uint n \<le> PLength (TPieces t ! unat i)" and "uint n + 13 < 2 ^ 32"
  shows "handlePieceRequest healthy quiet fs t p i b n =
    (p\<lparr>Conn := Some (c\<lparr>outgoing := outgoing c @ Peer_Correct.frame (MsgPiece,
        NewPieceMessage i b (take (unat n) (drop (unat b) (piece_bytes fs t fm (unat i)))))\<rparr>)\<rparr>, None)"
proof -
  let ?k = "unat i" and ?d = "take (unat n) (drop (unat b) (piece_bytes fs t fm (unat i)))"
  have ub: "uint b = int (unat b)" and un: "uint n = int (unat n)" and ui: "uint i = int ?k" by simp_all
  have ip: "in_piece t ?k (uint b) (replicate (unat n) 0)"
    using assms(2,4) by (simp add: in_piece_def)
  note addr = layout_addr [OF assms(1) ip]
  have "int (unat n) \<le> PLength (TPieces t ! ?k)" using assms(4) uint_ge_0 [of b] un by linarith
  moreover have "PLength (TPieces t ! ?k) \<le> int max_rw" using assms(1,2) by (simp add: layout_def)
  ultimately have "unat n \<le> max_rw" by linarith
  then have rd: "ReadPiece healthy fs fm (uint i) (uint b) (uint n) =
      Inr (take (unat n) (drop (addr_pos fm (uint i, uint b)) (disk fs fm)))"
    using ReadPiece_flat [of fs fm "uint i" "uint b" "unat n"] addr(1) assms(1)
    by (simp add: layout_def)
  have "unat b + unat n \<le> nat (PLength (TPieces t ! ?k))" using addr(5) by simp
  then have "min (unat n) (nat (PLength (TPieces t ! ?k)) - unat b) = unat n" by simp
  moreover have "addr_pos fm (uint i, uint b) = unat b + addr_pos fm (int ?k, 0)" using addr(3) by simp
  ultimately have d: "take (unat n) (drop (addr_pos fm (uint i, uint b)) (disk fs fm)) = ?d"
    by (simp only: piece_bytes_def drop_take drop_drop take_take)
  have "int (unat n) + 13 < 4294967296" using assms(5) unfolding un by simp
  then have "unat n + 13 < 4294967296" by linarith
  moreover have "length ?d \<le> unat n" by simp
  ultimately have "length ?d + 13 < 4294967296" by linarith
  then have "message_ok (MsgPiece, NewPieceMessage i b ?d)"
    by (simp add: message_ok_def MsgPiece_def NewPieceMessage_shape)
  then have "SendMessage quiet p MsgPiece (NewPieceMessage i b ?d) =
      (p\<lparr>Conn := Some (c\<lparr>outgoing := outgoing c @ Peer_Correct.frame (MsgPiece, NewPieceMessage i b ?d)\<rparr>)\<rparr>, Inr ())"
    using assms(3) by (simp add: SendMessage_quiet connected_def)
  moreover have "fileManager t = Some fm" using assms(1) by (simp add: layout_def)
  ultimately show ?thesis by (simp add: handlePieceRequest_def rd d)
qed

section \<open>From one client to another\<close>

text \<open>
  A client that misses piece \<open>i\<close> (its file system and torrent first) asks another for it, over a
  connection in each direction that carries the bytes the other side wrote.
\<close>

definition exchange_piece ::
  "fsys \<Rightarrow> torrent \<Rightarrow> fsys \<Rightarrow> torrent \<Rightarrow> nat \<Rightarrow> (fsys \<times> torrent \<times> peer \<times> task list \<times> go_panic option) option" where
  "exchange_piece fs t gs u i =
     (case requestPiece quiet t i (on_stream []) of
        Some (p1, Inr _) \<Rightarrow>
          (case ReadMessage quiet 0 (on_stream (sent p1)) of
             (q1, Inr (ty, pl)) \<Rightarrow>
               (case handle_message healthy gs u q1 ty pl of
                  (gs', u', q2, [HandlePieceRequest idx b n], None) \<Rightarrow>
                    (case handlePieceRequest healthy quiet gs' u' q2 idx b n of
                       (q3, None) \<Rightarrow>
                         (case ReadMessage quiet 0 (on_stream (sent q3)) of
                            (p2, Inr (ty', pl')) \<Rightarrow> Some (handle_message healthy fs t p2 ty' pl')
                          | _ \<Rightarrow> None)
                     | _ \<Rightarrow> None)
                | _ \<Rightarrow> None)
           | _ \<Rightarrow> None)
      | _ \<Rightarrow> None)"

lemma on_stream_connected: "connected (on_stream r) \<lparr>incoming = r, outgoing = [], closed = False\<rparr>"
  by (simp add: connected_def on_stream_def)

lemma ReadMessage_on_stream:
  "message_ok (ty, pl) \<Longrightarrow> \<exists>p. ReadMessage quiet now (on_stream (Peer_Correct.frame (ty, pl))) = (p, Inr (ty, pl))
     \<and> connected p \<lparr>incoming = [], outgoing = [], closed = False\<rparr>"
  using ReadMessage_frame [of ty pl "on_stream (Peer_Correct.frame (ty, pl))" _ "[]" now]
  by (simp add: on_stream_def connected_def)

lemma exchange_piece_works:
  assumes "layout fs t fm" and "layout gs u gm" and "i < length (TPieces t)" and "i < length (TPieces u)"
    and "\<not> PDownloaded (TPieces t ! i)" and "PLength (TPieces u ! i) = PLength (TPieces t ! i)"
    and "0 < PLength (TPieces t ! i)" and "PLength (TPieces t ! i) \<le> PieceSize t" and "in_i64 (PieceSize t)"
    and "PLength (TPieces t ! i) + 13 < 2 ^ 32" and "i < 2 ^ 32"
    and "sha1_Sum (piece_bytes gs u gm i) = Hash (TPieces t ! i)"
  shows "\<exists>fs' t' p'. exchange_piece fs t gs u i = Some (fs', t', p', [], None)
    \<and> layout fs' t' fm \<and> flagged t' = insert i (flagged t) \<and> piece_bytes fs' t' fm i = piece_bytes gs u gm i"
proof -
  define n where "n = PLength (TPieces t ! i)"
  define d where "d = piece_bytes gs u gm i"
  let ?i = "of_nat i :: 32 word" and ?n = "of_int n :: 32 word"
  let ?req = "NewRequestMessage ?i 0 ?n" and ?msg = "NewPieceMessage ?i 0 d"
  have n: "0 < n" "n + 13 < 2 ^ 32" "n \<le> PieceSize t" using assms(7,8,10) by (simp_all add: n_def)
  have ui: "unat ?i = i" using assms(11) by (simp add: unat_of_nat take_bit_nat_eq_self)
  have un: "uint ?n = n" using n by (simp add: uint_word_of_int)
  have un': "unat ?n = nat n" using un by (metis nat_uint_eq)
  have "i \<notin> flagged t" using assms(5) by (simp add: flagged_def)
  have ld: "length d = nat n"
    using layout_addr(4) [OF assms(2) in_piece_Nil [OF assms(2,4)]] assms(6)
    by (simp add: d_def piece_bytes_def n_def)
  have "requestPiece quiet t i (on_stream []) = Some ((on_stream [])\<lparr>Conn :=
      Some \<lparr>incoming = [], outgoing = Peer_Correct.frame (MsgRequest, ?req), closed = False\<rparr>\<rparr>, Inr ())"
    using requestPiece_quiet [OF assms(3,5) _ _ assms(9) on_stream_connected] assms(7,8) by (simp add: n_def)
  moreover have "message_ok (MsgRequest, ?req)"
    by (simp add: message_ok_def MsgRequest_def NewRequestMessage_shape)
  then obtain q1 where "ReadMessage quiet 0 (on_stream (Peer_Correct.frame (MsgRequest, ?req))) = (q1, Inr (MsgRequest, ?req))"
      and q1: "connected q1 \<lparr>incoming = [], outgoing = [], closed = False\<rparr>"
    using ReadMessage_on_stream by blast
  moreover have "take (unat ?n) (drop 0 (piece_bytes gs u gm (unat ?i))) = d"
    using ld un' ui by (simp add: d_def)
  then have "handlePieceRequest healthy quiet gs u q1 ?i 0 ?n =
      (q1\<lparr>Conn := Some \<lparr>incoming = [], outgoing = Peer_Correct.frame (MsgPiece, ?msg), closed = False\<rparr>\<rparr>, None)"
    using handlePieceRequest_quiet [OF assms(2) _ q1, of ?i 0 ?n] assms(4,6) un ui n by (simp add: n_def)
  moreover have "length d + 13 < 4294967296" using ld n(1,2) by (simp add: nat_less_iff)
  then have "message_ok (MsgPiece, ?msg)"
    by (simp add: message_ok_def MsgPiece_def NewPieceMessage_shape)
  then obtain p2 where "ReadMessage quiet 0 (on_stream (Peer_Correct.frame (MsgPiece, ?msg))) = (p2, Inr (MsgPiece, ?msg))"
    using ReadMessage_on_stream by blast
  ultimately have ex: "exchange_piece fs t gs u i = Some (handle_message healthy fs t p2 MsgPiece ?msg)"
    by (simp add: exchange_piece_def sent_def handle_request)
  obtain fs' t' r where p: "processPiece healthy fs t i 0 d = (fs', t', r)"
    by (cases "processPiece healthy fs t i 0 d")
  have good: "good_blocks t i [d]"
    using ld n(1) assms(12) by (auto simp: good_blocks_def n_def d_def)
  have "deliver healthy i 0 [d] (fs, t) = (fs', t')" using p by simp
  from deliver_good [OF assms(1,3) \<open>i \<notin> flagged t\<close> good this]
  have res: "layout fs' t' fm" "flagged t' = insert i (flagged t)" "piece_bytes fs' t' fm i = d" by simp_all
  have "r = Inr ()"
    using flagged_by_hash [OF p, of i] res(2) \<open>i \<notin> flagged t\<close> by simp
  then have "handle_message healthy fs t p2 MsgPiece ?msg = (fs', t', p2, [], None)"
    using handle_piece [of ?i t healthy fs 0 d fs' t' r p2] p ui assms(3) by simp
  with ex res show ?thesis by (auto simp: d_def)
qed

section \<open>Messages\<close>

lemma handle_message_panics:
  assumes "layout fs t fm" and "int (length (disk fs fm)) < 2 ^ 62" and "length payload < 2 ^ 32"
  shows "(\<exists>fs' t' p' tasks q. handle_message healthy fs t p msgType payload = (fs', t', p', tasks, Some q))
    \<longleftrightarrow> msgType = MsgHave \<and> length payload < 4"
proof -
  let ?m = "handle_message healthy fs t p msgType payload"
  consider (hv) "msgType = MsgHave" | (bits) "msgType = MsgBitfield" | (req) "msgType = MsgRequest"
    | (piece) "msgType = MsgPiece" | (other) "msgType \<notin> {MsgHave, MsgBitfield, MsgRequest, MsgPiece}" by blast
  then show ?thesis
  proof cases
    case hv
    then show ?thesis
      using message_uint32_short [of payload] message_uint32_cases [of payload]
      by (cases "length payload < 4") (auto simp: handle_message_def msg_types)
  next
    case bits
    then show ?thesis
      using NewBitfield_defined [OF assms(3)] by (auto simp: handle_message_def msg_types)
  next
    case req
    have "12 \<le> length payload \<Longrightarrow> \<exists>a b c. message_uint32 payload = Inr a \<and> message_uint32 (drop 4 payload) = Inr b
        \<and> message_uint32 (drop 8 payload) = Inr c"
      using message_uint32_cases [of payload] message_uint32_cases [of "drop 4 payload"]
        message_uint32_cases [of "drop 8 payload"] by simp
    with req show ?thesis by (auto simp: handle_message_def msg_types)
  next
    case piece
    have "snd (snd (snd (snd ?m))) = None"
    proof (cases "length payload < 8")
      case False
      then obtain a b where ab: "message_uint32 payload = Inr a" "message_uint32 (drop 4 payload) = Inr b"
        using message_uint32_cases [of payload] message_uint32_cases [of "drop 4 payload"] by fastforce
      show ?thesis
      proof (cases "unat a \<ge> length (TPieces t)")
        case in_range: False
        obtain fs' t' r where pp: "processPiece healthy fs t (unat a) (uint b) (drop 8 payload) = (fs', t', r)"
          by (cases "processPiece healthy fs t (unat a) (uint b) (drop 8 payload)")
        have "uint b < 2 ^ 32" using uint_lt2p [of b] by simp
        then have "r \<noteq> Inl (Panic q)" for q
          using processPiece_no_panic [OF assms(1) _ _ _ assms(2) pp] in_range by simp
        with piece False ab in_range pp show ?thesis
          by (cases r rule: sum.exhaust [case_product fault.exhaust])
            (auto simp: handle_message_def msg_types split: sum.splits fault.splits)
      qed (use piece False ab in \<open>simp add: handle_message_def msg_types\<close>)
    qed (use piece in \<open>simp add: handle_message_def msg_types\<close>)
    with piece show ?thesis by (auto simp: msg_types)
  next
    case other
    then show ?thesis by (auto simp: handle_message_def)
  qed
qed

lemma handle_message_tasks:
  assumes "handle_message env fs t p msgType payload = (fs', t', p', tasks, q)" and "task \<in> set (goroutines t2 p2 tasks)"
  shows "task = RequestPieces \<or> (\<exists>i b n. task = HandlePieceRequest i b n) \<or> (\<exists>i < length (TPieces t2). task = RequestPiece i)"
proof (cases "task \<in> set tasks")
  case True
  with assms(1) show ?thesis
    by (auto simp: handle_message_def split: if_splits sum.splits fault.splits prod.splits)
next
  case False
  with assms(2) show ?thesis by (auto simp: goroutines_def requestPieces_def split: if_splits)
qed

section \<open>Properties\<close>



text \<open>
  C17: if the torrent's piece length is positive and below 2^62, requesting a piece comes to an end for every
  piece, peer and behaviour of the network. The loop over blocks never asks for a part of a piece: it sends
  one request, for offset 0 and the whole length of the piece. The message has room for the low 32 bits of
  the piece's number and length, so it names the piece as long as both are below 2^32.
\<close>

theorem request_piece_terminates:
  assumes "NewTorrent pid now m = Inr t0" and "reaches env may (fs, t0\<lparr>fileManager := fm\<rparr>) (fs', t)"
    and "0 < PieceLength (Info m)" and "PieceLength (Info m) < 2 ^ 62"
  shows "(\<exists>p' r. requestPiece net t i p = Some (p', r))
    \<and> (i < length (TPieces t) \<and> i \<notin> flagged t \<and> 0 < PLength (TPieces t ! i) \<and> connected p c \<longrightarrow>
       (\<exists>index len. requestPiece quiet t i p =
          Some (p\<lparr>Conn := Some (c\<lparr>outgoing := outgoing c @
            Peer_Correct.frame (MsgRequest, put_uint32 index @ put_uint32 0 @ put_uint32 len)\<rparr>)\<rparr>, Inr ())
        \<and> uint index = int i mod 2 ^ 32 \<and> uint len = PLength (TPieces t ! i) mod 2 ^ 32))"
proof (intro conjI impI)
  note fit = pieces_fit [OF assms(1) reaches_frame(1) [OF assms(2)] assms(3)]
  show "\<exists>p' r. requestPiece net t i p = Some (p', r)"
  proof (cases "i < length (TPieces t) \<and> \<not> PDownloaded (TPieces t ! i)")
    case True
    note f = fit [OF conjunct1 [OF True]]
    show ?thesis
    proof (cases "0 < PLength (TPieces t ! i)")
      case pos: True
      then show ?thesis
        using True f assms(3,4) request_loop_ends [of "PieceSize t" 0 "PLength (TPieces t ! i)" net i p]
        by (simp add: requestPiece_def)
    qed (use True in \<open>simp add: requestPiece_def request_loop.simps\<close>)
  qed (auto simp: requestPiece_def)
  assume a: "i < length (TPieces t) \<and> i \<notin> flagged t \<and> 0 < PLength (TPieces t ! i) \<and> connected p c"
  then have "in_i64 (PieceSize t)" using fit(1) [of i] assms(3,4) by (simp add: in_i64_def)
  with a have "requestPiece quiet t i p =
      Some (p\<lparr>Conn := Some (c\<lparr>outgoing := outgoing c @ Peer_Correct.frame (MsgRequest,
        NewRequestMessage (of_nat i) 0 (of_int (PLength (TPieces t ! i))))\<rparr>)\<rparr>, Inr ())"
    using fit [of i] by (intro requestPiece_quiet) (auto simp: flagged_def)
  then show "\<exists>index len. requestPiece quiet t i p =
        Some (p\<lparr>Conn := Some (c\<lparr>outgoing := outgoing c @
          Peer_Correct.frame (MsgRequest, put_uint32 index @ put_uint32 0 @ put_uint32 len)\<rparr>)\<rparr>, Inr ())
      \<and> uint index = int i mod 2 ^ 32 \<and> uint len = PLength (TPieces t ! i) mod 2 ^ 32"
    by - (rule exI [of _ "of_nat i :: 32 word"], rule exI [of _ "of_int (PLength (TPieces t ! i)) :: 32 word"],
      simp add: NewRequestMessage_shape uint_word_of_int unsigned_of_nat take_bit_eq_mod zmod_int)
qed

theorem request_piece_terminates_witness:
  "\<exists>index len. requestPiece quiet one_start 0 (on_stream []) =
     Some ((on_stream [])\<lparr>Conn := Some \<lparr>incoming = [],
       outgoing = Peer_Correct.frame (MsgRequest, put_uint32 index @ put_uint32 0 @ put_uint32 len), closed = False\<rparr>\<rparr>, Inr ())
   \<and> uint index = 0 \<and> uint len = 3"
proof -
  have r: "reaches healthy anything (one_file, one_torrent\<lparr>fileManager := Some one_manager\<rparr>) (one_file, one_start)"
    by (simp add: reaches_def)
  have "0 < PieceLength (Info one_meta)" "PieceLength (Info one_meta) < 2 ^ 62" by (simp_all add: one_meta_def)
  from request_piece_terminates [OF one_torrent_new r this, of quiet 0 "on_stream []" "\<lparr>incoming = [], outgoing = [], closed = False\<rparr>"]
  show ?thesis using on_stream_connected one_flags by (simp add: one_torrent_def)
qed

text \<open>
  C9: a piece gets from one client to another: if the one that has it on disk is asked by one that misses
  it, the request, the answer and the check of the hash follow through the real message formats, and at
  the end the piece is flagged with the very bytes of the other disk.
\<close>

theorem piece_gets_across:
  assumes "layout fs t fm" and "layout gs u gm" and "i < length (TPieces t)" and "i < length (TPieces u)"
    and "\<not> PDownloaded (TPieces t ! i)" and "PLength (TPieces u ! i) = PLength (TPieces t ! i)"
    and "0 < PLength (TPieces t ! i)" and "PLength (TPieces t ! i) \<le> PieceSize t" and "in_i64 (PieceSize t)"
    and "PLength (TPieces t ! i) + 13 < 2 ^ 32" and "i < 2 ^ 32"
    and "sha1_Sum (piece_bytes gs u gm i) = Hash (TPieces t ! i)"
  shows "\<exists>fs' t' p'. exchange_piece fs t gs u i = Some (fs', t', p', [], None)
    \<and> layout fs' t' fm \<and> flagged t' = insert i (flagged t) \<and> piece_bytes fs' t' fm i = piece_bytes gs u gm i"
  using assms by (rule exchange_piece_works)

definition full_file :: fsys where
  "full_file = [(False, [str ''x'']) \<mapsto> FileNode [1, 2, 3]]"

theorem piece_gets_across_witness:
  "\<exists>fs' t' p'. exchange_piece one_file one_start full_file one_start 0 = Some (fs', t', p', [], None)
    \<and> flagged t' = {0} \<and> piece_bytes fs' t' one_manager 0 = [1, 2, 3]"
proof -
  have disk: "disk full_file one_manager = [1, 2, 3]"
    by (simp add: disk_def full_file_def one_manager_def)
  have "allocated full_file one_manager"
    unfolding allocated_def disk by (simp add: full_file_def one_manager_def in_i64_def)
  then have l: "layout full_file one_start one_manager"
    unfolding layout_def disk by (simp add: one_torrent_def one_manager_def max_rw_def)
  have b: "piece_bytes full_file one_start one_manager 0 = [1, 2, 3]"
    by (simp add: piece_bytes_def disk addr_pos_def) (simp add: one_torrent_def)
  have "\<exists>fs' t' p'. exchange_piece one_file one_start full_file one_start 0 = Some (fs', t', p', [], None)
    \<and> layout fs' t' one_manager \<and> flagged t' = insert 0 (flagged one_start)
    \<and> piece_bytes fs' t' one_manager 0 = piece_bytes full_file one_start one_manager 0"
  proof (rule piece_gets_across [OF one_layout l])
    show "sha1_Sum (piece_bytes full_file one_start one_manager 0) = Hash (TPieces one_start ! 0)"
      unfolding b by (simp add: one_torrent_def)
  qed (simp_all add: one_torrent_def in_i64_def)
  then show ?thesis using one_flags(1) b by auto
qed

end
