(* ===== verification/Swarm.thy ===== *)
theory Swarm
  imports Connections PeerLoop_Correct
begin

text \<open>
  All goroutines together: any number of peers whose messages arrive in any order, the tasks their
  messages start, connections that come and go, clean-ups and verifications. Whatever the
  interleaving, the files and the pieces move as the transition system of \<open>Download\<close> allows, so
  what holds there holds for the whole program.
\<close>

section \<open>The part of the torrent the download is about\<close>

definition core :: "torrent \<Rightarrow> torrent" where
  "core t = t\<lparr>ActivePeers := 0, failedPeers := Map.empty, activePeers := Map.empty\<rparr>"

lemma core_fields [simp]:
  "TPieces (core t) = TPieces t" "fileManager (core t) = fileManager t" "metaInfo (core t) = metaInfo t"
  "Downloaded (core t) = Downloaded t" "Left (core t) = Left t" "PieceSize (core t) = PieceSize t"
  "flagged (core t) = flagged t" "Torrent_Correct.frame (core t) = Torrent_Correct.frame t"
  "isComplete (core t) = isComplete t" "piece_bytes fs (core t) = piece_bytes fs t"
  by (simp_all add: core_def flagged_def Torrent_Correct.frame_def isComplete_def piece_bytes_def fun_eq_iff)

lemma core_updates [simp]:
  "core (add_active n t) = core t" "core (markFailed now a t) = core t"
  "core (cleanupFailedPeers now t) = core t" "core (t\<lparr>activePeers := m\<rparr>) = core t"
  "core (core t) = core t"
  by (simp_all add: core_def add_active_def markFailed_def cleanupFailedPeers_def)

lemma core_downloaded: "core (set_downloaded i t) = set_downloaded i (core t)"
  by (simp add: core_def set_downloaded_def)

lemma core_count: "core (count_bytes n t) = count_bytes n (core t)"
  by (simp add: core_def count_bytes_def)

lemma verifyPiece_core:
  "verifyPiece env fs (core t) i = (core (fst (verifyPiece env fs t i)), snd (verifyPiece env fs t i))"
  by (simp add: verifyPiece_def core_downloaded split: option.splits sum.splits fault.splits)

lemma processPiece_core:
  "processPiece env fs t i b d = (fs', t', r) \<Longrightarrow> processPiece env fs (core t) i b d = (fs', core t', r)"
  unfolding processPiece_def Let_def
  by (auto simp: verifyPiece_core core_downloaded core_count simp flip: core_count
      split: if_splits option.splits sum.splits fault.splits prod.splits)

lemma verify_loop_core:
  "verify_loop env fs (core t) is = (core (fst (verify_loop env fs t is)), snd (verify_loop env fs t is))"
proof (induction "is" arbitrary: t)
  case (Cons i "is")
  obtain t1 r where v: "verifyPiece env fs t i = (t1, r)" by (cases "verifyPiece env fs t i")
  then have "verifyPiece env fs (core t) i = (core t1, r)" by (simp add: verifyPiece_core)
  with v Cons show ?case by (cases r rule: sum.exhaust [case_product fault.exhaust])
    (auto simp flip: core_count split: sum.splits fault.splits)
qed simp

lemma verifyDownload_core:
  "verifyDownload env fs (core t) = (core (fst (verifyDownload env fs t)), snd (verifyDownload env fs t))"
  by (simp add: verifyDownload_def verify_loop_core case_prod_unfold Let_def split: option.splits)

section \<open>The swarm\<close>

text \<open>
  \<open>speers\<close> are the peer objects, \<open>listening\<close> those whose loop still runs (with a flag for the peers the DHT
  found), \<open>stasks\<close> the goroutines that have been started and not yet run, and \<open>sdials\<close> the running calls of
  \<open>connectToPeers\<close>: the address, the attempts still to make, and the next delay.
\<close>

record swarm =
  sfs :: fsys
  storrent :: torrent
  speers :: "peer_ref \<rightharpoonup> peer"
  listening :: "peer_ref \<rightharpoonup> bool"
  stasks :: "(peer_ref \<times> task) list"
  sdials :: "(bytes \<times> nat \<times> int) list"

definition run_task ::
  "os_env \<Rightarrow> net_env \<Rightarrow> fsys \<Rightarrow> torrent \<Rightarrow> peer \<Rightarrow> task \<Rightarrow> (peer \<times> task list) option" where
  "run_task env net fs t p task =
     (case task of
        RequestPieces \<Rightarrow> Some (p, requestPieces t p)
      | RequestPiece i \<Rightarrow> map_option (\<lambda>(p', r). (p', [])) (requestPiece net t i p)
      | HandlePieceRequest i b n \<Rightarrow> Some (fst (handlePieceRequest env net fs t p i b n), []))"

text \<open>Which blocks a peer may send, carried over to messages.\<close>

definition allowed :: "peers_may \<Rightarrow> torrent \<Rightarrow> int \<Rightarrow> bytes \<Rightarrow> bool" where
  "allowed may t msgType payload \<longleftrightarrow>
     msgType \<noteq> MsgPiece \<or> length payload < 8 \<or>
     (case (message_uint32 payload, message_uint32 (drop 4 payload)) of
        (Inr i, Inr b) \<Rightarrow> length (TPieces t) \<le> unat i \<or> may (core t) (unat i) (uint b) (drop 8 payload)
      | _ \<Rightarrow> True)"

inductive swarm_step :: "os_env \<Rightarrow> peers_may \<Rightarrow> swarm \<Rightarrow> swarm \<Rightarrow> bool" for env may where
  Message: "listening s k = Some dht \<Longrightarrow> speers s k = Some p \<Longrightarrow>
    ReadMessage net now p = (p1, Inr (msgType, payload)) \<Longrightarrow> allowed may (storrent s) msgType payload \<Longrightarrow>
    handle_message env (sfs s) (storrent s) p1 msgType payload = (fs', t', p2, tasks, None) \<Longrightarrow>
    swarm_step env may s
      (s\<lparr>sfs := fs', storrent := t', speers := (speers s)(k \<mapsto> p2), stasks := stasks s @ map (Pair k) tasks\<rparr>)"
| Hangup: "listening s k = Some dht \<Longrightarrow> speers s k = Some p \<Longrightarrow>
    p1 = p \<or> (\<exists>net now e. ReadMessage net now p = (p1, Inl (Error e))) \<Longrightarrow>
    swarm_step env may s
      (s\<lparr>storrent :=
           (if dht then add_active (- 1)
              (add_active (- 1) (storrent s)\<lparr>activePeers := (activePeers (storrent s))(Addr p := None)\<rparr>)
            else add_active (- 1) (storrent s)),
         speers := (speers s)(k \<mapsto> fst (defer_disconnect p1)), listening := (listening s)(k := None)\<rparr>)"
| Run: "stasks s = xs @ (k, task) # ys \<Longrightarrow> speers s k = Some p \<Longrightarrow>
    run_task env net (sfs s) (storrent s) p task = Some (p', tasks) \<Longrightarrow>
    swarm_step env may s (s\<lparr>speers := (speers s)(k \<mapsto> p'), stasks := xs @ ys @ map (Pair k) tasks\<rparr>)"
| Start_dial: "swarm_step env may s (s\<lparr>sdials := sdials s @ [(addr, 5, time_second)]\<rparr>)"
| Dial_again: "sdials s = xs @ (addr, Suc n, d) # ys \<Longrightarrow>
    connect_attempt a now addr n d (storrent s) = (t', DialAgain d' ds) \<Longrightarrow>
    swarm_step env may s (s\<lparr>storrent := t', sdials := xs @ (addr, n, d') # ys\<rparr>)"
| Dial_connected: "sdials s = xs @ (addr, Suc n, d) # ys \<Longrightarrow>
    connect_attempt a now addr n d (storrent s) = (t', DialConnected p) \<Longrightarrow> speers s k = None \<Longrightarrow>
    swarm_step env may s
      (s\<lparr>storrent := t', speers := (speers s)(k \<mapsto> p), listening := (listening s)(k \<mapsto> False),
         sdials := xs @ ys\<rparr>)"
| Dial_stopped: "sdials s = xs @ (addr, Suc n, d) # ys \<Longrightarrow>
    connect_attempt a now addr n d (storrent s) = (t', DialStopped ds) \<Longrightarrow>
    swarm_step env may s (s\<lparr>storrent := t', sdials := xs @ ys\<rparr>)"
| Dial_failed: "sdials s = xs @ (addr, 0, d) # ys \<Longrightarrow>
    swarm_step env may s (s\<lparr>storrent := markFailed now addr (storrent s), sdials := xs @ ys\<rparr>)"
| Dial_dht: "\<not> isFailed now (Addr p) (storrent s) \<Longrightarrow> Connect net dialled p = (p1, Inr ()) \<Longrightarrow> speers s k = None \<Longrightarrow>
    swarm_step env may s
      (s\<lparr>storrent := add_active 1 (storrent s)\<lparr>activePeers := (activePeers (storrent s))(Addr p \<mapsto> k)\<rparr>,
         speers := (speers s)(k \<mapsto> p1), listening := (listening s)(k \<mapsto> True)\<rparr>)"
| Give_up_dht: "swarm_step env may s (s\<lparr>storrent := markFailed now addr (storrent s)\<rparr>)"
| Cleanup: "cleanupDisconnectedPeers now order (\<lambda>k. the (speers s k)) (storrent s) = (peers', t') \<Longrightarrow>
    swarm_step env may s
      (s\<lparr>storrent := t', speers := (\<lambda>k. map_option (\<lambda>_. peers' k) (speers s k))\<rparr>)"
| Forget_failed: "swarm_step env may s (s\<lparr>storrent := cleanupFailedPeers now (storrent s)\<rparr>)"
| Keep_alive: "speers s k = Some p \<Longrightarrow>
    swarm_step env may s (s\<lparr>speers := (speers s)(k \<mapsto> keepAlive net [Tick] p)\<rparr>)"
| Verify_all: "verifyDownload env (sfs s) (storrent s) = (t', r) \<Longrightarrow>
    swarm_step env may s (s\<lparr>storrent := t'\<rparr>)"

section \<open>Refinement\<close>

lemma connect_attempt_core: "connect_attempt a now addr n d t = (t', out) \<Longrightarrow> core t' = core t"
  by (auto simp: connect_attempt_def split: if_splits sum.splits fault.splits prod.splits)

lemma cleanup_loop_core: "cleanup_loop now order peers t = (peers', t') \<Longrightarrow> core t' = core t"
  by (induction now order peers t arbitrary: peers' t' rule: cleanup_loop.induct)
    (fastforce split: option.splits if_splits)+

text \<open>A message is one block for the download, or nothing.\<close>

lemma handle_message_refines:
  assumes "handle_message env fs t p ty pl = (fs', t', p', tasks, q)" and "allowed may t ty pl"
  shows "torrent_step env may (fs, core t) (fs', core t') \<or> fs' = fs \<and> t' = t"
proof (cases "fs' = fs \<and> t' = t")
  case False
  then have ty: "ty = MsgPiece"
    using assms(1) by (auto simp: handle_message_def split: if_splits sum.splits fault.splits prod.splits)
  with False assms(1) obtain i b r where i: "\<not> length pl < 8" "message_uint32 pl = Inr i"
      "message_uint32 (drop 4 pl) = Inr b" "unat i < length (TPieces t)"
    and p: "processPiece env fs t (unat i) (uint b) (drop 8 pl) = (fs', t', r)"
    by (auto simp: handle_message_def msg_types split: if_splits sum.splits fault.splits prod.splits)
  then have "may (core t) (unat i) (uint b) (drop 8 pl)" using assms(2) ty by (simp add: allowed_def)
  then show ?thesis using Block processPiece_core [OF p] by blast
qed simp

lemma swarm_step_refines:
  assumes "swarm_step env may s s'"
  shows "torrent_step env may (sfs s, core (storrent s)) (sfs s', core (storrent s'))
    \<or> sfs s' = sfs s \<and> core (storrent s') = core (storrent s)"
  using assms
proof cases
  case (Message k dht p net now p1 msgType payload fs' t' p2 tasks)
  then show ?thesis using handle_message_refines [of env "sfs s" "storrent s" p1 msgType payload] by auto
next
  case (Hangup k dht p p1)
  then show ?thesis by simp
next
  case (Dial_again xs addr n d ys a now t' d' ds)
  then show ?thesis by (auto dest: connect_attempt_core)
next
  case (Dial_connected xs addr n d ys a now t' p k)
  then show ?thesis by (auto dest: connect_attempt_core)
next
  case (Dial_stopped xs addr n d ys a now t' ds)
  then show ?thesis by (auto dest: connect_attempt_core)
next
  case (Cleanup now order peers' t')
  then show ?thesis by (auto simp: cleanupDisconnectedPeers_def dest: cleanup_loop_core)
next
  case (Verify_all t' r)
  then have "verifyDownload env (sfs s) (core (storrent s)) = (core t', r)" by (simp add: verifyDownload_core)
  then show ?thesis using Verify_all(1) by (auto intro: Verify)
qed simp_all

text \<open>A call of \<open>connectToPeers\<close> that runs alone is a sequence of these steps.\<close>

lemma dial_steps:
  assumes "connect_loop at now addr i n d (storrent s) = (t', r, ds)" and "sdials s = xs @ (addr, n, d) # ys"
  shows "case r of
      Connected p \<Rightarrow> speers s k = None \<longrightarrow> (swarm_step env may)\<^sup>*\<^sup>* s
        (s\<lparr>storrent := t', speers := (speers s)(k \<mapsto> p), listening := (listening s)(k \<mapsto> False), sdials := xs @ ys\<rparr>)
    | GaveUp \<Rightarrow> (swarm_step env may)\<^sup>*\<^sup>* s (s\<lparr>storrent := t', sdials := xs @ ys\<rparr>)
    | Crashed q \<Rightarrow> True"
  using assms
proof (induction n arbitrary: i d s t' r ds)
  case 0
  then show ?case by (auto intro: r_into_rtranclp Dial_failed)
next
  case (Suc n)
  obtain t1 out where a: "connect_attempt (at i) (now i) addr n d (storrent s) = (t1, out)"
    by (cases "connect_attempt (at i) (now i) addr n d (storrent s)")
  show ?case
  proof (cases out)
    case (DialAgain d' ds1)
    let ?s = "s\<lparr>storrent := t1, sdials := xs @ (addr, n, d') # ys\<rparr>"
    obtain t2 r2 ds2 where l: "connect_loop at now addr (Suc i) n d' (storrent ?s) = (t2, r2, ds2)"
      by (cases "connect_loop at now addr (Suc i) n d' (storrent ?s)") auto
    have st: "swarm_step env may s ?s" using Dial_again Suc.prems(2) a DialAgain by blast
    have "t' = t2" "r = r2" using Suc.prems(1) a DialAgain l by simp_all
    with Suc.IH [OF l] converse_rtranclp_into_rtranclp [of "swarm_step env may", OF st] show ?thesis
      by (auto split: connect_result.splits simp del: fun_upd_apply)
  next
    case (DialConnected p)
    then have "t' = t1" "r = Connected p" using Suc.prems(1) a by simp_all
    with r_into_rtranclp [of "swarm_step env may", OF Dial_connected [OF Suc.prems(2) a [unfolded DialConnected]]]
    show ?thesis by simp
  qed (use Suc.prems a in \<open>auto intro: r_into_rtranclp Dial_stopped\<close>)
qed

interpretation swarm_download: simulation "swarm_step env may" "torrent_step env may" "\<lambda>s. (sfs s, core (storrent s))"
  for env may
  by unfold_locales (use swarm_step_refines in auto)

lemma swarm_refines:
  assumes "(swarm_step env may)\<^sup>*\<^sup>* s s'"
  shows "reaches env may (sfs s, core (storrent s)) (sfs s', core (storrent s'))"
  using swarm_download.runs [OF assms] by (simp add: reaches_def)

text \<open>
  A run of \<open>handlePeer\<close> without interruption is a sequence of these steps as well: its messages, and the end
  of the conversation.
\<close>

lemma allowed_anything [simp]: "allowed anything t ty pl"
  by (simp add: allowed_def anything_def split: sum.splits)

lemma peer_loop_steps:
  assumes "peer_loop env net rounds (sfs s) (storrent s) p = (fs', t', p', tasks, None)"
    and "listening s k = Some dht" and "speers s k = Some p"
  shows "\<exists>p1. (swarm_step env anything)\<^sup>*\<^sup>* s
      (s\<lparr>sfs := fs', storrent := t', speers := (speers s)(k \<mapsto> p1), stasks := stasks s @ map (Pair k) tasks\<rparr>)
    \<and> (p' = p1 \<or> (\<exists>now e. ReadMessage net now p1 = (p', Inl (Error e))))"
  using assms
proof (induction rounds arbitrary: s p tasks)
  case Nil
  then show ?case by (intro exI [of _ p]) (auto simp: fun_upd_idem)
next
  case (Cons round rounds)
  show ?case
  proof (cases round)
    case IdleTimeout
    then show ?thesis using Cons.prems by (intro exI [of _ p]) (auto simp: fun_upd_idem)
  next
    case (Receive now)
    obtain p1 r where rd: "ReadMessage net now p = (p1, r)" by (cases "ReadMessage net now p")
    show ?thesis
    proof (cases r)
      case (Inl x)
      then obtain e where "x = Error e" using Cons.prems(1) Receive rd by (cases x) auto
      with Inl Cons.prems Receive rd show ?thesis
        by (intro exI [of _ p]) (auto simp: fun_upd_idem)
    next
      case (Inr m)
      obtain ty pl where m: "m = (ty, pl)" by (cases m)
      obtain fs2 t2 p2 ts q where h: "handle_message env (sfs s) (storrent s) p1 ty pl = (fs2, t2, p2, ts, q)"
        by (cases "handle_message env (sfs s) (storrent s) p1 ty pl") auto
      obtain fs3 t3 p3 ts3 q3 where l: "peer_loop env net rounds fs2 t2 p2 = (fs3, t3, p3, ts3, q3)"
        by (cases "peer_loop env net rounds fs2 t2 p2") auto
      have q: "q = None" using Cons.prems(1) Receive rd Inr m h by (cases q) auto
      then have e: "fs' = fs3" "t' = t3" "p' = p3" "tasks = ts @ ts3" "q3 = None"
        using Cons.prems(1) Receive rd Inr m h l by auto
      let ?s = "s\<lparr>sfs := fs2, storrent := t2, speers := (speers s)(k \<mapsto> p2), stasks := stasks s @ map (Pair k) ts\<rparr>"
      have st: "swarm_step env anything s ?s"
        using Message [OF Cons.prems(2,3) rd [unfolded Inr m]] h q by simp
      have "peer_loop env net rounds (sfs ?s) (storrent ?s) p2 = (fs', t', p', ts3, None)" using l e by simp
      then have "\<exists>p4. (swarm_step env anything)\<^sup>*\<^sup>* ?s (?s\<lparr>sfs := fs', storrent := t', speers := (speers ?s)(k \<mapsto> p4),
            stasks := stasks ?s @ map (Pair k) ts3\<rparr>)
          \<and> (p' = p4 \<or> (\<exists>now e. ReadMessage net now p4 = (p', Inl (Error e))))"
        by (rule Cons.IH) (simp_all add: Cons.prems(2))
      then obtain p4 where
          r4: "(swarm_step env anything)\<^sup>*\<^sup>* ?s (?s\<lparr>sfs := fs', storrent := t', speers := (speers ?s)(k \<mapsto> p4),
            stasks := stasks ?s @ map (Pair k) ts3\<rparr>)"
        and p4: "p' = p4 \<or> (\<exists>now e. ReadMessage net now p4 = (p', Inl (Error e)))" by blast
      then show ?thesis
        using converse_rtranclp_into_rtranclp [of "swarm_step env anything", OF st r4] e(4) p4
        by (intro exI [of _ p4]) (simp del: fun_upd_apply)
    qed
  qed
qed

lemma handlePeer_steps:
  assumes "handlePeer env net rounds (sfs s) (storrent s) p = (fs', t', p', tasks, None)"
    and "listening s k = Some False" and "speers s k = Some p"
  shows "(swarm_step env anything)\<^sup>*\<^sup>* s
    (s\<lparr>sfs := fs', storrent := t', speers := (speers s)(k \<mapsto> p'), listening := (listening s)(k := None),
       stasks := stasks s @ map (Pair k) tasks\<rparr>)"
proof -
  obtain t1 p1 where l: "peer_loop env net rounds (sfs s) (storrent s) p = (fs', t1, p1, tasks, None)"
      and d: "defer_disconnect p1 = (p', None)" and t': "t' = add_active (- 1) t1"
    using assms(1) by (auto simp: handlePeer_def split: prod.splits option.splits)
  obtain p2 where r: "(swarm_step env anything)\<^sup>*\<^sup>* s
      (s\<lparr>sfs := fs', storrent := t1, speers := (speers s)(k \<mapsto> p2), stasks := stasks s @ map (Pair k) tasks\<rparr>)"
      and p2: "p1 = p2 \<or> (\<exists>now e. ReadMessage net now p2 = (p1, Inl (Error e)))"
    using peer_loop_steps [OF l assms(2,3)] by blast
  let ?s = "s\<lparr>sfs := fs', storrent := t1, speers := (speers s)(k \<mapsto> p2), stasks := stasks s @ map (Pair k) tasks\<rparr>"
  have "listening ?s k = Some False" "speers ?s k = Some p2" using assms(2) by simp_all
  from Hangup [OF this, of p1 env anything] p2
  have "swarm_step env anything ?s
      (?s\<lparr>storrent := add_active (- 1) (storrent ?s), speers := (speers ?s)(k \<mapsto> fst (defer_disconnect p1)),
         listening := (listening ?s)(k := None)\<rparr>)" (is "swarm_step env anything ?s ?u") by auto
  with r have "(swarm_step env anything)\<^sup>*\<^sup>* s ?u" by (rule rtranclp.rtrancl_into_rtrancl)
  moreover have "?u = s\<lparr>sfs := fs', storrent := t', speers := (speers s)(k \<mapsto> p'), listening := (listening s)(k := None),
       stasks := stasks s @ map (Pair k) tasks\<rparr>" using d t' by simp
  ultimately show ?thesis by simp
qed

section \<open>When the main loop succeeds\<close>

text \<open>
  The state in which the loop first sees a complete torrent, if it gets there. It succeeds only with that
  state, and only if the verification of that state succeeds.
\<close>

fun first_complete :: "download_event list \<Rightarrow> (fsys \<times> torrent) option" where
  "first_complete (DownloadTick now fs t # events) = (if isComplete t then Some (fs, t) else first_complete events)"
| "first_complete events = None"

lemma first_complete_Some:
  "first_complete events = Some (fs, t) \<Longrightarrow> isComplete t \<and> (\<exists>now. DownloadTick now fs t \<in> set events)"
  by (induction events rule: first_complete.induct) (auto split: if_splits)

lemma download_loop_Inr:
  "download_loop env es = (Some (Inr t'), n) \<Longrightarrow>
     \<exists>fs t. first_complete es = Some (fs, t) \<and> verifyDownload env fs t = (t', Inr ())"
  by (induction env es arbitrary: n rule: download_loop.induct)
    (auto simp: Let_def split: if_splits prod.splits sum.splits fault.splits)

lemma Download_run_Inr:
  assumes "Download_run env t events = (Some (Inr t'), n)"
  obtains fs u where "first_complete events = Some (fs, u)" and "verifyDownload env fs u = (t', Inr ())"
proof -
  from assms have "download_loop env events = (Some (Inr t'), n)"
    by (auto simp: Download_run_def split: sum.splits prod.splits option.splits if_splits)
  from download_loop_Inr [OF this] that show thesis by blast
qed

text \<open>The ticks of the main loop see states of the swarm.\<close>

definition ticks_of :: "os_env \<Rightarrow> peers_may \<Rightarrow> swarm \<Rightarrow> download_event list \<Rightarrow> bool" where
  "ticks_of env may s events \<longleftrightarrow>
     (\<forall>now fs t. DownloadTick now fs t \<in> set events \<longrightarrow>
        (\<exists>s'. (swarm_step env may)\<^sup>*\<^sup>* s s' \<and> sfs s' = fs \<and> storrent s' = t))"

lemma core_start:
  assumes "NewTorrent pid now m = Inr t0"
  shows "core (t0\<lparr>fileManager := fm\<rparr>) = t0\<lparr>fileManager := fm\<rparr>"
  using assms by (auto simp: NewTorrent_def core_def Let_def split: if_splits sum.splits)

definition start_swarm :: "fsys \<Rightarrow> torrent \<Rightarrow> swarm" where
  "start_swarm fs t = \<lparr>sfs = fs, storrent = t, speers = Map.empty, listening = Map.empty, stasks = [], sdials = []\<rparr>"

section \<open>Properties\<close>

text \<open>
  C5: the whole program refines the download. Whatever the interleaving of messages of any number of peers,
  of the goroutines they start, of connections made, lost and cleaned up, and of verifications: the files
  and the pieces take only steps of the transition system in which single blocks are processed and the
  download is verified, and nothing else touches them.
\<close>

theorem swarm_refines_download:
  assumes "(swarm_step env may)\<^sup>*\<^sup>* s s'"
  shows "reaches env may (sfs s, core (storrent s)) (sfs s', core (storrent s'))"
  using assms by (rule swarm_refines)

text \<open>A swarm of one peer, about to send the block that completes the torrent.\<close>

definition block_message :: bytes where
  "block_message = Peer_Correct.frame (MsgPiece, NewPieceMessage 0 0 [1, 2, 3])"

definition one_swarm :: swarm where
  "one_swarm = (start_swarm one_file one_start)
     \<lparr>speers := [0 \<mapsto> on_stream block_message], listening := [0 \<mapsto> False]\<rparr>"

lemma one_swarm_steps:
  obtains s' where "swarm_step healthy in_piece one_swarm s'" and "isComplete (storrent s')"
proof -
  have "message_ok (MsgPiece, NewPieceMessage 0 0 [1, 2, 3])"
    by (simp add: message_ok_def MsgPiece_def NewPieceMessage_shape)
  then obtain p1 where rd: "ReadMessage quiet 0 (on_stream block_message) = (p1, Inr (MsgPiece, NewPieceMessage 0 0 [1, 2, 3]))"
    unfolding block_message_def using ReadMessage_on_stream by blast
  obtain fs' t' r where p: "processPiece healthy one_file one_start 0 0 [1, 2, 3] = (fs', t', r)"
    by (cases "processPiece healthy one_file one_start 0 0 [1, 2, 3]")
  have "good_blocks one_start 0 [[1, 2, 3]]" by (simp add: good_blocks_def one_torrent_def)
  then have f: "flagged t' = {0}"
    using deliver_good [OF one_layout, of 0 "[[1, 2, 3]]" fs' t'] one_flags p by simp
  then have "r = Inr ()" using flagged_by_hash [OF p, of 0] one_flags by simp
  then have h: "handle_message healthy one_file one_start p1 MsgPiece (NewPieceMessage 0 0 [1, 2, 3]) =
      (fs', t', p1, [], None)"
    using handle_piece [of 0 one_start healthy one_file 0 "[1, 2, 3]" fs' t' r p1] p one_flags by simp
  have "in_piece (core one_start) 0 0 [1, 2, 3]" by (simp add: in_piece_def one_torrent_def)
  then have al: "allowed in_piece one_start MsgPiece (NewPieceMessage 0 0 [1, 2, 3])"
    by (simp add: allowed_def NewPieceMessage_shape)
  have c: "isComplete t'"
    using f processPiece_frame [OF p] frame_pieces(1) [of t' one_start] one_flags
    by (auto simp: isComplete_flagged)
  from Message [of one_swarm 0 False "on_stream block_message" quiet 0 p1 MsgPiece _ in_piece healthy fs' t' p1 "[]"]
  show thesis
    using rd h al c by (intro that) (auto simp: one_swarm_def start_swarm_def)
qed

theorem swarm_refines_download_witness:
  "\<exists>s' :: swarm. reaches healthy in_piece (one_file, one_start) (sfs s', core (storrent s')) \<and> isComplete (storrent s')"
proof -
  obtain s' where s: "swarm_step healthy in_piece one_swarm s'" "isComplete (storrent s')" by (rule one_swarm_steps)
  have "core one_start = one_start" by (rule core_start [OF one_torrent_new])
  then show ?thesis
    using swarm_refines_download [OF r_into_rtranclp [of "swarm_step healthy in_piece", OF s(1)]] s(2)
    by - (rule exI [of _ s'], simp add: one_swarm_def start_swarm_def)
qed

text \<open>
  C7: when \<open>Download\<close> returns without an error, its loop looked, for the first time, at a complete torrent,
  and at that moment the disk held bytes with the right hash for every piece of the torrent file and
  \<open>verifyDownload\<close> succeeded, if all blocks the peers sent stayed inside their pieces.
\<close>

theorem successful_download_correct:
  assumes "NewTorrent pid now m = Inr t0"
    and "layout fs (t0\<lparr>fileManager := Some fm\<rparr>) fm"
    and "sfs s = fs" and "storrent s = t0\<lparr>fileManager := Some fm\<rparr>"
    and "ticks_of healthy in_piece s events"
    and "Download_run healthy t0 events = (Some (Inr t'), n)"
  shows "\<exists>s'. first_complete events = Some (sfs s', storrent s') \<and> isComplete (storrent s')
    \<and> (swarm_step healthy in_piece)\<^sup>*\<^sup>* s s'
    \<and> verifyDownload healthy (sfs s') (storrent s') = (t', Inr ())
    \<and> (\<forall>i < nat (NumPieces m). PieceHash m (int i) = Inr (sha1_Sum (piece_bytes (sfs s') (storrent s') fm i)))"
proof -
  obtain gs u where c: "first_complete events = Some (gs, u)" and v: "verifyDownload healthy gs u = (t', Inr ())"
    using Download_run_Inr [OF assms(6)] by blast
  then obtain s' where s': "(swarm_step healthy in_piece)\<^sup>*\<^sup>* s s'" "sfs s' = gs" "storrent s' = u"
    using assms(5) first_complete_Some [OF c] unfolding ticks_of_def by metis
  have "reaches healthy in_piece (fs, t0\<lparr>fileManager := Some fm\<rparr>) (gs, core u)"
    using swarm_refines [OF s'(1)] s'(2,3) assms(3,4) core_start [OF assms(1)] by simp
  from complete_download [OF assms(1,2) this] c v s' first_complete_Some [OF c] show ?thesis
    by (intro exI [of _ s']) simp
qed

theorem successful_download_correct_witness:
  "\<exists>s' :: swarm. \<exists>t' n. (swarm_step healthy in_piece)\<^sup>*\<^sup>* one_swarm s'
    \<and> Download_run healthy one_torrent [DownloadTick 0 one_file one_start, DownloadTick 1 (sfs s') (storrent s')]
        = (Some (Inr t'), n)
    \<and> PieceHash one_meta 0 = Inr (sha1_Sum (piece_bytes (sfs s') (storrent s') one_manager 0))"
proof -
  obtain s' where s: "swarm_step healthy in_piece one_swarm s'" "isComplete (storrent s')" by (rule one_swarm_steps)
  let ?es = "[DownloadTick 0 one_file one_start, DownloadTick 1 (sfs s') (storrent s')]"
  have start: "sfs one_swarm = one_file" "storrent one_swarm = one_start"
    by (simp_all add: one_swarm_def start_swarm_def)
  have "reaches healthy in_piece (one_file, one_start) (sfs s', core (storrent s'))"
    using swarm_refines [OF r_into_rtranclp [of "swarm_step healthy in_piece", OF s(1)]] start core_start [OF one_torrent_new, of "Some one_manager"]
    by simp
  then have "verifyDownload healthy (sfs s') (core (storrent s')) = (core (storrent s'), Inr ())"
    using complete_download [OF one_torrent_new one_layout] s(2) by simp
  then have "snd (verifyDownload healthy (sfs s') (storrent s')) = Inr ()"
    by (simp add: verifyDownload_core)
  then obtain t' where v: "verifyDownload healthy (sfs s') (storrent s') = (t', Inr ())"
    by (cases "verifyDownload healthy (sfs s') (storrent s')") simp
  have not_yet: "\<not> isComplete one_start" by (simp add: isComplete_def one_torrent_def)
  obtain h where "InfoHash one_meta = Inr h" using InfoHash_Inr_iff [of one_meta] by (auto simp: one_meta_def)
  moreover have "metaInfo one_torrent = one_meta" "\<not> progressClosed one_torrent"
      "Downloaded one_start = 0 \<longrightarrow> \<not> 0 - startTime one_start > 5 * time_minute"
    by (simp_all add: one_torrent_def times)
  ultimately obtain n where d: "Download_run healthy one_torrent ?es = (Some (Inr t'), n)"
    using s(2) v not_yet by (auto simp: Download_run_def Let_def)
  have "ticks_of healthy in_piece one_swarm ?es"
    using s(1) start by (auto simp: ticks_of_def)
  from successful_download_correct [OF one_torrent_new one_layout start this d] obtain s'' :: swarm where
      f: "first_complete ?es = Some (sfs s'', storrent s'')"
    and h: "\<forall>i < nat (NumPieces one_meta).
      PieceHash one_meta (int i) = Inr (sha1_Sum (piece_bytes (sfs s'') (storrent s'') one_manager i))" by blast
  have "sfs s'' = sfs s'" "storrent s'' = storrent s'"
    using f s(2) not_yet by simp_all
  moreover have "NumPieces one_meta = 1" by (simp add: NumPieces_def one_meta_def)
  ultimately have "PieceHash one_meta 0 = Inr (sha1_Sum (piece_bytes (sfs s') (storrent s') one_manager 0))"
    using h [rule_format, of 0] by simp
  with s(1) d show ?thesis by blast
qed

end
