(* ===== verification/Client.thy ===== *)
theory Client
  imports Magnet Swarm
begin

text \<open>
  \<open>cmd/bittorrent-client/main.go\<close>: from the command line to a torrent ready to download, and what happens
  when the download is over. What follows for the whole program is at the end.
\<close>

section \<open>Trackers\<close>

definition getUbuntuTrackers :: "bytes list" where
  "getUbuntuTrackers =
     [str ''udp://tracker.opentrackr.org:1337/announce'',
      str ''udp://tracker.openbittorrent.com:6969/announce'',
      str ''udp://tracker.internetwarriors.net:1337/announce'',
      str ''udp://exodus.desync.com:6969/announce'',
      str ''udp://tracker.cyberia.is:6969/announce'',
      str ''udp://open.stealth.si:80/announce'',
      str ''udp://tracker.tiny-vps.com:6969/announce'',
      str ''udp://tracker.moeking.me:6969/announce'',
      str ''udp://opentracker.i2p.rocks:6969/announce'',
      str ''udp://tracker.torrent.eu.org:451/announce'',
      str ''udp://tracker.dler.org:6969/announce'',
      str ''udp://open.demonii.com:1337/announce'',
      str ''http://tracker.openbittorrent.com:80/announce'',
      str ''http://tracker.opentrackr.org:1337/announce'',
      str ''http://tracker.internetwarriors.net:1337/announce'']"

text \<open>A tracker whose URL or host is refused is left out.\<close>

definition add_known ::
  "(bytes \<Rightarrow> url option) \<Rightarrow> (bytes \<Rightarrow> net_error option) \<Rightarrow> bytes \<Rightarrow> bytes \<Rightarrow> multi_tracker \<Rightarrow> bytes \<Rightarrow> multi_tracker"
where
  "add_known parse dial peer_id info_hash mt u =
     (case NewTracker parse dial u peer_id info_hash of Inl e \<Rightarrow> mt | Inr t \<Rightarrow> AddTracker mt t)"

definition client_trackers ::
  "(bytes \<Rightarrow> url option) \<Rightarrow> (bytes \<Rightarrow> net_error option) \<Rightarrow> bytes \<Rightarrow> bytes \<Rightarrow> meta_info \<Rightarrow> multi_tracker" where
  "client_trackers parse dial peer_id info_hash m =
     (let mt = NewMultiTracker peer_id info_hash;
          mt1 = (if Announce m \<noteq> [] then add_known parse dial peer_id info_hash mt (Announce m) else mt)
      in foldl (add_known parse dial peer_id info_hash) mt1 getUbuntuTrackers)"

section \<open>Setting up\<close>

text \<open>Every error of the set-up ends the process; these are the messages it ends with.\<close>

datatype client_exit =
    Usage | BadMagnet magnet_error | UnreadableFile os_error | BadTorrent parse_error
  | NoHash encode_error | FilesNotCreated create_error | TorrentNotCreated new_error

definition client_meta ::
  "(bytes \<Rightarrow> url option) \<Rightarrow> (bytes \<Rightarrow> os_error + bytes) \<Rightarrow> bytes \<Rightarrow> (client_exit, meta_info) go" where
  "client_meta parse read_file input =
     (if take 7 input = str ''magnet:'' then
        (case ParseMagnetLink parse input of
           Inl e \<Rightarrow> Inl (Error (BadMagnet e))
         | Inr magnetInfo \<Rightarrow> Inr (ConvertToMetaInfo magnetInfo))
      else
        (case read_file input of
           Inl e \<Rightarrow> Inl (Error (UnreadableFile e))
         | Inr torrentData \<Rightarrow>
             (case ParseMetaInfo torrentData of
                Inl (Panic p) \<Rightarrow> Inl (Panic p)
              | Inl (Error e) \<Rightarrow> Inl (Error (BadTorrent e))
              | Inr m \<Rightarrow> Inr m)))"

definition client_lengths :: "meta_info \<Rightarrow> int list" where
  "client_lengths m =
     (if length (Files (Info m)) > 0 then map FileLength (Files (Info m)) else [Length (Info m)])"

text \<open>
  What the set-up meets: \<open>url.Parse\<close>, the dialling of UDP sockets, reading a file, the random numbers, and
  the clock. Two peer ids are drawn: one for the trackers, and then one for the handshakes with peers.
\<close>

record surroundings =
  parse_url :: "bytes \<Rightarrow> url option"
  dial_udp :: "bytes \<Rightarrow> net_error option"
  read_file :: "bytes \<Rightarrow> os_error + bytes"
  random_source :: random
  clock :: int

definition GeneratePeerID :: "random \<Rightarrow> bytes \<times> random" where
  "GeneratePeerID src = rand_Read 20 src"

definition tracker_id :: "surroundings \<Rightarrow> bytes" where
  "tracker_id w = fst (GeneratePeerID (random_source w))"

definition own_id :: "surroundings \<Rightarrow> bytes" where
  "own_id w = fst (generatePeerID (snd (GeneratePeerID (random_source w))))"

text \<open>The error of \<open>SetFileManager\<close> is dropped, as in the source.\<close>

definition client_setup ::
  "os_env \<Rightarrow> surroundings \<Rightarrow> fsys \<Rightarrow> bytes list \<Rightarrow> fsys \<times> (client_exit, torrent \<times> multi_tracker) go" where
  "client_setup env w fs args =
     (case args of
        [] \<Rightarrow> (fs, Inl (Error Usage))
      | input # rest \<Rightarrow>
          (case client_meta (parse_url w) (read_file w) input of
             Inl e \<Rightarrow> (fs, Inl e)
           | Inr m \<Rightarrow>
               (case InfoHash m of
                  Inl e \<Rightarrow> (fs, Inl (Error (NoHash e)))
                | Inr infoHash \<Rightarrow>
                    let mt = client_trackers (parse_url w) (dial_udp w) (tracker_id w) infoHash m in
                    (case SetPieceSize (NewFileManager (str ''.'')) (PieceLength (Info m)) of
                       Inl (Panic p) \<Rightarrow> (fs, Inl (Panic p))
                     | Inl (Error e) \<Rightarrow> (fs, Inl (Error e))
                     | Inr fm \<Rightarrow>
                         (case CreateFiles env fs fm (Name (Info m)) (client_lengths m) of
                            (fs1, Some e) \<Rightarrow> (fs1, Inl (Error (FilesNotCreated e)))
                          | (fs1, None) \<Rightarrow>
                              (case NewTorrent (own_id w) (clock w) m of
                                 Inl e \<Rightarrow> (fs1, Inl (Error (TorrentNotCreated e)))
                               | Inr t \<Rightarrow>
                                   (case SetFileManager env fs1 t fm of
                                      (fs2, t', Inl (Panic p)) \<Rightarrow> (fs2, Inl (Panic p))
                                    | (fs2, t', _) \<Rightarrow> (fs2, Inr (t', mt)))))))))"

text \<open>
  After the download: whether the DHT is tried once more, and closing the files of the manager that the
  torrent shares.
\<close>

definition client_end ::
  "os_env \<Rightarrow> torrent \<Rightarrow> (download_failure, torrent) go \<Rightarrow> bool \<times> (os_error, unit) go" where
  "client_end env t r =
     (case r of
        Inl (Panic p) \<Rightarrow> (False, Inl (Panic p))
      | _ \<Rightarrow>
          ((case r of Inl (Error e) \<Rightarrow> e \<noteq> ContextError | _ \<Rightarrow> False),
           (case fileManager t of None \<Rightarrow> Inl (Panic NilDereference) | Some fm \<Rightarrow> snd (Close_Manager env fm))))"

section \<open>The set-up\<close>

text \<open>The trackers and the peers are told different ids: bytes 0 to 19 and 20 to 39 of the random numbers.\<close>

lemma peer_ids:
  "tracker_id w = map (random_source w) [0..<20]" "own_id w = map (random_source w) [20..<40]"
  by (simp_all add: tracker_id_def own_id_def GeneratePeerID_def generatePeerID_def rand_Read_def upt_rec)

lemma SetFileManager_result:
  assumes "SetFileManager env fs t fm = (fs', t', r)" and "PieceLength (Info (metaInfo t)) \<noteq> 0"
  shows "(\<exists>fm'. t' = t\<lparr>fileManager := Some fm'\<rparr>) \<and> r \<noteq> Inl (Panic p)"
  using assms
  by (auto simp: SetFileManager_def SetPieceSize_def SetTotalLength_def split: prod.splits option.splits)

lemma parse_no_panic: "ParseMetaInfo data \<noteq> Inl (Panic p)"
proof -
  have "string_maps MetaInfoType" by (simp add: MetaInfoType_def InfoDictType_def FileEntryType_def)
  from populate_no_panic(1) [OF this] show ?thesis
    by (auto simp: ParseMetaInfo_def Unmarshal_def Let_def split: sum.splits fault.splits)
qed

lemma client_meta_piece_length: "client_meta parse rd input = Inr m \<Longrightarrow> PieceLength (Info m) \<noteq> 0"
  by (auto simp: client_meta_def ConvertToMetaInfo_def split: if_splits sum.splits fault.splits elim: ParseMetaInfo_Inr)

lemma client_setup_Inr:
  assumes "client_setup env w fs (input # rest) = (fs', Inr (t, mt))"
  obtains m t0 fs1 fm0 r where "client_meta (parse_url w) (read_file w) input = Inr m"
    and "NewTorrent (own_id w) (clock w) m = Inr t0" and "SetFileManager env fs1 t0 fm0 = (fs', t, r)"
  using assms that
  by (auto simp: client_setup_def Let_def SetPieceSize_def
      split: sum.splits fault.splits option.splits prod.splits if_splits)

section \<open>Torrents without a length\<close>

text \<open>The keys a torrent file would have to use for its length to be read.\<close>

definition tagged_length :: "bytes \<Rightarrow> bool" where
  "tagged_length data =
     (case decodeValue data of
        Inr (BDict root, _) \<Rightarrow>
          (case map_of root (str ''info'') of
             Some (BDict info) \<Rightarrow>
               map_of info (str ''length,omitempty'') \<noteq> None \<or> map_of info (str ''files,omitempty'') \<noteq> None
           | _ \<Rightarrow> False)
      | _ \<Rightarrow> False)"

lemma no_length:
  assumes "client_meta parse rd input = Inr m"
    and "take 7 input = str ''magnet:'' \<or> (\<exists>data. rd input = Inr data \<and> \<not> tagged_length data)"
  shows "Length (Info m) = 0 \<and> Files (Info m) = []"
proof (cases "take 7 input = str ''magnet:''")
  case True
  then show ?thesis
    using assms(1) by (auto simp: client_meta_def ConvertToMetaInfo_def split: sum.splits)
next
  case False
  with assms obtain data where data: "rd input = Inr data" "\<not> tagged_length data" by blast
  with False assms(1) have p: "ParseMetaInfo data = Inr m"
    by (auto simp: client_meta_def split: sum.splits fault.splits)
  then show ?thesis
    by (rule ParseMetaInfo_Inr) (use data(2) in \<open>auto simp: tagged_length_def dict_int_def\<close>)
qed

text \<open>Files of declared length zero: nothing is ever written into them.\<close>

definition empty_entry :: "file_info option \<Rightarrow> bool" where
  "empty_entry e = (case e of None \<Rightarrow> True | Some f \<Rightarrow> FLength f = 0)"

lemma write_loop_empty: "list_all empty_entry fis \<Longrightarrow> fst (write_loop env i fis off data fs) = fs"
proof (induction env i fis off data fs rule: write_loop.induct)
  case (3 env i f fis off data fs)
  then have z: "FLength f = 0" by (simp add: empty_entry_def)
  show ?case
  proof (cases "0 \<le> off")
    case True
    with 3 z show ?thesis by simp
  next
    case False
    then have "\<exists>e. WriteAt env fs (File f) d off = (fs, Some e)" for d
      by (simp add: WriteAt_def)
    with False z show ?thesis by (auto simp: Let_def split: prod.splits option.splits) (metis prod.inject option.distinct(1))+
  qed
qed simp_all

lemma processPiece_empty:
  assumes "processPiece env fs t i b d = (fs', t', r)" and "fileManager t = Some fm" and "list_all empty_entry (files fm)"
  shows "fs' = fs"
  using assms write_loop_empty [OF assms(3), of env 0 _ d fs]
  by (auto simp: processPiece_def WritePiece_def Let_def split: if_splits sum.splits fault.splits prod.splits)
    (metis fst_conv)+

lemma reaches_empty:
  assumes "reaches env may (fs, t) (fs', t')" and "fileManager t = Some fm" and "list_all empty_entry (files fm)"
  shows "fs' = fs"
proof -
  have "fs' = fs \<and> fileManager t' = Some fm"
  proof (rule reaches_invariant [OF assms(1)])
    fix gs u gs' u'
    assume inv: "gs = fs \<and> fileManager u = Some fm" and st: "torrent_step env may (gs, u) (gs', u')"
    from st have "gs' = gs"
    proof (cases rule: torrent_step.cases)
      case (Block i b d r)
      then show ?thesis using processPiece_empty [OF Block(2)] inv assms(3) by simp
    qed simp
    then show "gs' = fs \<and> fileManager u' = Some fm"
      using inv frame_pieces(2) [OF step_frame(1) [OF st]] by simp
  qed (use assms(2) in simp)
  then show ?thesis by simp
qed

lemma SetFileManager_empty:
  assumes "SetFileManager env fs t fm = (fs', t', r)" and "Length (Info (metaInfo t)) = 0" and "Files (Info (metaInfo t)) = []"
  shows "\<exists>fm'. t' = t\<lparr>fileManager := Some fm'\<rparr> \<and> list_all empty_entry (files fm')"
  using assms
  by (auto simp: SetFileManager_def Initialize_def torrent_files_def SetPieceSize_def SetTotalLength_def Let_def
      empty_entry_def split: prod.splits option.splits sum.splits if_splits)

section \<open>Properties\<close>

text \<open>
  C10: an ordinary torrent file, and any magnet link, downloads nothing. Its length is never read (only a
  file with the keys \<open>length,omitempty\<close> or \<open>files,omitempty\<close> would have one), so after the set-up, whatever
  the peers send, in whatever order, and whatever the system does: no byte is ever written to disk, and the
  download completes only if the last piece's hash is the SHA-1 of no bytes.
\<close>

theorem client_downloads_nothing:
  assumes "client_setup env w fs (input # rest) = (fs', Inr (t, mt))"
    and "take 7 input = str ''magnet:'' \<or> (\<exists>data. read_file w input = Inr data \<and> \<not> tagged_length data)"
    and "(swarm_step env anything)\<^sup>*\<^sup>* (start_swarm fs' t) s"
  shows "sfs s = fs' \<and> TotalLength (metaInfo t) = 0
    \<and> (\<not> isComplete (storrent s) \<or> PieceHash (metaInfo t) (NumPieces (metaInfo t) - 1) = Inr (sha1_Sum []))"
proof -
  obtain m t0 fs1 fm0 r where m: "client_meta (parse_url w) (read_file w) input = Inr m"
    and t0: "NewTorrent (own_id w) (clock w) m = Inr t0" and sf: "SetFileManager env fs1 t0 fm0 = (fs', t, r)"
    using client_setup_Inr [OF assms(1)] by metis
  note zero = no_length [OF m assms(2)]
  then have tl: "TotalLength m = 0" by (simp add: TotalLength_def)
  have meta: "metaInfo t0 = m" using NewTorrent_Inr(1) [OF t0] .
  then obtain fm where t: "t = t0\<lparr>fileManager := Some fm\<rparr>" and em: "list_all empty_entry (files fm)"
    using SetFileManager_empty [OF sf] zero by auto
  have r: "reaches env anything (fs', t) (sfs s, core (storrent s))"
    using swarm_refines [OF assms(3)] core_start [OF t0, of "Some fm"] by (simp add: start_swarm_def t)
  have "sfs s = fs'" by (rule reaches_empty [OF r _ em]) (simp add: t)
  moreover have "PieceHash m (NumPieces m - 1) = Inr (sha1_Sum [])" if "isComplete (storrent s)"
    using last_piece_empty [OF t0 _ r [unfolded t]] that tl by simp
  ultimately show ?thesis using tl meta t by auto
qed

definition demo_surroundings :: surroundings where
  "demo_surroundings =
     \<lparr>parse_url = (\<lambda>u. None), dial_udp = (\<lambda>h. None), read_file = (\<lambda>f. Inr sample_torrent),
      random_source = (\<lambda>k. of_nat k), clock = 0\<rparr>"

definition demo_meta :: meta_info where
  "demo_meta = \<lparr>Announce = [], Info =
     \<lparr>PieceLength = 4, Pieces = str ''1234567890abcdefghij1234567890abcdefghij'', Name = str ''x'',
      Length = 0, Files = []\<rparr>\<rparr>"

lemma setup_from_nothing:
  assumes m: "client_meta (parse_url w) (read_file w) input = Inr m" and x: "Name (Info m) = str ''x''"
    and pl: "PieceLength (Info m) \<noteq> 0" and n: "client_lengths m = [n]" "0 \<le> n"
    and t0: "NewTorrent (own_id w) (clock w) m = Inr t0"
  shows "\<exists>fs' t mt. client_setup healthy w Map.empty (input # rest) = (fs', Inr (t, mt)) \<and> metaInfo t = m"
proof -
  obtain h where h: "InfoHash m = Inr h" using t0 by (auto simp: NewTorrent_def Let_def split: if_splits sum.splits)
  obtain fm where fm: "SetPieceSize (NewFileManager (str ''.'')) (PieceLength (Info m)) = (Inr fm :: (client_exit, file_manager) go)"
      and base: "baseDir fm = str ''.''"
    using pl by (simp add: SetPieceSize_def NewFileManager_def)
  have cp: "created_path (str ''.'') (str ''x'') 0 = (False, [str ''x''])"
    by (simp add: created_path_def Join_dot_x)
  have "snd (CreateFiles healthy Map.empty fm (Name (Info m)) (client_lengths m)) = None"
    using n(2) by (simp add: CreateFiles_def base x n(1) cp Dir_def MkdirAll_def CreateFile_def
        new_file_def node_at_def Truncate_def open_contents_def Let_def)
  then obtain fs1 where c: "CreateFiles healthy Map.empty fm (Name (Info m)) (client_lengths m) = (fs1, None)"
    by (cases "CreateFiles healthy Map.empty fm (Name (Info m)) (client_lengths m)") simp
  obtain fs2 t' r where sf: "SetFileManager healthy fs1 t0 fm = (fs2, t', r)" by (cases "SetFileManager healthy fs1 t0 fm") auto
  have meta: "metaInfo t0 = m" by (rule NewTorrent_Inr(1) [OF t0])
  then have res: "(\<exists>fm'. t' = t0\<lparr>fileManager := Some fm'\<rparr>) \<and> r \<noteq> Inl (Panic p)" for p
    using SetFileManager_result [OF sf] pl by simp
  then obtain fm' where "t' = t0\<lparr>fileManager := Some fm'\<rparr>" by blast
  then have "metaInfo t' = m" using meta by simp
  moreover have "client_setup healthy w Map.empty (input # rest) =
      (fs2, Inr (t', client_trackers (parse_url w) (dial_udp w) (tracker_id w) h m))"
    using res by (simp add: client_setup_def m h fm c t0 sf Let_def split: sum.splits fault.splits)
  ultimately show ?thesis by blast
qed

lemma demo_setup:
  "\<exists>fs' t mt. client_setup healthy demo_surroundings Map.empty (str ''x.torrent'' # rest) = (fs', Inr (t, mt))
    \<and> metaInfo t = demo_meta"
proof -
  have m: "client_meta (parse_url demo_surroundings) (read_file demo_surroundings) (str ''x.torrent'') = Inr demo_meta"
    using sample_parses by (simp add: client_meta_def demo_surroundings_def demo_meta_def) (simp add: str_def asc_def)
  obtain h where h: "InfoHash demo_meta = Inr h" using InfoHash_Inr_iff [of demo_meta] by (auto simp: demo_meta_def)
  have "NumPieces demo_meta = 2" by (simp add: NumPieces_def demo_meta_def)
  moreover have "\<exists>ps. make_pieces demo_meta [0..<2] = Inr ps"
    using calculation by (simp add: numeral_2_eq_2 PieceHash_def Let_def)
  ultimately obtain t0 where "NewTorrent (own_id demo_surroundings) (clock demo_surroundings) demo_meta = Inr t0"
    using h by (auto simp: NewTorrent_def Let_def)
  from setup_from_nothing [OF m _ _ _ _ this, of 0 rest] show ?thesis
    by (auto simp: demo_meta_def client_lengths_def)
qed

theorem client_downloads_nothing_witness:
  "\<exists>fs' t mt. client_setup healthy demo_surroundings Map.empty [str ''x.torrent''] = (fs', Inr (t, mt))
    \<and> TotalLength (metaInfo t) = 0"
proof -
  obtain fs' t mt where s: "client_setup healthy demo_surroundings Map.empty [str ''x.torrent''] = (fs', Inr (t, mt))"
    using demo_setup by blast
  have "\<not> tagged_length sample_torrent"
    by (simp add: tagged_length_def sample_decodes sample_info_def) (simp add: str_def asc_def)
  then have "take 7 (str ''x.torrent'') = str ''magnet:'' \<or>
      (\<exists>data. read_file demo_surroundings (str ''x.torrent'') = Inr data \<and> \<not> tagged_length data)"
    by (simp add: demo_surroundings_def)
  from client_downloads_nothing [OF s this rtranclp.rtrancl_refl] s show ?thesis by blast
qed

text \<open>
  The set-up never panics, whatever the command line, the torrent file or magnet link, the network and
  the file system are; it ends with a torrent or with one of the errors it reports.
\<close>

lemma client_setup_no_panic:
  "snd (client_setup env w fs args) \<noteq> Inl (Panic p)"
proof (cases args)
  case (Cons input rest)
  show ?thesis
  proof (cases "client_meta (parse_url w) (read_file w) input")
    case (Inl e)
    then show ?thesis using parse_no_panic
      by (auto simp: Cons client_setup_def client_meta_def split: if_splits sum.splits fault.splits)
  next
    case (Inr m)
    note pl = client_meta_piece_length [OF Inr]
    have sf: "r \<noteq> Inl (Panic p)" if "NewTorrent (own_id w) (clock w) m = Inr t" "SetFileManager env fs1 t fm = (fs2, t', r)"
      for t fs1 fm fs2 t' r
      using SetFileManager_result [OF that(2)] NewTorrent_Inr(1) [OF that(1)] pl by simp
    show ?thesis
      using pl by (auto simp: Cons client_setup_def Inr Let_def SetPieceSize_def
          split: sum.splits option.splits prod.splits fault.splits dest: sf)
  qed
qed (simp add: client_setup_def)

end
