(* ===== verification/Command.thy ===== *)
theory Command
  imports Client LogUtil
begin

text \<open>
  \<open>main\<close> of \<open>cmd/bittorrent-client/main.go\<close> as a whole: the flags, the level of the log, the set-up, the
  download, and the end of the process.
\<close>

section \<open>Flags\<close>

text \<open>
  \<open>flag.Parse\<close> for the one flag there is, \<open>debug\<close>. It stops at the first argument that is not a flag, and
  ends the process on \<open>-h\<close>, \<open>-help\<close> and whatever it does not know.
\<close>

datatype flag_exit = HelpRequested | BadFlag

definition ParseBool :: "bytes \<Rightarrow> bool option" where
  "ParseBool s =
     (if s \<in> {str ''1'', str ''t'', str ''T'', str ''true'', str ''TRUE'', str ''True''} then Some True
      else if s \<in> {str ''0'', str ''f'', str ''F'', str ''false'', str ''FALSE'', str ''False''} then Some False
      else None)"

definition split_flag :: "bytes \<Rightarrow> bytes \<times> bytes option" where
  "split_flag name =
     (case read_until (asc (CHR ''='')) name of
        None \<Rightarrow> (name, None)
      | Some (n, v) \<Rightarrow> (n, Some v))"

fun parse_flags :: "bool \<Rightarrow> bytes list \<Rightarrow> flag_exit + bool \<times> bytes list" where
  "parse_flags debug [] = Inr (debug, [])"
| "parse_flags debug (s # args) =
     (if length s < 2 \<or> hd s \<noteq> asc (CHR ''-'') then Inr (debug, s # args)
      else if s = str ''--'' then Inr (debug, args)
      else
        let name = (if s ! 1 = asc (CHR ''-'') then drop 2 s else drop 1 s) in
        if name = [] \<or> hd name = asc (CHR ''-'') \<or> hd name = asc (CHR ''='') then Inl BadFlag
        else
          (case split_flag name of
             (flag, v) \<Rightarrow>
               if flag = str ''debug'' then
                 (case v of
                    None \<Rightarrow> parse_flags True args
                  | Some w \<Rightarrow> (case ParseBool w of None \<Rightarrow> Inl BadFlag | Some b \<Rightarrow> parse_flags b args))
               else if flag = str ''help'' \<or> flag = str ''h'' then Inl HelpRequested
               else Inl BadFlag))"

section \<open>The main function\<close>

text \<open>
  How a run ends: with an exit code, with a panic, or with the line that names the file said to have been
  saved; or the download is still going on.
\<close>

datatype main_result = Exit nat | Panicked go_panic | Downloading | SavedTo path

definition output_path :: "bytes list \<Rightarrow> path" where
  "output_path args = Join (str ''.'') (case args of input # out # rest \<Rightarrow> out | _ \<Rightarrow> str ''output'')"

definition client_main ::
  "os_env \<Rightarrow> surroundings \<Rightarrow> fsys \<Rightarrow> bytes list \<Rightarrow> download_event list \<Rightarrow> log_state \<times> main_result" where
  "client_main env w fs argv events =
     (case parse_flags False argv of
        Inl HelpRequested \<Rightarrow> (initial_log, Exit 0)
      | Inl BadFlag \<Rightarrow> (initial_log, Exit 2)
      | Inr (debug, args) \<Rightarrow>
          (SetLevel (if debug then LevelDebug else LevelInfo) initial_log,
           (case client_setup env w fs args of
              (fs1, Inl (Panic p)) \<Rightarrow> Panicked p
            | (fs1, Inl (Error e)) \<Rightarrow> Exit 1
            | (fs1, Inr (t, mt)) \<Rightarrow>
                (case Download_run env t events of
                   (None, n) \<Rightarrow> Downloading
                 | (Some r, n) \<Rightarrow>
                     (case client_end env t r of
                        (dht, Inl (Panic p)) \<Rightarrow> Panicked p
                      | (dht, _) \<Rightarrow> SavedTo (output_path args))))))"

end
