(* ===== verification/Program.thy ===== *)
theory Program
  imports Command Connections_Correct
begin

text \<open>
  The program as a whole: what the files on disk are after the set-up, when the download has
  succeeded, and that it can succeed; and \<open>main\<close> from its flags to the last line it prints.
\<close>

section \<open>The files of a plain torrent\<close>

text \<open>A torrent of one file whose length is known and whose pieces fit in it.\<close>

definition plain_torrent :: "meta_info \<Rightarrow> bool" where
  "plain_torrent m \<longleftrightarrow>
     Files (Info m) = [] \<and> 0 < Length (Info m) \<and> in_i64 (Length (Info m))
     \<and> 0 < PieceLength (Info m) \<and> PieceLength (Info m) \<le> int max_rw
     \<and> (NumPieces m - 1) * PieceLength (Info m) + Length (Info m) mod PieceLength (Info m) \<le> Length (Info m)"

definition the_path :: "meta_info \<Rightarrow> path" where
  "the_path m = Join (str ''.'') (Name (Info m))"

definition piece_of :: "meta_info \<Rightarrow> bytes \<Rightarrow> nat \<Rightarrow> bytes" where
  "piece_of m content i =
     take (nat (calculatePieceLength m (int i))) (drop (i * nat (PieceLength (Info m))) content)"

text \<open>A file is what the torrent file describes when length and hashes agree.\<close>

definition described :: "meta_info \<Rightarrow> bytes \<Rightarrow> bool" where
  "described m content \<longleftrightarrow>
     int (length content) = Length (Info m)
     \<and> (\<forall>i < nat (NumPieces m). PieceHash m (int i) = Inr (sha1_Sum (piece_of m content i)))"

lemma plain_lengths:
  assumes "plain_torrent m" and "0 \<le> i" and "i < NumPieces m"
  shows "0 \<le> calculatePieceLength m i" and "calculatePieceLength m i \<le> PieceLength (Info m)"
    and "i * PieceLength (Info m) + calculatePieceLength m i \<le> Length (Info m)"
proof -
  let ?p = "PieceLength (Info m)" and ?n = "Length (Info m)"
  have p: "0 < ?p" "0 < ?n" and le: "(NumPieces m - 1) * ?p + ?n mod ?p \<le> ?n"
    using assms(1) by (simp_all add: plain_torrent_def)
  have md: "?n smod ?p = ?n mod ?p" using p by (simp add: signed_modulo_int_def sgn_if)
  have c: "calculatePieceLength m i = (if i = NumPieces m - 1 then ?n mod ?p else ?p)"
    using p md by (simp add: calculatePieceLength_def TotalLength_def)
  have m: "0 \<le> ?n mod ?p" "?n mod ?p < ?p" using p by simp_all
  show "0 \<le> calculatePieceLength m i" "calculatePieceLength m i \<le> ?p"
    using c m p by (simp_all add: less_imp_le)
  show "i * ?p + calculatePieceLength m i \<le> ?n"
  proof (cases "i = NumPieces m - 1")
    case False
    then have "(i + 1) * ?p \<le> (NumPieces m - 1) * ?p" using assms(3) p by (intro mult_right_mono) simp_all
    with c False le m show ?thesis by (simp add: algebra_simps)
  qed (use c le in simp)
qed

lemma SetFileManager_Initialize:
  assumes "SetFileManager env fs t fm = (fs', t', r)"
  obtains fm2 e fm' where "Initialize env fs fm (torrent_files (metaInfo t)) = (fs', fm2, e)"
    and "t' = t\<lparr>fileManager := Some fm'\<rparr>" and "files fm' = files fm2"
  using assms
  by (auto simp: SetFileManager_def SetPieceSize_def SetTotalLength_def
      split: prod.splits option.splits sum.splits if_splits)

text \<open>Once the file is allocated at its length, \<open>SetFileManager\<close> leaves the room every piece needs.\<close>

lemma SetFileManager_layout:
  assumes t0: "NewTorrent pid now m = Inr t0" and plain: "plain_torrent m"
    and ini: "Initialize healthy fs fm0 (torrent_files m) = (fs, fm2, None)"
    and al: "allocated fs fm2" and dk: "disk fs fm2 = replicate (nat (Length (Info m))) 0"
  obtains fm where "SetFileManager healthy fs t0 fm0 = (fs, t0\<lparr>fileManager := Some fm\<rparr>, Inr ())"
    and "layout fs (t0\<lparr>fileManager := Some fm\<rparr>) fm" and "files fm = files fm2"
    and "pieceSize fm = PieceLength (Info m)"
proof -
  define pl n where "pl = PieceLength (Info m)" and "n = Length (Info m)"
  define fm where "fm = fm2\<lparr>pieceSize := pl, totalLength := n, numPieces := count_pieces n pl\<rparr>"
  have pt: "0 < n" "0 < pl" "pl \<le> int max_rw" using plain by (simp_all add: plain_torrent_def pl_def n_def)
  have mm: "metaInfo t0 = m" using NewTorrent_Inr(1) [OF t0] .
  have "TotalLength m = n" using pt(1) by (simp add: TotalLength_def n_def)
  then have sf: "SetFileManager healthy fs t0 fm0 = (fs, t0\<lparr>fileManager := Some fm\<rparr>, Inr ())"
    using ini pt(2) by (simp add: SetFileManager_def SetPieceSize_def SetTotalLength_def mm fm_def flip: pl_def)
  have d: "disk fs fm = replicate (nat n) 0" using dk by (simp add: disk_def fm_def n_def)
  have fm: "pieceSize fm = pl" "int (length (disk fs fm)) = n" using pt(1) d by (simp_all add: fm_def)
  have "0 \<le> PLength (TPieces t0 ! i) \<and> PLength (TPieces t0 ! i) \<le> pieceSize fm
      \<and> PLength (TPieces t0 ! i) \<le> int max_rw \<and> int i * pieceSize fm + PLength (TPieces t0 ! i) \<le> int (length (disk fs fm))"
    if "i < length (TPieces t0)" for i
  proof -
    have "PLength (TPieces t0 ! i) = calculatePieceLength m (int i)" "int i < NumPieces m"
      using that NewTorrent_Inr(3,4) [OF t0] by auto
    with plain_lengths [OF plain _, of "int i"] pt show ?thesis by (simp add: fm flip: pl_def n_def)
  qed
  moreover have "allocated fs fm" using al pt(2) by (simp add: allocated_def fm_def disk_def)
  ultimately have "layout fs (t0\<lparr>fileManager := Some fm\<rparr>) fm" by (simp add: layout_def)
  with sf fm(1) that show thesis by (simp add: fm_def pl_def)
qed

text \<open>The set-up as a sequence of three steps, and what it does for a torrent of one file on a healthy system.\<close>

definition client_manager :: "meta_info \<Rightarrow> file_manager" where
  "client_manager m = NewFileManager (str ''.'')
     \<lparr>pieceSize := PieceLength (Info m), numPieces := count_pieces 0 (PieceLength (Info m))\<rparr>"

lemma client_manager_fields [simp]:
  "baseDir (client_manager m) = str ''.''" "pieceSize (client_manager m) = PieceLength (Info m)"
  "files (client_manager m) = []"
  by (simp_all add: client_manager_def NewFileManager_def)

lemma client_setup_steps:
  assumes "client_setup env w fs (input # rest) = (fs', Inr (t, mt))"
  obtains fs1 t0 fm r where "NewTorrent (own_id w) (clock w) (metaInfo t) = Inr t0" and "metaInfo t0 = metaInfo t"
    and "t = t0\<lparr>fileManager := Some fm\<rparr>"
    and "CreateFiles env fs (client_manager (metaInfo t)) (Name (Info (metaInfo t))) (client_lengths (metaInfo t)) = (fs1, None)"
    and "SetFileManager env fs1 t0 (client_manager (metaInfo t)) = (fs', t, r)"
proof -
  from assms obtain m fs1 t0 r where
      c: "CreateFiles env fs (client_manager m) (Name (Info m)) (client_lengths m) = (fs1, None)"
    and t0: "NewTorrent (own_id w) (clock w) m = Inr t0"
    and sf: "SetFileManager env fs1 t0 (client_manager m) = (fs', t, r)"
    by (auto simp: client_setup_def Let_def SetPieceSize_def NewFileManager_def client_manager_def
        split: sum.splits fault.splits option.splits prod.splits if_splits)
  obtain fm where t: "t = t0\<lparr>fileManager := Some fm\<rparr>" by (rule SetFileManager_Initialize [OF sf])
  then have "metaInfo t = m" "metaInfo t0 = m" using NewTorrent_Inr(1) [OF t0] by simp_all
  with that c t0 sf t show thesis by metis
qed

lemma client_setup_single:
  assumes "client_setup healthy w fs (input # rest) = (fs', Inr (t, mt))" and "Files (Info (metaInfo t)) = []"
    and "in_i64 (Length (Info (metaInfo t)))" and "0 \<le> PieceLength (Info (metaInfo t))"
  obtains fm t0 fm2 r where "NewTorrent (own_id w) (clock w) (metaInfo t) = Inr t0" and "t = t0\<lparr>fileManager := Some fm\<rparr>"
    and "Initialize healthy fs' (client_manager (metaInfo t)) (torrent_files (metaInfo t)) = (fs', fm2, None)"
    and "SetFileManager healthy fs' t0 (client_manager (metaInfo t)) = (fs', t, r)"
    and "allocated fs' fm2" and "disk fs' fm2 = replicate (nat (Length (Info (metaInfo t)))) 0"
    and "files fm = [open_entry (the_path (metaInfo t)) (Length (Info (metaInfo t)))]" and "files fm2 = files fm"
proof -
  let ?m = "metaInfo t" and ?n = "Length (Info (metaInfo t))"
  let ?fm0 = "client_manager ?m"
  obtain fs1 t0 fm r where t0: "NewTorrent (own_id w) (clock w) ?m = Inr t0" and mm: "metaInfo t0 = ?m"
      and t: "t = t0\<lparr>fileManager := Some fm\<rparr>"
      and c: "CreateFiles healthy fs ?fm0 (Name (Info ?m)) (client_lengths ?m) = (fs1, None)"
      and sf: "SetFileManager healthy fs1 t0 ?fm0 = (fs', t, r)"
    using client_setup_steps [OF assms(1)] by metis
  have path: "Join (baseDir ?fm0) (Name (Info ?m)) = the_path ?m" by (simp add: the_path_def)
  have cr: "CreateFiles healthy fs ?fm0 (Name (Info ?m)) [?n] = (fs1, None)"
    using c assms(2) by (simp add: client_lengths_def)
  obtain fs0 where pre: "MkdirAll healthy fs (Dir (the_path ?m)) = (fs0, None)" "snd (the_path ?m) \<noteq> []"
      "fs (the_path ?m) \<noteq> Some DirNode" "0 \<le> ?n"
    using CreateFiles_single [OF cr, unfolded path] by metis
  have n: "in_i64 (int (nat ?n))" "int (nat ?n) = ?n" using pre(4) assms(3) by simp_all
  with create_then_initialize [of fs ?fm0 "Name (Info ?m)" fs0 "nat ?n"] pre assms(4) cr path obtain fm2 where
      ini: "Initialize healthy fs1 ?fm0 [\<lparr>TPath = Name (Info ?m), TLength = ?n\<rparr>] = (fs1, fm2, None)"
    and al: "allocated fs1 fm2" and dk: "disk fs1 fm2 = replicate (nat ?n) 0"
    and fl: "files fm2 = [open_entry (the_path ?m) ?n]"
    by auto
  have tf: "torrent_files ?m = [\<lparr>TPath = Name (Info ?m), TLength = ?n\<rparr>]"
    using assms(2) by (simp add: torrent_files_def)
  obtain fm3 e fm' where i': "Initialize healthy fs1 ?fm0 (torrent_files ?m) = (fs', fm3, e)"
      and t': "t = t0\<lparr>fileManager := Some fm'\<rparr>" "files fm' = files fm3"
    using SetFileManager_Initialize [OF sf] mm by metis
  have "Some fm = Some fm'"
    using arg_cong [OF t, of fileManager] arg_cong [OF t'(1), of fileManager] by simp
  then have eqs: "fs' = fs1" "files fm = files fm2" using i' t'(2) ini tf by simp_all
  show thesis
    by (rule that [OF t0 t ini [folded tf eqs(1)] sf [folded eqs(1)] al [folded eqs(1)] dk [folded eqs(1)]
          fl [folded eqs(2)] eqs(2) [symmetric]])
qed

lemma client_setup_layout:
  assumes "client_setup healthy w fs (input # rest) = (fs', Inr (t, mt))" and "plain_torrent (metaInfo t)"
  obtains fm t0 where "NewTorrent (own_id w) (clock w) (metaInfo t) = Inr t0" and "t = t0\<lparr>fileManager := Some fm\<rparr>"
    and "layout fs' t fm" and "files fm = [open_entry (the_path (metaInfo t)) (Length (Info (metaInfo t)))]"
    and "pieceSize fm = PieceLength (Info (metaInfo t))"
proof -
  let ?m = "metaInfo t"
  have pt: "Files (Info ?m) = []" "in_i64 (Length (Info ?m))" "0 \<le> PieceLength (Info ?m)"
    using assms(2) by (simp_all add: plain_torrent_def)
  obtain fm1 t0 fm2 r where t0: "NewTorrent (own_id w) (clock w) ?m = Inr t0" and t: "t = t0\<lparr>fileManager := Some fm1\<rparr>"
    and ini: "Initialize healthy fs' (client_manager ?m) (torrent_files ?m) = (fs', fm2, None)"
    and sf: "SetFileManager healthy fs' t0 (client_manager ?m) = (fs', t, r)"
    and al: "allocated fs' fm2" and dk: "disk fs' fm2 = replicate (nat (Length (Info ?m))) 0"
    and fl: "files fm2 = [open_entry (the_path ?m) (Length (Info ?m))]"
    using client_setup_single [OF assms(1) pt] by metis
  obtain fm where f: "SetFileManager healthy fs' t0 (client_manager ?m) = (fs', t0\<lparr>fileManager := Some fm\<rparr>, Inr ())"
      "layout fs' (t0\<lparr>fileManager := Some fm\<rparr>) fm" "files fm = files fm2" "pieceSize fm = PieceLength (Info ?m)"
    using SetFileManager_layout [OF t0 assms(2) ini al dk] by metis
  then have "t = t0\<lparr>fileManager := Some fm\<rparr>" using sf by simp
  with that [OF t0 this] f fl show thesis by simp
qed

section \<open>What a successful download leaves on disk\<close>

lemma single_disk:
  assumes "allocated fs fm" and "files fm = [open_entry p n]"
  obtains content where "fs p = Some (FileNode content)" and "disk fs fm = content" and "int (length content) = n"
proof -
  have "entry_ok fs (open_entry p n)" using assms by (simp add: allocated_def)
  then obtain content where "fs p = Some (FileNode content)" "int (length content) = n"
    by (auto simp: open_entry_def split: option.splits node.splits)
  with that show thesis using assms(2) by (auto simp: disk_def open_entry_def)
qed

lemma piece_bytes_of:
  assumes "Torrent_Correct.frame t = Torrent_Correct.frame (t0\<lparr>fileManager := Some fm\<rparr>)" and "NewTorrent pid now m = Inr t0"
    and "i < length (TPieces t)" and "pieceSize fm = PieceLength (Info m)" and "0 \<le> PieceLength (Info m)"
  shows "piece_bytes fs t fm i = piece_of m (disk fs fm) i"
proof -
  have "i < length (TPieces t0)" using frame_pieces(1) [OF assms(1)] assms(3) by simp
  then have "PLength (TPieces t ! i) = calculatePieceLength m (int i)"
    using frame_pieces(3) [OF assms(1), of i] NewTorrent_Inr(4) [OF assms(2), of i] by simp
  moreover have "nat (int i * PieceLength (Info m)) = i * nat (PieceLength (Info m))"
    using assms(5) by (simp add: nat_mult_distrib)
  ultimately show ?thesis by (simp add: piece_bytes_def piece_of_def addr_pos_def assms(4))
qed

text \<open>
  In every state of the swarm the file is there with its whole length, the pieces are its parts, and once
  the torrent is complete it is as described.
\<close>

lemma swarm_file:
  assumes t0: "NewTorrent pid now m = Inr t0" and l: "layout fs (t0\<lparr>fileManager := Some fm\<rparr>) fm"
    and fl: "files fm = [open_entry p (Length (Info m))]" and ps: "pieceSize fm = PieceLength (Info m)"
    and plain: "plain_torrent m"
    and steps: "(swarm_step healthy in_piece)\<^sup>*\<^sup>* (start_swarm fs (t0\<lparr>fileManager := Some fm\<rparr>)) s"
  obtains content where "sfs s p = Some (FileNode content)" and "int (length content) = Length (Info m)"
    and "\<forall>i < nat (NumPieces m). piece_bytes (sfs s) (storrent s) fm i = piece_of m content i"
    and "isComplete (storrent s) \<longrightarrow> described m content"
    and "isComplete (storrent s) \<longrightarrow> verifyDownload healthy (sfs s) (core (storrent s)) = (core (storrent s), Inr ())"
proof -
  let ?t = "t0\<lparr>fileManager := Some fm\<rparr>"
  have r: "reaches healthy in_piece (fs, ?t) (sfs s, core (storrent s))"
    using swarm_refines [OF steps] core_start [OF t0, of "Some fm"] by (simp add: start_swarm_def)
  have "flagged ?t = {}" using NewTorrent_Inr(5) [OF t0] by (simp add: flagged_def)
  then have "verified fs ?t fm" by (simp add: verified_flagged)
  then have "layout (sfs s) (core (storrent s)) fm" using reaches_verified [OF r] l by simp
  then have "allocated (sfs s) fm" by (simp add: layout_def)
  then obtain content where content: "sfs s p = Some (FileNode content)" "disk (sfs s) fm = content"
      "int (length content) = Length (Info m)"
    using fl by (rule single_disk)
  have fr: "Torrent_Correct.frame (core (storrent s)) = Torrent_Correct.frame ?t"
    by (rule reaches_frame(1) [OF r])
  have pc: "\<forall>i < nat (NumPieces m). piece_bytes (sfs s) (storrent s) fm i = piece_of m content i"
  proof (intro allI impI)
    fix i
    assume "i < nat (NumPieces m)"
    then have "i < length (TPieces (core (storrent s)))"
      using frame_pieces(1) [OF fr] NewTorrent_Inr(3) [OF t0] by simp
    then show "piece_bytes (sfs s) (storrent s) fm i = piece_of m content i"
      using piece_bytes_of [OF fr t0 _ ps] plain content(2) by (simp add: plain_torrent_def)
  qed
  have "described m content" if "isComplete (storrent s)"
    using complete_download [OF t0 l r] that pc content(3) by (simp add: described_def)
  moreover have "verifyDownload healthy (sfs s) (core (storrent s)) = (core (storrent s), Inr ())"
    if "isComplete (storrent s)"
    using complete_download [OF t0 l r] that by simp
  ultimately show thesis using that content pc by blast
qed

section \<open>A download that succeeds\<close>

text \<open>The messages with which a peer that has the whole file sends its pieces, from piece \<open>i\<close> on.\<close>

definition piece_message :: "meta_info \<Rightarrow> bytes \<Rightarrow> nat \<Rightarrow> int \<times> bytes" where
  "piece_message m content i = (MsgPiece, NewPieceMessage (of_nat i) 0 (piece_of m content i))"

definition seed_stream :: "meta_info \<Rightarrow> bytes \<Rightarrow> nat \<Rightarrow> nat \<Rightarrow> bytes" where
  "seed_stream m content i n = concat (map (\<lambda>i. Peer_Correct.frame (piece_message m content i)) [i..<n])"

text \<open>One of these messages completes its piece.\<close>

lemma seed_step:
  assumes "layout (sfs s) (storrent s) fm" and "i < length (TPieces (storrent s))" and "i \<notin> flagged (storrent s)"
    and "good_blocks (storrent s) i [piece_of m content i]" and "i < 2 ^ 32"
    and "listening s q = Some dht" and "speers s q = Some p" and "connected p c"
    and "incoming c = Peer_Correct.frame (piece_message m content i) @ rest"
  obtains s' p' c' where "swarm_step healthy in_piece s s'" and "layout (sfs s') (storrent s') fm"
    and "Torrent_Correct.frame (storrent s') = Torrent_Correct.frame (storrent s)"
    and "flagged (storrent s') = insert i (flagged (storrent s))"
    and "piece_bytes (sfs s') (storrent s') fm i = piece_of m content i"
    and "untouched i (sfs s) (storrent s) (sfs s') (storrent s') fm"
    and "listening s' q = Some dht" and "speers s' q = Some p'" and "connected p' c'" and "incoming c' = rest"
proof -
  let ?d = "piece_of m content i" and ?i = "of_nat i :: 32 word"
  have ui: "unat ?i = i" using assms(5) by (simp add: unat_of_nat take_bit_nat_eq_self)
  have len: "int (length ?d) = PLength (TPieces (storrent s) ! i)" using assms(4) by (simp add: good_blocks_def)
  then have "length ?d \<le> max_rw" using assms(1,2) by (auto simp: layout_def)
  then have "message_ok (MsgPiece, NewPieceMessage ?i 0 ?d)"
    by (simp add: message_ok_def MsgPiece_def NewPieceMessage_shape max_rw_def)
  from ReadMessage_frame [OF this, of p c rest 0] have
      rd: "ReadMessage quiet 0 p = (p\<lparr>Conn := Some (c\<lparr>incoming := rest\<rparr>), LastActiveTime := 0\<rparr>,
        Inr (MsgPiece, NewPieceMessage ?i 0 ?d))"
    using assms(8,9) by (simp add: connected_def piece_message_def)
  obtain fs' t' r where pp: "processPiece healthy (sfs s) (storrent s) i 0 ?d = (fs', t', r)"
    by (cases "processPiece healthy (sfs s) (storrent s) i 0 ?d")
  then have "deliver healthy i 0 [?d] (sfs s, storrent s) = (fs', t')" by simp
  note res = deliver_good [OF assms(1-4) this]
  have "r = Inr ()" using flagged_by_hash [OF pp, of i] res assms(3) by simp
  then have h: "handle_message healthy (sfs s) (storrent s) p' MsgPiece (NewPieceMessage ?i 0 ?d) = (fs', t', p', [], None)" for p'
    using handle_piece [of ?i "storrent s" healthy "sfs s" 0 ?d fs' t' r p'] pp ui assms(2) by simp
  have "in_piece (core (storrent s)) i 0 ?d" using assms(2) len by (simp add: in_piece_def)
  then have al: "allowed in_piece (storrent s) MsgPiece (NewPieceMessage ?i 0 ?d)"
    by (simp add: allowed_def NewPieceMessage_shape ui)
  let ?p = "p\<lparr>Conn := Some (c\<lparr>incoming := rest\<rparr>), LastActiveTime := 0\<rparr>"
  let ?s = "s\<lparr>sfs := fs', storrent := t', speers := (speers s)(q \<mapsto> ?p), stasks := stasks s @ map (Pair q) []\<rparr>"
  have st: "swarm_step healthy in_piece s ?s" using assms(6,7) rd al h by (rule Message)
  show thesis
    by (rule that [of ?s ?p "c\<lparr>incoming := rest\<rparr>", OF st])
      (use res assms(6,8) in \<open>simp_all add: connected_def\<close>)
qed

lemma seed_steps:
  assumes "layout (sfs s) (storrent s) fm" and "i \<le> n" and "n = length (TPieces (storrent s))" and "n \<le> 2 ^ 32"
    and "flagged (storrent s) = {..<i}" and "\<forall>j < n. good_blocks (storrent s) j [piece_of m content j]"
    and "\<forall>j < i. piece_bytes (sfs s) (storrent s) fm j = piece_of m content j"
    and "listening s q = Some dht" and "speers s q = Some p" and "connected p c"
    and "incoming c = seed_stream m content i n"
  shows "\<exists>s'. (swarm_step healthy in_piece)\<^sup>*\<^sup>* s s' \<and> isComplete (storrent s')
    \<and> (\<forall>j < n. piece_bytes (sfs s') (storrent s') fm j = piece_of m content j)"
  using assms
proof (induction "n - i" arbitrary: i s p c)
  case 0
  then have "i = n" by simp
  with 0 show ?case by (intro exI [of _ s]) (simp add: isComplete_flagged)
next
  case (Suc k)
  then have i: "i < length (TPieces (storrent s))" "i \<notin> flagged (storrent s)" "i < 2 ^ 32" "i < n" by simp_all
  have "[i..<n] = i # [Suc i..<n]" using i(4) by (rule upt_conv_Cons)
  then have "incoming c = Peer_Correct.frame (piece_message m content i) @ seed_stream m content (Suc i) n"
    using Suc.prems(11) by (simp add: seed_stream_def)
  from seed_step [OF Suc.prems(1) i(1,2) Suc.prems(6) [rule_format, OF i(4)] i(3) Suc.prems(8-10) this]
  obtain s1 p1 c1 where st: "swarm_step healthy in_piece s s1" and l: "layout (sfs s1) (storrent s1) fm"
    and fr: "Torrent_Correct.frame (storrent s1) = Torrent_Correct.frame (storrent s)"
    and fl: "flagged (storrent s1) = insert i (flagged (storrent s))"
    and pb: "piece_bytes (sfs s1) (storrent s1) fm i = piece_of m content i"
    and ut: "untouched i (sfs s) (storrent s) (sfs s1) (storrent s1) fm"
    and peer: "listening s1 q = Some dht" "speers s1 q = Some p1" "connected p1 c1"
      "incoming c1 = seed_stream m content (Suc i) n" by blast
  have gb: "\<forall>j < n. good_blocks (storrent s1) j [piece_of m content j]"
    using Suc.prems(3,6) frame_pieces(3) [OF fr] by (simp add: good_blocks_def)
  have "\<exists>s'. (swarm_step healthy in_piece)\<^sup>*\<^sup>* s1 s' \<and> isComplete (storrent s')
      \<and> (\<forall>j < n. piece_bytes (sfs s') (storrent s') fm j = piece_of m content j)"
  proof (rule Suc.hyps(1) [OF _ l _ _ Suc.prems(4) _ gb _ peer])
    show "\<forall>j < Suc i. piece_bytes (sfs s1) (storrent s1) fm j = piece_of m content j"
      using pb ut Suc.prems(3,7) i(4) by (auto simp: untouched_def less_Suc_eq)
  qed (use Suc.hyps(2) i(4) Suc.prems(3,5) fl frame_pieces(1) [OF fr] in auto)
  then show ?case using st by (meson converse_rtranclp_into_rtranclp)
qed

text \<open>Two files of the same length whose pieces agree are the same, if the pieces cover them.\<close>

lemma pieces_determine:
  assumes "plain_torrent m" and "(NumPieces m - 1) * PieceLength (Info m) + Length (Info m) mod PieceLength (Info m) = Length (Info m)"
    and "int (length a) = Length (Info m)" and "int (length b) = Length (Info m)"
    and "\<forall>i < nat (NumPieces m). piece_of m a i = piece_of m b i"
  shows "a = b"
proof (rule nth_equalityI)
  show "length a = length b" using assms(3,4) by simp
  fix j
  assume j: "j < length a"
  define pl where "pl = nat (PieceLength (Info m))"
  have pl: "0 < pl" "int pl = PieceLength (Info m)" using assms(1) by (simp_all add: pl_def plain_torrent_def)
  define i r where "i = j div pl" and "r = j mod pl"
  have jr: "j = i * pl + r" "r < pl" using pl(1) by (simp_all add: i_def r_def)
  define k where "k = length a div pl"
  have "int k = Length (Info m) div PieceLength (Info m)"
    by (simp add: k_def zdiv_int pl(2) assms(3))
  moreover have "(NumPieces m - 1) * PieceLength (Info m) = Length (Info m) div PieceLength (Info m) * PieceLength (Info m)"
    using assms(2) div_mult_mod_eq [of "Length (Info m)" "PieceLength (Info m)"] by linarith
  ultimately have k: "NumPieces m = int k + 1" using pl by simp
  have ik: "i \<le> k" using j by (simp add: i_def k_def div_le_mono)
  have "r < nat (calculatePieceLength m (int i))"
  proof (cases "i = k")
    case True
    have "Length (Info m) smod PieceLength (Info m) = int (length a) mod int pl"
      using assms(1,3) pl by (simp add: plain_torrent_def signed_modulo_int_def sgn_if)
    then have "calculatePieceLength m (int i) = int (length a mod pl)"
      using True k assms(1) by (simp add: calculatePieceLength_def TotalLength_def plain_torrent_def zmod_int)
    moreover have "r < length a mod pl"
    proof -
      have "i * pl = length a div pl * pl" using True by (simp add: k_def)
      then show ?thesis using j jr(1) div_mult_mod_eq [of "length a" pl] by linarith
    qed
    ultimately show ?thesis by simp
  next
    case False
    then have "calculatePieceLength m (int i) = int pl"
      using k pl by (simp add: calculatePieceLength_def)
    then show ?thesis using jr by simp
  qed
  moreover have "i < nat (NumPieces m)" using ik k by simp
  then have "piece_of m a i ! r = piece_of m b i ! r" using assms(5) by simp
  moreover have "i * pl + r < length a" "length b = length a" using j jr assms(3,4) by simp_all
  ultimately show "a ! j = b ! j" by (simp add: piece_of_def jr(1) flip: pl_def)
qed

lemma NewTorrent_fresh:
  assumes "NewTorrent pid now m = Inr t"
  shows "failedPeers t = Map.empty" and "progressClosed t = False" and "peerID t = pid"
    and "\<exists>h. InfoHash m = Inr h \<and> length h = 20"
  using assms by (auto simp: NewTorrent_def InfoHash_def Let_def split: if_splits sum.splits)

definition seeder :: "bytes \<Rightarrow> bytes \<Rightarrow> bytes \<Rightarrow> peer" where
  "seeder pid h stream = (NewPeer 0 [] pid h)\<lparr>Conn := Some \<lparr>incoming = stream,
     outgoing = handshake_bytes (NewPeer 0 [] pid h), closed = False\<rparr>\<rparr>"

lemma dial_seeder:
  assumes "InfoHash (metaInfo t) = Inr h" and "length h = 20" and "failedPeers t = Map.empty" and "peerID t = pid"
  shows "(swarm_step env may)\<^sup>*\<^sup>* (start_swarm fs t)
    ((start_swarm fs t)\<lparr>storrent := add_active 1 t, speers := [0 \<mapsto> seeder pid h stream], listening := [0 \<mapsto> False]\<rparr>)"
proof -
  let ?s = "start_swarm fs t" and ?a = "\<lparr>limiterOk = True, connectNet = quiet,
    dialledBytes = 19 # protocol_name @ replicate 8 0 @ h @ replicate 20 5 @ stream, cancelledWait = False\<rparr>"
  let ?s1 = "?s\<lparr>sdials := sdials ?s @ [([], 5, time_second)]\<rparr>"
  have "connect_attempt ?a 0 [] 4 time_second t = (add_active 1 t, DialConnected (seeder pid h stream))"
    using assms by (simp add: connect_attempt_def Connect_greeted seeder_def)
  moreover have "sdials ?s1 = [] @ ([], Suc 4, time_second) # []" by (simp add: start_swarm_def)
  ultimately have "swarm_step env may ?s1 (?s1\<lparr>storrent := add_active 1 t, speers := (speers ?s1)(0 \<mapsto> seeder pid h stream),
      listening := (listening ?s1)(0 \<mapsto> False), sdials := [] @ []\<rparr>)"
    by (intro Dial_connected) (simp_all add: start_swarm_def)
  with Start_dial [of env may ?s "[]"] show ?thesis
    by (intro converse_rtranclp_into_rtranclp [OF _ r_into_rtranclp, of _ _ ?s1]) (simp_all add: start_swarm_def)
qed

lemma seeds_good:
  assumes "NewTorrent pid now m = Inr t0" and "plain_torrent m" and "Length (Info m) mod PieceLength (Info m) \<noteq> 0"
    and "described m content"
  shows "\<forall>j < length (TPieces t0). good_blocks t0 j [piece_of m content j]"
proof (intro allI impI)
  fix j
  assume j: "j < length (TPieces t0)"
  note new = NewTorrent_Inr [OF assms(1)]
  have jn: "int j < NumPieces m" "j < nat (NumPieces m)" using j new(3) by simp_all
  note len = plain_lengths [OF assms(2) _ jn(1)]
  have p: "0 < PieceLength (Info m)" "0 < Length (Info m)" using assms(2) by (simp_all add: plain_torrent_def)
  then have "calculatePieceLength m (int j) \<noteq> 0"
    using assms(3) by (simp add: calculatePieceLength_def TotalLength_def signed_modulo_int_def sgn_if)
  then have pos: "0 < calculatePieceLength m (int j)" using len(1) by simp
  define off where "off = j * nat (PieceLength (Info m))"
  have "int off = int j * PieceLength (Info m)" using less_imp_le [OF p(1)] by (simp add: off_def)
  then have "int off + calculatePieceLength m (int j) \<le> int (length content)"
    using len(3) assms(4) by (simp add: described_def)
  then have "off + nat (calculatePieceLength m (int j)) \<le> length content" using pos by linarith
  then have "int (length (piece_of m content j)) = calculatePieceLength m (int j)"
    using pos by (simp add: piece_of_def flip: off_def)
  moreover have "PieceHash m (int j) = Inr (sha1_Sum (piece_of m content j))"
    using assms(4) jn(2) by (simp add: described_def)
  ultimately show "good_blocks t0 j [piece_of m content j]"
    using new(4) [OF j] pos by (auto simp: good_blocks_def)
qed

lemma download_possible:
  assumes "client_setup healthy w fs (input # rest) = (fs', Inr (t, mt))" and "plain_torrent (metaInfo t)"
    and "(NumPieces (metaInfo t) - 1) * PieceLength (Info (metaInfo t))
      + Length (Info (metaInfo t)) mod PieceLength (Info (metaInfo t)) = Length (Info (metaInfo t))"
    and "Length (Info (metaInfo t)) mod PieceLength (Info (metaInfo t)) \<noteq> 0" and "NumPieces (metaInfo t) \<le> 2 ^ 32"
    and "described (metaInfo t) content"
  shows "\<exists>s t'. (swarm_step healthy in_piece)\<^sup>*\<^sup>* (start_swarm fs' t) s
    \<and> sfs s (the_path (metaInfo t)) = Some (FileNode content)
    \<and> Download_run healthy t [DownloadTick now (sfs s) (storrent s)] = (Some (Inr t'), 0)"
proof -
  define m where "m = metaInfo t"
  obtain fm t0 where t0: "NewTorrent (own_id w) (clock w) m = Inr t0" and t: "t = t0\<lparr>fileManager := Some fm\<rparr>"
      and l: "layout fs' t fm" and fl: "files fm = [open_entry (the_path m) (Length (Info m))]"
      and ps: "pieceSize fm = PieceLength (Info m)"
    using client_setup_layout [OF assms(1,2)] unfolding m_def by metis
  note new = NewTorrent_Inr [OF t0] and fresh = NewTorrent_fresh [OF t0]
  obtain h where h: "InfoHash m = Inr h" "length h = 20" using fresh by blast
  let ?n = "length (TPieces t0)"
  define s2 where "s2 = (start_swarm fs' t)\<lparr>storrent := add_active 1 t,
    speers := [0 \<mapsto> seeder (own_id w) h (seed_stream m content 0 ?n)], listening := [0 \<mapsto> False]\<rparr>"
  have run: "(swarm_step healthy in_piece)\<^sup>*\<^sup>* (start_swarm fs' t) s2"
    unfolding s2_def by (rule dial_seeder) (use h fresh in \<open>simp_all add: t m_def\<close>)
  have fr: "Torrent_Correct.frame (add_active 1 t) = Torrent_Correct.frame t"
    by (simp add: Torrent_Correct.frame_def add_active_def)
  have "\<exists>s. (swarm_step healthy in_piece)\<^sup>*\<^sup>* s2 s \<and> isComplete (storrent s)
      \<and> (\<forall>j < ?n. piece_bytes (sfs s) (storrent s) fm j = piece_of m content j)"
  proof (rule seed_steps [where i = 0 and q = 0 and dht = False and p = "seeder (own_id w) h (seed_stream m content 0 ?n)"
        and c = "\<lparr>incoming = seed_stream m content 0 ?n, outgoing = handshake_bytes (NewPeer 0 [] (own_id w) h), closed = False\<rparr>"])
    show "layout (sfs s2) (storrent s2) fm"
      using layout_same [OF l fr] by (simp add: s2_def start_swarm_def)
    show "\<forall>j < ?n. good_blocks (storrent s2) j [piece_of m content j]"
      using seeds_good [OF t0 assms(2,4) [folded m_def] assms(6) [folded m_def]]
      by (simp add: s2_def t good_blocks_def add_active_def)
  qed (use new assms(5) in \<open>simp_all add: s2_def start_swarm_def t seeder_def connected_def m_def flagged_def add_active_def\<close>)
  then obtain s where s: "(swarm_step healthy in_piece)\<^sup>*\<^sup>* (start_swarm fs' t) s" "isComplete (storrent s)"
      "\<forall>j < ?n. piece_bytes (sfs s) (storrent s) fm j = piece_of m content j"
    using run by (meson rtranclp_trans)
  from swarm_file [OF t0 l [unfolded t] fl ps assms(2) [folded m_def] s(1) [unfolded t]] obtain content' where
      c: "sfs s (the_path m) = Some (FileNode content')" "int (length content') = Length (Info m)"
        "\<forall>i < nat (NumPieces m). piece_bytes (sfs s) (storrent s) fm i = piece_of m content' i"
    and v: "verifyDownload healthy (sfs s) (core (storrent s)) = (core (storrent s), Inr ())"
    using s(2) by metis
  have "content' = content"
    using c(2,3) s(3) assms(6) new(3) by (intro pieces_determine [OF assms(2,3)]) (simp_all add: m_def described_def)
  moreover obtain u where "verifyDownload healthy (sfs s) (storrent s) = (u, Inr ())"
    using v by (cases "verifyDownload healthy (sfs s) (storrent s)") (simp add: verifyDownload_core)
  then have "Download_run healthy t [DownloadTick now (sfs s) (storrent s)] = (Some (Inr u), 0)"
    using s(2) h(1) fresh(2) by (simp add: Download_run_def t m_def)
  ultimately show ?thesis using s(1) c(1) by (auto simp: m_def)
qed

section \<open>A torrent that can be downloaded\<close>

text \<open>
  The torrent file of \<open>one_meta\<close>: its length stands under the only key under which this program looks for it.
\<close>

definition tagged_info :: "(bytes \<times> bval) list" where
  "tagged_info =
     [(str ''length,omitempty'', BInt 3), (str ''name'', BString (str ''x'')),
      (str ''piece length'', BInt 4), (str ''pieces'', BString (sha1_Sum [1, 2, 3]))]"

definition tagged_file :: bytes where
  "tagged_file = benc (BDict [(str ''info'', BDict tagged_info)])"

lemma tagged_parses: "ParseMetaInfo tagged_file = Inr one_meta"
proof -
  have "wf_bval (BDict [(str ''info'', BDict tagged_info)])"
    by (simp add: tagged_info_def in_i64_def MaxInt32_def) (simp add: str_def asc_def)
  moreover have "canon (BDict [(str ''info'', BDict tagged_info)]) = BDict [(str ''info'', BDict tagged_info)]"
    by (simp add: tagged_info_def sort_entries_def) (simp add: str_def asc_def)
  ultimately have d: "decodeValue tagged_file = Inr (BDict [(str ''info'', BDict tagged_info)], [])"
    using decode_benc [of "BDict [(str ''info'', BDict tagged_info)]" "[]"] by (simp add: tagged_file_def)
  have t: "trunc_int KInt64 4 = 4" "trunc_int KInt64 3 = 3" by (simp_all add: trunc_int_id in_kind_def)
  define h where "h = sha1_Sum [1, 2, 3]"
  have "length h = 20" by (simp add: h_def)
  then have "h \<noteq> []" by auto
  with t show ?thesis
    unfolding ParseMetaInfo_def Unmarshal_def d one_meta_def tagged_info_def h_def [symmetric]
    by (simp add: MetaInfoType_def InfoDictType_def meta_info_of_def info_dict_of_def field_key_def str_def asc_def Let_def)
qed

definition one_surroundings :: surroundings where
  "one_surroundings =
     \<lparr>parse_url = (\<lambda>u. None), dial_udp = (\<lambda>h. None), read_file = (\<lambda>f. Inr tagged_file),
      random_source = (\<lambda>k. of_nat k), clock = 0\<rparr>"

lemma NewTorrent_id: "NewTorrent [] 0 m = Inr t \<Longrightarrow> NewTorrent pid now m = Inr (t\<lparr>peerID := pid, startTime := now\<rparr>)"
  by (auto simp: NewTorrent_def Let_def split: if_splits sum.splits)

lemma one_setup:
  obtains fs' t mt where "client_setup healthy one_surroundings Map.empty (str ''x.torrent'' # rest) = (fs', Inr (t, mt))"
    and "metaInfo t = one_meta"
proof -
  have "client_meta (parse_url one_surroundings) (read_file one_surroundings) (str ''x.torrent'') = Inr one_meta"
    by (simp add: client_meta_def one_surroundings_def tagged_parses) (simp add: str_def asc_def)
  from setup_from_nothing [OF this _ _ _ _ NewTorrent_id [OF one_torrent_new], of 3 rest] that show thesis
    by (auto simp: one_meta_def client_lengths_def)
qed

lemma one_plain: "plain_torrent one_meta" "described one_meta [1, 2, 3]" "the_path one_meta = (False, [str ''x''])"
proof -
  have n: "NumPieces one_meta = 1" by (simp add: NumPieces_def one_meta_def)
  then show "plain_torrent one_meta" by (simp add: plain_torrent_def) (simp add: one_meta_def max_rw_def in_i64_def)
  have "calculatePieceLength one_meta 0 = 3" using n by (simp add: calculatePieceLength_def) (simp add: one_meta_def TotalLength_def)
  moreover have "PieceHash one_meta 0 = Inr (sha1_Sum [1, 2, 3])" using n by (simp add: PieceHash_def) (simp add: one_meta_def)
  ultimately show "described one_meta [1, 2, 3]" using n by (simp add: described_def piece_of_def) (simp add: one_meta_def)
  show "the_path one_meta = (False, [str ''x''])" by (simp add: the_path_def one_meta_def Join_dot_x)
qed

lemma one_sizes: "NumPieces one_meta = 1" "Length (Info one_meta) = 3" "PieceLength (Info one_meta) = 4"
  by (simp_all add: NumPieces_def one_meta_def)

lemma one_download:
  assumes "client_setup healthy w fs (input # rest) = (fs', Inr (t, mt))" and "metaInfo t = one_meta"
  shows "\<exists>s t'. (swarm_step healthy in_piece)\<^sup>*\<^sup>* (start_swarm fs' t) s
    \<and> Download_run healthy t [DownloadTick 0 (sfs s) (storrent s)] = (Some (Inr t'), 0)"
  using download_possible [OF assms(1), of "[1, 2, 3]" 0] one_plain by (simp add: assms(2) one_sizes) blast

section \<open>Files the program leaves alone\<close>

lemma processPiece_other_files:
  assumes "processPiece env fs t i b d = (fs', t', r)" and "fileManager t = Some fm"
    and "Some q \<notin> set (map entry_path (files fm))"
  shows "fs' q = fs q"
  using assms write_loop_frame [OF assms(3), of env 0 _ d fs]
  by (auto simp: processPiece_def WritePiece_def Let_def split: if_splits sum.splits fault.splits prod.splits)
    (metis fst_conv)+

lemma reaches_other_files:
  assumes "reaches env may (fs, t) (fs', t')" and "fileManager t = Some fm"
    and "Some q \<notin> set (map entry_path (files fm))"
  shows "fs' q = fs q"
proof -
  have "fs' q = fs q \<and> fileManager t' = Some fm"
  proof (rule reaches_invariant [OF assms(1)])
    fix gs u gs' u'
    assume inv: "gs q = fs q \<and> fileManager u = Some fm" and st: "torrent_step env may (gs, u) (gs', u')"
    from st have "gs' q = gs q"
    proof (cases rule: torrent_step.cases)
      case (Block i b d r)
      then show ?thesis using processPiece_other_files [OF Block(2)] inv assms(3) by simp
    qed simp
    then show "gs' q = fs q \<and> fileManager u' = Some fm"
      using inv frame_pieces(2) [OF step_frame(1) [OF st]] by simp
  qed (use assms(2) in simp)
  then show ?thesis by simp
qed

text \<open>The set-up creates and opens the files of the torrent and makes the directories above them.\<close>

definition own_paths :: "meta_info \<Rightarrow> path list" where
  "own_paths m =
     map (created_path (str ''.'') (Name (Info m))) [0..<length (client_lengths m)]
     @ map (\<lambda>tf. Join (str ''.'') (TPath tf)) (torrent_files m)"

lemma mkdir_prefixes_other:
  "\<not> prefix (snd q) (done @ cs) \<Longrightarrow> fst (mkdir_prefixes env rooted done cs fs) q = fs q"
proof (induction env rooted "done" cs fs rule: mkdir_prefixes.induct)
  case (2 env rooted "done" c cs fs)
  then have "q \<noteq> (rooted, done @ [c])" by auto
  with 2 show ?case by (auto simp: Let_def fun_upd_def split: option.splits node.splits)
qed simp

lemma MkdirAll_other:
  assumes "MkdirAll env fs (Dir p) = (fs1, r)" and "\<not> prefix (snd q) (snd p)"
  shows "fs1 q = fs q"
proof -
  have "\<not> prefix (snd q) (snd (Dir p))"
    using assms(2) by (cases "snd p" rule: rev_cases) (auto simp: Dir_def)
  with mkdir_prefixes_other [of q "[]" "snd (Dir p)" env "fst (Dir p)" fs] assms(1) show ?thesis
    by (simp add: MkdirAll_def)
qed

lemma opened_other:
  assumes "\<not> prefix (snd q) (snd p)"
  shows "OpenFile env fs p = Inr fs1 \<Longrightarrow> fs1 q = fs q" and "CreateFile env fs p = Inr fs1 \<Longrightarrow> fs1 q = fs q"
    and "Truncate env fs \<lparr>file_path = p, is_open = b\<rparr> n = Inr fs1 \<Longrightarrow> fs1 q = fs q"
proof -
  have "q \<noteq> p" using assms by auto
  then show "OpenFile env fs p = Inr fs1 \<Longrightarrow> fs1 q = fs q" and "CreateFile env fs p = Inr fs1 \<Longrightarrow> fs1 q = fs q"
    and "Truncate env fs \<lparr>file_path = p, is_open = b\<rparr> n = Inr fs1 \<Longrightarrow> fs1 q = fs q"
    by (auto simp: OpenFile_def CreateFile_def new_file_def Truncate_def
        split: option.splits node.splits sum.splits if_splits)
qed

lemma create_loop_other:
  "\<forall>k \<in> {i..<i + length ns}. \<not> prefix (snd q) (snd (created_path base name k)) \<Longrightarrow>
     fst (create_loop env base name ns i fs) q = fs q"
proof (induction env base name ns i fs rule: create_loop.induct)
  case (2 env base name n ns i fs)
  let ?p = "created_path base name i"
  have q: "\<not> prefix (snd q) (snd ?p)" using "2.prems" by simp
  obtain fs1 r where mk: "MkdirAll env fs (Dir ?p) = (fs1, r)" by (cases "MkdirAll env fs (Dir ?p)")
  note o1 = MkdirAll_other [OF mk q]
  show ?case
  proof (cases "r = None \<and> (\<exists>fs2 fs3. CreateFile env fs1 ?p = Inr fs2
      \<and> Truncate env fs2 \<lparr>file_path = ?p, is_open = True\<rparr> n = Inr fs3)")
    case True
    then obtain fs2 fs3 where ok: "r = None" "CreateFile env fs1 ?p = Inr fs2"
        "Truncate env fs2 \<lparr>file_path = ?p, is_open = True\<rparr> n = Inr fs3" by blast
    have "fst (create_loop env base name ns (Suc i) fs3) q = fs3 q"
      using "2.prems" by (intro "2.IH" [OF refl mk [symmetric] ok]) simp
    then show ?thesis
      using mk ok o1 opened_other(2) [OF q ok(2)] opened_other(3) [OF q ok(3)] by (simp add: Let_def)
  next
    case False
    then show ?thesis using mk o1 opened_other(2) [OF q, of env fs1]
      by (auto simp: Let_def split: option.splits sum.splits)
  qed
qed simp

lemma init_loop_other:
  assumes "init_loop env tfs i off fs fm = (fs', fm', r)"
    and "\<forall>tf \<in> set tfs. \<not> prefix (snd q) (snd (Join (baseDir fm) (TPath tf)))"
    and "Some q \<notin> entry_path ` set (files fm)"
  shows "fs' q = fs q \<and> Some q \<notin> entry_path ` set (files fm')"
  using assms
proof (induction env tfs i off fs fm rule: init_loop.induct)
  case (2 env tf tfs i off fs fm)
  let ?p = "Join (baseDir fm) (TPath tf)"
  have q: "\<not> prefix (snd q) (snd ?p)" using "2.prems"(2) by simp
  obtain fs1 e where mk: "MkdirAll env fs (Dir ?p) = (fs1, e)" by (cases "MkdirAll env fs (Dir ?p)")
  note o1 = MkdirAll_other [OF mk q]
  show ?case
  proof (cases "e = None \<and> (\<exists>fs2. OpenFile env fs1 ?p = Inr fs2)")
    case True
    then obtain fs2 where ok: "e = None" "OpenFile env fs1 ?p = Inr fs2" by blast
    define x where "x = Some \<lparr>File = \<lparr>file_path = ?p, is_open = True\<rparr>, FLength = TLength tf\<rparr>"
    let ?fm = "fm\<lparr>files := (files fm)[i := x], pieceOffsets := pieceOffsets fm @ [off]\<rparr>"
    have "q \<noteq> ?p" using q by auto
    then have "Some q \<notin> entry_path ` set (files ?fm)"
      using "2.prems"(3) set_update_subset_insert [of "files fm" i x] by (auto simp: x_def)
    moreover have "init_loop env tfs (Suc i) (i64 (off + TLength tf)) fs2 ?fm = (fs', fm', r)"
      using "2.prems"(1) mk ok by (simp add: x_def)
    ultimately have "fs' q = fs2 q \<and> Some q \<notin> entry_path ` set (files fm')"
      using "2.IH" [OF refl mk [symmetric] ok] "2.prems"(2) by (simp add: x_def)
    then show ?thesis using o1 opened_other(1) [OF q ok(2)] by simp
  next
    case False
    then show ?thesis using "2.prems"(1,3) mk o1 by (auto simp: Let_def split: option.splits sum.splits)
  qed
qed simp

lemma setup_other:
  assumes "client_setup env w fs (input # rest) = (fs', Inr (t, mt))"
    and "\<forall>p \<in> set (own_paths (metaInfo t)). \<not> prefix (snd q) (snd p)"
  shows "fs' q = fs q \<and> (\<exists>fm. fileManager t = Some fm \<and> Some q \<notin> entry_path ` set (files fm))"
proof -
  let ?m = "metaInfo t"
  obtain fs1 t0 fm r where mm: "metaInfo t0 = ?m" and t: "t = t0\<lparr>fileManager := Some fm\<rparr>"
      and c: "CreateFiles env fs (client_manager ?m) (Name (Info ?m)) (client_lengths ?m) = (fs1, None)"
      and sf: "SetFileManager env fs1 t0 (client_manager ?m) = (fs', t, r)"
    using client_setup_steps [OF assms(1)] by metis
  obtain fm2 e fm' where ini: "Initialize env fs1 (client_manager ?m) (torrent_files ?m) = (fs', fm2, e)"
      and fm': "t = t0\<lparr>fileManager := Some fm'\<rparr>" "files fm' = files fm2"
    using SetFileManager_Initialize [OF sf] mm by metis
  have "fs1 q = fs q"
    using create_loop_other [of 0 "client_lengths ?m" q "str ''.''" "Name (Info ?m)" env fs] c assms(2)
    by (auto simp: CreateFiles_def own_paths_def)
  moreover obtain fm1 r1 where
      l: "init_loop env (torrent_files ?m) 0 0 fs1 ((client_manager ?m)\<lparr>files := replicate (length (torrent_files ?m)) None\<rparr>)
        = (fs', fm1, r1)" and fm1: "files fm2 = files fm1"
    using ini by (auto simp: Initialize_def split: prod.splits sum.splits)
  have "fs' q = fs1 q \<and> Some q \<notin> entry_path ` set (files fm1)"
    by (rule init_loop_other [OF l]) (use assms(2) in \<open>auto simp: own_paths_def\<close>)
  ultimately show ?thesis using fm' fm1 by simp
qed

lemma program_other_files:
  assumes "client_setup env w fs (input # rest) = (fs', Inr (t, mt))"
    and "\<forall>p \<in> set (own_paths (metaInfo t)). \<not> prefix (snd q) (snd p)"
    and "(swarm_step env' may)\<^sup>*\<^sup>* (start_swarm fs' t) s"
  shows "sfs s q = fs q"
  using setup_other [OF assms(1,2)] reaches_other_files [OF swarm_refines [OF assms(3)], of _ q]
  by (auto simp: start_swarm_def)

text \<open>
  C2: the whole program, from the command line to the file. If the set-up for a plain torrent succeeded and
  \<open>Download\<close> returns without an error, then its loop looked, for the first time, at a complete torrent, and
  at that moment the file of the torrent's name had the declared length and every piece of it the declared
  hash, and \<open>verifyDownload\<close> succeeded: whatever was on disk before, whatever the trackers, the DHT and the
  peers said and did, in whatever order, if only no block reached out of its piece.
\<close>

theorem client_download_correct:
  assumes "client_setup healthy w fs (input # rest) = (fs', Inr (t, mt))" and "plain_torrent (metaInfo t)"
    and "ticks_of healthy in_piece (start_swarm fs' t) events"
    and "Download_run healthy t events = (Some (Inr t'), n)"
  shows "\<exists>s content. first_complete events = Some (sfs s, storrent s) \<and> isComplete (storrent s)
    \<and> (swarm_step healthy in_piece)\<^sup>*\<^sup>* (start_swarm fs' t) s
    \<and> verifyDownload healthy (sfs s) (storrent s) = (t', Inr ())
    \<and> sfs s (the_path (metaInfo t)) = Some (FileNode content) \<and> described (metaInfo t) content"
proof -
  obtain gs u where c: "first_complete events = Some (gs, u)" and v: "verifyDownload healthy gs u = (t', Inr ())"
    using Download_run_Inr [OF assms(4)] by blast
  then obtain s where s: "(swarm_step healthy in_piece)\<^sup>*\<^sup>* (start_swarm fs' t) s" "sfs s = gs" "storrent s = u"
    using assms(3) first_complete_Some [OF c] unfolding ticks_of_def by metis
  obtain fm t0 where t0: "NewTorrent (own_id w) (clock w) (metaInfo t) = Inr t0" and t: "t = t0\<lparr>fileManager := Some fm\<rparr>"
      and l: "layout fs' t fm" and fl: "files fm = [open_entry (the_path (metaInfo t)) (Length (Info (metaInfo t)))]"
      and ps: "pieceSize fm = PieceLength (Info (metaInfo t))"
    using client_setup_layout [OF assms(1,2)] by metis
  from swarm_file [OF t0 l [unfolded t] fl ps assms(2) s(1) [unfolded t]] s c v first_complete_Some [OF c] show ?thesis
    by metis
qed

theorem client_download_correct_witness:
  "\<exists>fs' t mt s t' content. client_setup healthy one_surroundings Map.empty [str ''x.torrent''] = (fs', Inr (t, mt))
    \<and> (swarm_step healthy in_piece)\<^sup>*\<^sup>* (start_swarm fs' t) s
    \<and> Download_run healthy t [DownloadTick 0 (sfs s) (storrent s)] = (Some (Inr t'), 0)
    \<and> sfs s (False, [str ''x'']) = Some (FileNode content) \<and> described one_meta content"
proof -
  obtain fs' t mt where s: "client_setup healthy one_surroundings Map.empty [str ''x.torrent''] = (fs', Inr (t, mt))"
      and m: "metaInfo t = one_meta" by (rule one_setup)
  have p: "plain_torrent (metaInfo t)" using one_plain(1) m by simp
  obtain s1 t1 where r: "(swarm_step healthy in_piece)\<^sup>*\<^sup>* (start_swarm fs' t) s1"
      and d: "Download_run healthy t [DownloadTick 0 (sfs s1) (storrent s1)] = (Some (Inr t1), 0)"
    using one_download [OF s m] by blast
  then have "ticks_of healthy in_piece (start_swarm fs' t) [DownloadTick 0 (sfs s1) (storrent s1)]"
    by (auto simp: ticks_of_def)
  from client_download_correct [OF s p this d] obtain s2 :: swarm and content where
      "first_complete [DownloadTick 0 (sfs s1) (storrent s1)] = Some (sfs s2, storrent s2)"
    and "sfs s2 (False, [str ''x'']) = Some (FileNode content)" "described one_meta content"
    using one_plain(3) m by auto
  then have "sfs s1 (False, [str ''x'']) = Some (FileNode content)" "described one_meta content"
    by (simp_all split: if_splits)
  with s r d show ?thesis by blast
qed

text \<open>
  C6: the download is possible. Take any plain torrent of at most 2^32 pieces that cover its file and whose
  length is not a multiple of the piece length (for the other lengths \<open>divisible_length_never_completes\<close>
  shows that the download cannot complete). For every file as described there are peers and a run of the program
  after which the file is on disk byte by byte and \<open>Download\<close> returns without an error.
\<close>

theorem client_can_download:
  assumes "client_setup healthy w fs (input # rest) = (fs', Inr (t, mt))" and "plain_torrent (metaInfo t)"
    and "(NumPieces (metaInfo t) - 1) * PieceLength (Info (metaInfo t))
      + Length (Info (metaInfo t)) mod PieceLength (Info (metaInfo t)) = Length (Info (metaInfo t))"
    and "Length (Info (metaInfo t)) mod PieceLength (Info (metaInfo t)) \<noteq> 0" and "NumPieces (metaInfo t) \<le> 2 ^ 32"
    and "described (metaInfo t) content"
  shows "\<exists>s t'. (swarm_step healthy in_piece)\<^sup>*\<^sup>* (start_swarm fs' t) s
    \<and> sfs s (the_path (metaInfo t)) = Some (FileNode content)
    \<and> Download_run healthy t [DownloadTick now (sfs s) (storrent s)] = (Some (Inr t'), 0)"
  using assms by (rule download_possible)

theorem client_can_download_witness:
  "\<exists>fs' t mt s u. client_setup healthy one_surroundings Map.empty [str ''x.torrent''] = (fs', Inr (t, mt))
    \<and> (swarm_step healthy in_piece)\<^sup>*\<^sup>* (start_swarm fs' t) s \<and> sfs s (False, [str ''x'']) = Some (FileNode [1, 2, 3])
    \<and> Download_run healthy t [DownloadTick 0 (sfs s) (storrent s)] = (Some (Inr u), 0)"
proof -
  obtain fs' t mt where s: "client_setup healthy one_surroundings Map.empty [str ''x.torrent''] = (fs', Inr (t, mt))"
      and m: "metaInfo t = one_meta" by (rule one_setup)
  show ?thesis
    using client_can_download [OF s, of "[1, 2, 3]" 0] one_plain s by (simp add: m one_sizes)
qed

text \<open>
  C31: what the program says at its end is not what it did. For every torrent file and magnet link the set-up
  takes, whatever the system does and however the download ended, with an error, a time-out or a verified file: if
  \<open>main\<close> gets to its end without a panic, it says that the file was saved to the path given as its second
  argument, yet neither the set-up nor anything that happens during the download has touched that path
  (unless it is that of a file of the torrent or of a directory above one; and for paths without
  \<open>..\<close>, which leave the working directory).
\<close>

definition apart_from_own :: "path \<Rightarrow> meta_info \<Rightarrow> bool" where
  "apart_from_own q m \<longleftrightarrow>
     str ''..'' \<notin> set (snd q)
     \<and> list_all (\<lambda>p. str ''..'' \<notin> set (snd p) \<and> \<not> prefix (snd q) (snd p)) (own_paths m)"

theorem saved_path_untouched:
  assumes "parse_flags False argv = Inr (debug, input # out # rest)"
    and "client_setup env w fs (input # out # rest) = (fs', Inr (t, mt))"
    and "Download_run env t events = (Some r, n)" and "\<And>p. snd (client_end env t r) \<noteq> Inl (Panic p)"
    and "apart_from_own (output_path (input # out # rest)) (metaInfo t)"
    and "(swarm_step env may)\<^sup>*\<^sup>* (start_swarm fs' t) s"
  shows "snd (client_main env w fs argv events) = SavedTo (output_path (input # out # rest))
    \<and> sfs s (output_path (input # out # rest)) = fs (output_path (input # out # rest))"
proof
  obtain dht x where e: "client_end env t r = (dht, x)" by (cases "client_end env t r")
  then show "snd (client_main env w fs argv events) = SavedTo (output_path (input # out # rest))"
    using assms(1-4) by (auto simp: client_main_def split: sum.splits fault.splits)
  show "sfs s (output_path (input # out # rest)) = fs (output_path (input # out # rest))"
    using assms(5) by (intro program_other_files [OF assms(2) _ assms(6)]) (auto simp: apart_from_own_def list_all_iff)
qed

theorem saved_path_untouched_witness:
  "\<exists>fs' t mt. client_setup healthy demo_surroundings Map.empty [str ''x.torrent'', str ''y''] = (fs', Inr (t, mt))
    \<and> snd (client_main healthy demo_surroundings Map.empty [str ''-debug'', str ''x.torrent'', str ''y''] [LastPieceTimeout])
       = SavedTo (False, [str ''y''])
    \<and> fs' (False, [str ''y'']) = None"
proof -
  have p: "parse_flags False [str ''-debug'', str ''x.torrent'', str ''y''] = Inr (True, [str ''x.torrent'', str ''y''])"
    by (simp add: split_flag_def str_def asc_def)
  obtain fs' t mt where
      s: "client_setup healthy demo_surroundings Map.empty [str ''x.torrent'', str ''y''] = (fs', Inr (t, mt))"
      and m: "metaInfo t = demo_meta" using demo_setup by blast
  have dm: "Files (Info demo_meta) = []" "in_i64 (Length (Info demo_meta))" "0 \<le> PieceLength (Info demo_meta)"
      "Name (Info demo_meta) = str ''x''"
    by (simp_all add: demo_meta_def in_i64_def)
  obtain fm t0 where t0: "NewTorrent (own_id demo_surroundings) (clock demo_surroundings) (metaInfo t) = Inr t0"
      and t: "t = t0\<lparr>fileManager := Some fm\<rparr>" and fl: "files fm = [open_entry (the_path demo_meta) (Length (Info demo_meta))]"
    using client_setup_single [OF s] dm m by metis
  note fresh = NewTorrent_fresh [OF t0]
  have d: "Download_run healthy t [LastPieceTimeout] = (Some (Inl (Error LastPieceTimedOut)), 0)"
    using fresh(2,4) by (auto simp: Download_run_def t)
  have np: "snd (client_end healthy t (Inl (Error LastPieceTimedOut))) \<noteq> Inl (Panic q)" for q
    using fl by (simp add: client_end_def t Close_Manager_def open_entry_def Close_File_def)
  have o: "output_path [str ''x.torrent'', str ''y''] = (False, [str ''y''])"
    by (simp add: output_path_def Join_def Clean_def path_append_def str_def asc_def slash_def)
  have "own_paths demo_meta = [(False, [str ''x'']), (False, [str ''x''])]"
    using dm by (simp add: own_paths_def client_lengths_def torrent_files_def created_path_def Join_dot_x)
  then have "apart_from_own (output_path [str ''x.torrent'', str ''y'']) (metaInfo t)"
    unfolding o m by (simp add: apart_from_own_def) (simp add: str_def asc_def)
  from saved_path_untouched [OF p s d np this rtranclp.rtrancl_refl] s o show ?thesis
    by (simp add: start_swarm_def)
qed

end
