(* ===== verification/Spec2Isabelle.thy ===== *)
theory Spec2Isabelle
  imports Bencode_Correct Download Peer_Correct TrackerDecode Tracker_Correct Connections_Correct LogUtil Client Command Program
begin

text \<open>
  A verification of a BitTorrent client written in Go.

  \<^bold>\<open>The program.\<close> \<open>cmd/bittorrent-client/main.go\<close> reads a torrent file or a magnet link, makes a tracker
  client, a file manager and a \<open>Torrent\<close>, and calls \<open>Torrent.Download\<close>. That starts goroutines which announce
  to trackers and the DHT, connect to the peers they name, and talk to each peer in a loop. A block that
  arrives goes through \<open>processPiece\<close> to the file manager; when the last block of a piece is in, the piece
  is read back and compared with its SHA-1. A ticker looks whether all pieces are there.

  \<^bold>\<open>The theories, bottom up.\<close>
    \<^item> \<open>Prelude\<close>, \<open>GoLib\<close>, \<open>Sha1\<close>: lemma collections, the locale \<open>simulation\<close> (runs of one step relation answered
      by runs of another), codecs as locales, and what the program uses of Go: 64-bit integers as \<open>int\<close> with the wrap-around \<open>i64\<close>, panics and errors as values (\<open>go\<close>), \<open>copy\<close>, \<open>strconv\<close>,
      \<open>binary.BigEndian\<close>, the hash.
    \<^item> \<open>Bencode\<close>, \<open>Unmarshal\<close>, \<open>Bencode_Correct\<close>: \<open>internal/bencode/bencode.go\<close>. The decoder accepts exactly a
      grammar; encoding and decoding are inverse up to the order of keys; \<open>Unmarshal\<close> is characterised by
      the relation \<open>stores\<close> between a type, the old contents of a variable, a decoded value and the new contents.
    \<^item> \<open>MetaInfo\<close>: \<open>internal/torrent/metainfo.go\<close>, with the info hash computed by the model's SHA-1.
    \<^item> \<open>OsFs\<close>, \<open>Store\<close>, \<open>FileManager\<close>, \<open>FileManager_Correct\<close>: files as a map from paths to contents, where an
      environment may fail any call, and \<open>internal/file/file.go\<close> on it. Its files refine one flat disk, by an
      interpretation of the locale \<open>block_store\<close>.
    \<^item> \<open>Torrent\<close>, \<open>Torrent_Correct\<close>, \<open>Download\<close>: the pieces and counters of \<open>internal/torrent/torrent.go\<close>, and the
      transition system of blocks and verifications with its invariant: flagged pieces stay flagged, keep their
      bytes, and these have the right hash.
    \<^item> \<open>Net\<close>, \<open>Peer\<close>, \<open>Peer_Correct\<close>: connections whose calls may fail, and \<open>internal/peer\<close>: bit fields, both
      handshakes, framing, the keep-alive sender. The two readers interpret the locale \<open>stream_codec\<close>.
    \<^item> \<open>TrackerDecode\<close>, \<open>Url\<close>, \<open>Tracker\<close>, \<open>Tracker_Correct\<close>: \<open>internal/tracker/tracker.go\<close>: its own decoder (with
      nil slices where the other decoder makes empty ones), query
      strings of \<open>net/url\<close>, announces over HTTP and UDP, fallbacks, and the collection over trackers.
    \<^item> \<open>Magnet\<close>: magnet links and the torrents made from them.
    \<^item> \<open>PeerLoop\<close>, \<open>PeerLoop_Correct\<close>: \<open>handlePeer\<close> with every message, requests for pieces and answers to them,
      and which messages and goroutines panic.
    \<^item> \<open>Connections\<close>, \<open>Connections_Correct\<close>: connecting and announcing with retries, failed peers, clean-ups, what
      is asked of the DHT, and the main loop of \<open>Download\<close>. What \<open>Download\<close> relies on of \<open>TrackerInterface\<close> is the
      locale \<open>tracker_interface\<close>, interpreted on \<open>MultiTracker\<close>.
    \<^item> \<open>Swarm\<close>: all goroutines as one step relation, and its refinement to the transition system of \<open>Download\<close>,
      an interpretation of \<open>simulation\<close>.
    \<^item> \<open>LogUtil\<close>: \<open>pkg/logger\<close> and \<open>internal/util\<close>.
    \<^item> \<open>Client\<close>, \<open>Command\<close>: \<open>main.go\<close>. The first has the set-up from the arguments to a torrent, and what
      is done at the end; the second the flags and \<open>main\<close> as a whole.
    \<^item> \<open>Program\<close>: set-up, swarm and \<open>Download\<close> together: what a run of the program leaves on disk.

  \<^bold>\<open>Correspondence.\<close> Definitions carry the names of the Go functions; a suffix \<open>_loop\<close> names a loop of the
  function, and \<open>Close_Manager\<close>, \<open>Tracker_Announce\<close>, \<open>MultiTracker_Announce\<close>, \<open>Download_run\<close> and the like name methods
  whose short names occur twice. A method takes its receiver and returns it changed. What comes from
  outside (the clock, random bytes, \<open>url.Parse\<close>, the answers of the network, failures of system calls, the
  order in which Go visits a map) is a parameter, and properties hold for all of its values unless they
  say otherwise; \<open>healthy\<close> is the system and \<open>quiet\<close> the network in which no call fails.

  \<^bold>\<open>Concurrency.\<close> Every operation that holds the torrent's mutex is one step. The goroutines that a message
  starts are data (\<open>task\<close>) and run at any later time, in any order. A connection of \<open>connectToPeers\<close> is
  made attempt by attempt (\<open>connect_attempt\<close>), and other goroutines run between the attempts; cleaning up, forgetting failed peers and keep-alives are steps of their own. \<open>verifyDownload\<close> and
  \<open>isComplete\<close> take no lock, yet are one step: flags only grow, and on a complete torrent \<open>processPiece\<close> writes
  nothing. Data races, such as those on \<open>Bitfield\<close> and on the unlocked reads of \<open>Downloaded\<close>, are outside of the model.

  \<^bold>\<open>Bounds.\<close> Loops over data are recursion on the data. A UDP announce has 3 attempts, connecting and
  announcing have 5, as numbers that count down. The loop of \<open>requestPiece\<close> is a \<open>partial_function\<close>, since it
  does not end for a piece length that is not positive; that it ends for the positive ones below 2^62 is a
  property. The endless loops over tickers and messages take the list of what they receive, of any length.

  \<^bold>\<open>What the properties show.\<close> While the blocks of the peers stay inside their pieces, flags mean
  hashes, in every interleaving, and \<open>Download\<close> returns without an error only if the disk held the right
  bytes in the state its loop looked at (\<open>first_complete\<close> picks that state from the events of the loop). From the
  command line on: if \<open>Download\<close> returns without an error for a plain torrent, its file was
  what the torrent describes; and unless the length is a multiple of the piece length, there are peers with
  which it does. Honest peers complete the download;
  the formats on disk and on the wire are read back as written.
  Other properties record where the code does not do what it means to: torrents whose length is never
  read, messages that make the client panic, pieces of length zero, counters that drift, peers
  of the DHT that are asked for another hash, a last line that names a file nobody wrote.

  \<^bold>\<open>Not modelled.\<close> The DHT server and the rate limiter (third-party libraries, of which only the answers
  occur), the text of log lines and error messages, floating point percentages, and real time: timers are events,
  so nothing is said about when something happens. The signal handler and the limit of an hour occur as the
  events that end the loop of \<open>Download\<close>. The retry through the DHT at the end of \<open>main\<close> is modelled up to
  the start of its goroutine, since \<open>main\<close> returns right after it. Addresses of peers are those of IPv4: the text
  of an IPv6 address, which the DHT may name, is not modelled. The file system knows no links and takes a
  cleaned path literally, so a path that leaves the working directory with \<open>..\<close> and comes back to it counts as
  another one; the property about the path that \<open>main\<close> prints leaves out such paths.
\<close>

end
